(* ===== verification/Prelude.thy ===== *)
theory Prelude
  imports Main "HOL-Library.Word"
begin

text \<open>
  Shared vocabulary of the development: the C integer types of the UEFI code base as
  machine words, the status and fault values every component returns, byte images of
  words (what \<^verbatim>\<open>CopyMem\<close> between a register and a byte array does), the search loop
  \<^verbatim>\<open>for (Index = 0; Index < N; Index++) if (P) break;\<close> that the services repeat, and a
  generic notion of reachable state with the locale that lifts a step-wise invariant to
  every run, and the locale of a message handler that implements an abstract service.
\<close>

unbundle bit_operations_syntax

section \<open>Integer types\<close>

type_synonym UINT8 = "8 word"
type_synonym UINT16 = "16 word"
type_synonym UINT32 = "32 word"
type_synonym UINT64 = "64 word"
type_synonym UINTN = "64 word"

named_theorems wf_intro "well-formedness and invariant introduction rules"
named_theorems frame_simp "fields an operation leaves alone"

section \<open>Status and fault values\<close>

text \<open>
  \<^verbatim>\<open>EFI_STATUS\<close> is an integer whose top bit marks an error. The source only ever names the
  codes below and tests \<^verbatim>\<open>EFI_ERROR\<close>; every other error or warning code a callee may
  return is kept apart by its number.
\<close>

datatype EFI_STATUS =
    EFI_SUCCESS
  | EFI_INVALID_PARAMETER
  | EFI_UNSUPPORTED
  | EFI_BUFFER_TOO_SMALL
  | EFI_DEVICE_ERROR
  | EFI_OUT_OF_RESOURCES
  | EFI_NOT_FOUND
  | EFI_ACCESS_DENIED
  | EFI_TIMEOUT
  | EFI_OTHER_ERROR nat
  | EFI_WARNING nat

fun EFI_ERROR :: "EFI_STATUS \<Rightarrow> bool" where
  "EFI_ERROR EFI_SUCCESS = False"
| "EFI_ERROR (EFI_WARNING n) = False"
| "EFI_ERROR _ = True"

text \<open>
  What C does not define, and a failing \<^verbatim>\<open>ASSERT\<close>, are values of the model: an operation
  that can reach one returns \<open>Inl\<close> of it.
\<close>

datatype fault =
    ShiftTooFar          \<comment> \<open>shift count not below the width of the promoted operand\<close>
  | OutOfBounds          \<comment> \<open>access past the end of an object\<close>
  | UninitialisedRead    \<comment> \<open>use of a variable no path has written\<close>
  | NullDereference
  | ListCorrupted        \<comment> \<open>a node linked into a list at an address that is already a node\<close>
  | AssertFail           \<comment> \<open>a failing \<^verbatim>\<open>ASSERT\<close> in a build that keeps them\<close>

type_synonym 'a result = "fault + 'a"

definition bind_result :: "'a result \<Rightarrow> ('a \<Rightarrow> 'b result) \<Rightarrow> 'b result" where
  "bind_result m k = (case m of Inl e \<Rightarrow> Inl e | Inr x \<Rightarrow> k x)"

definition ASSERT :: "bool \<Rightarrow> 'a result \<Rightarrow> 'a result" where
  "ASSERT b m = (if b then m else Inl AssertFail)"

lemma bind_result_simps [simp]:
  "bind_result (Inl e) k = Inl e"
  "bind_result (Inr x) k = k x"
  by (simp_all add: bind_result_def)

lemma bind_result_Inr_iff:
  "bind_result m k = Inr y \<longleftrightarrow> (\<exists>x. m = Inr x \<and> k x = Inr y)"
  by (cases m) simp_all

lemma bind_result_Inl_iff:
  "bind_result m k = Inl e \<longleftrightarrow> m = Inl e \<or> (\<exists>x. m = Inr x \<and> k x = Inl e)"
  by (cases m) auto

lemma ASSERT_simps [simp]:
  "ASSERT True m = m"
  "ASSERT False m = Inl AssertFail"
  by (simp_all add: ASSERT_def)

lemma ASSERT_Inr_iff: "ASSERT b m = Inr y \<longleftrightarrow> b \<and> m = Inr y"
  by (simp add: ASSERT_def)

text \<open>
  A computation that may also run forever: \<open>None\<close> when it does, otherwise a result.
\<close>

type_synonym 'a comp = "'a result option"

definition bind_comp :: "'a comp \<Rightarrow> ('a \<Rightarrow> 'b comp) \<Rightarrow> 'b comp" where
  "bind_comp m k = (case m of None \<Rightarrow> None | Some (Inl e) \<Rightarrow> Some (Inl e) | Some (Inr x) \<Rightarrow> k x)"

lemma bind_comp_simps [simp]:
  "bind_comp None k = None"
  "bind_comp (Some (Inl e)) k = Some (Inl e)"
  "bind_comp (Some (Inr x)) k = k x"
  by (simp_all add: bind_comp_def)

lemma bind_comp_Inr_iff:
  "bind_comp m k = Some (Inr y) \<longleftrightarrow> (\<exists>x. m = Some (Inr x) \<and> k x = Some (Inr y))"
  by (auto simp: bind_comp_def split: option.split sum.split)

lemma bind_comp_returns:
  assumes "m \<noteq> None" and "\<And>x. m = Some (Inr x) \<Longrightarrow> k x \<noteq> None"
  shows "bind_comp m k \<noteq> None"
  using assms by (auto simp: bind_comp_def split: option.split sum.split)

lemmas result_iffs = bind_result_Inr_iff bind_result_Inl_iff ASSERT_Inr_iff

section \<open>The search loop\<close>

text \<open>
  \<^verbatim>\<open>for (Index = 0; Index < n; Index++) { if (P) { found = Index; break; } }\<close>
\<close>

definition first_index :: "(nat \<Rightarrow> bool) \<Rightarrow> nat \<Rightarrow> nat option" where
  "first_index P n = find P [0..<n]"

lemma first_index_SomeD:
  assumes "first_index P n = Some i"
  shows "i < n" "P i" "\<And>j. j < i \<Longrightarrow> \<not> P j"
  using assms by (auto simp: first_index_def find_Some_iff)

lemma first_index_NoneD:
  "first_index P n = None \<Longrightarrow> j < n \<Longrightarrow> \<not> P j"
  by (simp add: first_index_def find_None_iff)

lemma first_index_None_iff:
  "first_index P n = None \<longleftrightarrow> (\<forall>j<n. \<not> P j)"
  by (auto simp: first_index_def find_None_iff)

lemma first_index_eq_SomeI:
  "i < n \<Longrightarrow> P i \<Longrightarrow> (\<And>j. j < i \<Longrightarrow> \<not> P j) \<Longrightarrow> first_index P n = Some i"
  by (auto simp: first_index_def find_Some_iff intro!: exI[of _ i])

lemma first_index_cong:
  "(\<And>i. i < n \<Longrightarrow> P i = Q i) \<Longrightarrow> first_index P n = first_index Q n"
  unfolding first_index_def by (rule find_cong) auto

text \<open>Segments of lists.\<close>

lemma drop_take_append:
  assumes "i \<le> j" and "j \<le> k"
  shows "drop i (take j xs) @ drop j (take k xs) = drop i (take k xs)"
proof (cases "j \<le> length xs")
  case True
  have "take k xs = take j (take k xs) @ drop j (take k xs)" by (rule append_take_drop_id[symmetric])
  then have "drop i (take k xs) = drop i (take j xs @ drop j (take k xs))" using assms by (simp add: min_absorb1)
  with True assms show ?thesis by (simp only: drop_append) simp
qed (use assms in simp)

lemma take_update_drop:
  "i < length buf \<Longrightarrow> i < k \<Longrightarrow> take (Suc i) (buf[i := x]) @ ys @ drop k (buf[i := x]) = take i buf @ (x # ys) @ drop k buf"
  by (simp add: take_Suc_conv_app_nth)

lemma splice_splice:
  assumes "i \<le> k" and "k \<le> n" and "n \<le> length buf" and "n - i \<le> length xs"
    and b: "b = take i buf @ take (k - i) xs @ drop k buf"
  shows "take k b @ take (n - k) (drop (k - i) xs) @ drop n b = take i buf @ take (n - i) xs @ drop n buf"
proof -
  have "take k b = take i buf @ take (k - i) xs" "drop n b = drop n buf" using assms by auto
  moreover have "take (n - i) xs = take (k - i) xs @ take (n - k) (drop (k - i) xs)"
    using assms take_add[of "k - i" "n - k" xs] by simp
  ultimately show ?thesis by simp
qed

section \<open>Byte images of words\<close>

text \<open>
  The partition runs little-endian: byte \<open>i\<close> of the image of \<open>w\<close> is bits
  \<open>8 * i\<close> to \<open>8 * i + 7\<close>.
\<close>

definition bytes_of :: "nat \<Rightarrow> 'a::len word \<Rightarrow> UINT8 list" where
  "bytes_of n w = map (\<lambda>i. ucast (drop_bit (8 * i) w)) [0..<n]"

fun word_of_bytes :: "UINT8 list \<Rightarrow> 'a::len word" where
  "word_of_bytes [] = 0"
| "word_of_bytes (b # bs) = ucast b OR push_bit 8 (word_of_bytes bs)"

lemma length_bytes_of [simp]: "length (bytes_of n w) = n"
  by (simp add: bytes_of_def)

lemma bytes_of_nth [simp]: "i < n \<Longrightarrow> bytes_of n w ! i = ucast (drop_bit (8 * i) w)"
  by (simp add: bytes_of_def)

lemma bit_word_of_bytes:
  "bit (word_of_bytes bs :: 'a::len word) n \<longleftrightarrow>
     n < LENGTH('a) \<and> n div 8 < length bs \<and> bit (bs ! (n div 8)) (n mod 8)"
proof (induction bs arbitrary: n)
  case Nil
  then show ?case by simp
next
  case (Cons b bs)
  show ?case
  proof (cases "n < 8")
    case True
    then show ?thesis
      by (auto simp: bit_or_iff bit_push_bit_iff bit_ucast_iff)
  next
    case False
    then have d: "n div 8 = Suc ((n - 8) div 8)" and m: "n mod 8 = (n - 8) mod 8"
      by (simp_all add: le_div_geq le_mod_geq)
    have "\<not> bit b n" using False by (simp add: bit_word.rep_eq)
    then show ?thesis
      using False d m Cons.IH[of "n - 8"]
      by (auto simp: bit_or_iff bit_push_bit_iff bit_ucast_iff)
  qed
qed

lemma word_of_bytes_bytes_of:
  fixes w :: "'a::len word"
  assumes "LENGTH('a) \<le> 8 * n"
  shows "word_of_bytes (bytes_of n w) = w"
proof (rule bit_word_eqI)
  fix m assume m: "m < LENGTH('a)"
  then have "m div 8 < n" using assms by (simp add: less_mult_imp_div_less mult.commute)
  moreover have "8 * (m div 8) + m mod 8 = m" by simp
  ultimately show "bit (word_of_bytes (bytes_of n w) :: 'a word) m = bit w m"
    using m by (simp add: bit_word_of_bytes bit_ucast_iff bit_drop_bit_eq)
qed

lemma bytes_of_word_of_bytes:
  assumes "length bs = n" and "8 * n \<le> LENGTH('a::len)"
  shows "bytes_of n (word_of_bytes bs :: 'a word) = bs"
proof (rule nth_equalityI)
  show "length (bytes_of n (word_of_bytes bs :: 'a word)) = length bs" using assms by simp
next
  fix i assume "i < length (bytes_of n (word_of_bytes bs :: 'a word))"
  then have i: "i < n" by simp
  show "bytes_of n (word_of_bytes bs :: 'a word) ! i = bs ! i"
  proof (rule bit_word_eqI)
    fix m :: nat assume m: "m < LENGTH(8)"
    then have "(8 * i + m) div 8 = i" "(8 * i + m) mod 8 = m" "8 * i + m < LENGTH('a)"
      using i assms by simp_all
    then show "bit (bytes_of n (word_of_bytes bs :: 'a word) ! i) m = bit (bs ! i) m"
      using i m assms by (simp add: bit_ucast_iff bit_drop_bit_eq bit_word_of_bytes)
  qed
qed

text \<open>\<^verbatim>\<open>SwapBytes16\<close> and \<^verbatim>\<open>SwapBytes32\<close> of \<^verbatim>\<open>BaseLib\<close>: the byte image reversed.\<close>

definition SwapBytes16 :: "UINT16 \<Rightarrow> UINT16" where
  "SwapBytes16 w = word_of_bytes (rev (bytes_of 2 w))"

definition SwapBytes32 :: "UINT32 \<Rightarrow> UINT32" where
  "SwapBytes32 w = word_of_bytes (rev (bytes_of 4 w))"

lemma SwapBytes_involution [simp]:
  "SwapBytes16 (SwapBytes16 a) = a"
  "SwapBytes32 (SwapBytes32 b) = b"
  by (simp_all add: SwapBytes16_def SwapBytes32_def bytes_of_word_of_bytes word_of_bytes_bytes_of)

section \<open>Reachable states\<close>

inductive reachable :: "('s \<Rightarrow> bool) \<Rightarrow> ('s \<Rightarrow> 's \<Rightarrow> bool) \<Rightarrow> 's \<Rightarrow> bool"
  for start step where
  reach_start: "start s \<Longrightarrow> reachable start step s"
| reach_step: "reachable start step s \<Longrightarrow> step s t \<Longrightarrow> reachable start step t"

text \<open>
  The contract a component offers for a safety argument: its start states satisfy the
  invariant and each of its steps keeps it.
\<close>

locale invariant_system =
  fixes start :: "'s \<Rightarrow> bool"
    and step :: "'s \<Rightarrow> 's \<Rightarrow> bool"
    and invar :: "'s \<Rightarrow> bool"
  assumes invar_start: "start s \<Longrightarrow> invar s"
    and invar_step: "invar s \<Longrightarrow> step s t \<Longrightarrow> invar t"
begin

lemma invar_reachable: "reachable start step s \<Longrightarrow> invar s"
  by (induction rule: reachable.induct) (auto intro: invar_start invar_step)

lemma invar_reachable_from:
  assumes "reachable (\<lambda>x. x = s) step t" and "invar s"
  shows "invar t"
  using assms by (induction rule: reachable.induct) (auto intro: invar_step)

end


section \<open>Services that answer messages\<close>

text \<open>
  Messages handled one after the other, with their replies; and the same for an abstract
  service, which is a function.
\<close>

fun run_all :: "('m \<Rightarrow> 's \<Rightarrow> ('r \<times> 's) result) \<Rightarrow> 'm list \<Rightarrow> 's \<Rightarrow> ('r list \<times> 's) result" where
  "run_all h [] s = Inr ([], s)"
| "run_all h (m # ms) s =
     bind_result (h m s) (\<lambda>(r, s1). bind_result (run_all h ms s1) (\<lambda>(rs, s2). Inr (r # rs, s2)))"

fun spec_all :: "('m \<Rightarrow> 'a \<Rightarrow> 'r \<times> 'a) \<Rightarrow> 'm list \<Rightarrow> 'a \<Rightarrow> 'r list \<times> 'a" where
  "spec_all f [] a = ([], a)"
| "spec_all f (m # ms) a = (let (r, a1) = f m a; (rs, a2) = spec_all f ms a1 in (r # rs, a2))"

lemma run_all_ConsE:
  assumes "run_all h (m # ms) s = Inr (rs, s')"
  obtains r s1 rs' where "h m s = Inr (r, s1)" "run_all h ms s1 = Inr (rs', s')" "rs = r # rs'"
  using assms by (auto simp: bind_result_Inr_iff)

text \<open>What a handler keeps at every message it keeps over all of them.\<close>

lemma run_all_keeps:
  assumes step: "\<And>s m r s'. P s \<Longrightarrow> Q m \<Longrightarrow> h m s = Inr (r, s') \<Longrightarrow> P s'"
    and "P s" and "list_all Q ms" and "run_all h ms s = Inr (rs, s')"
  shows "P s'"
  using assms(2-4)
proof (induction ms arbitrary: s rs)
  case (Cons m ms)
  from Cons.prems(3) obtain r s1 rs' where "h m s = Inr (r, s1)" "run_all h ms s1 = Inr (rs', s')"
    by (rule run_all_ConsE)
  with Cons.IH[of s1 rs'] step[of s m r s1] Cons.prems(1,2) show ?case by simp
qed simp

text \<open>
  The contract of a handler that implements an abstract service on the states of an
  invariant, for the messages it admits.
\<close>

locale service_refinement =
  fixes handle :: "'m \<Rightarrow> 's \<Rightarrow> ('r \<times> 's) result"
    and spec :: "'m \<Rightarrow> 'a \<Rightarrow> 'r \<times> 'a"
    and abst :: "'s \<Rightarrow> 'a"
    and invar :: "'s \<Rightarrow> bool"
    and admits :: "'m \<Rightarrow> bool"
  assumes refines: "invar s \<Longrightarrow> admits m \<Longrightarrow>
    \<exists>r s'. handle m s = Inr (r, s') \<and> invar s' \<and> spec m (abst s) = (r, abst s')"
begin

lemma run_refines:
  assumes "invar s" and "list_all admits ms"
  shows "\<exists>rs s'. run_all handle ms s = Inr (rs, s') \<and> invar s' \<and> spec_all spec ms (abst s) = (rs, abst s')"
  using assms
proof (induction ms arbitrary: s)
  case (Cons m ms)
  from refines[of s m] Cons.prems obtain r s1 where
    "handle m s = Inr (r, s1)" "invar s1" "spec m (abst s) = (r, abst s1)" by auto
  with Cons.IH[of s1] Cons.prems(2) show ?case by auto
qed simp

end

end
