(* ===== verification/FfaMessages.thy ===== *)
theory FfaMessages
  imports Prelude
begin

text \<open>
  The data of \<^verbatim>\<open>ArmFfaLibEx\<close>: register blocks, direct messages and GUIDs, and the
  functions that convert between them
  (\<^verbatim>\<open>FfaPrepareGuid\<close>, \<^verbatim>\<open>FfaPackDirectMessage\<close>, \<^verbatim>\<open>FfaUnpackDirectMessage\<close>).
  The numeric function identifiers come from a header outside this repository, so they
  are a valuation \<open>fid\<close> of the names the source uses.
\<close>

section \<open>Function identifiers\<close>

datatype ffa_fid =
    ARM_FID_FFA_ERROR
  | ARM_FID_FFA_SUCCESS_AARCH32
  | ARM_FID_FFA_INTERRUPT
  | ARM_FID_FFA_WAIT
  | ARM_FID_FFA_MSG_SEND_DIRECT_REQ_AARCH32
  | ARM_FID_FFA_MSG_SEND_DIRECT_REQ_AARCH64
  | ARM_FID_FFA_MSG_SEND_DIRECT_REQ2
  | ARM_FID_FFA_MSG_SEND_DIRECT_RESP_AARCH32
  | ARM_FID_FFA_MSG_SEND_DIRECT_RESP_AARCH64
  | ARM_FID_FFA_MSG_SEND_DIRECT_RESP2
  | ARM_FID_FFA_NS_RES_INFO_GET
  | ARM_FID_FFA_NOTIFICATION_SET
  | ARM_FID_FFA_NOTIFICATION_GET
  | ARM_FID_FFA_NOTIFICATION_BITMAP_CREATE
  | ARM_FID_FFA_NOTIFICATION_BITMAP_DESTROY
  | ARM_FID_FFA_NOTIFICATION_BIND
  | ARM_FID_FFA_NOTIFICATION_UNBIND
  | ARM_FID_FFA_PARTITION_INFO_GET_REGS
  | ARM_FID_FFA_MEM_DONATE_AARCH32
  | ARM_FID_FFA_MEM_DONATE_AARCH64
  | ARM_FID_FFA_MEM_LEND_AARCH32
  | ARM_FID_FFA_MEM_LEND_AARCH64
  | ARM_FID_FFA_MEM_SHARE_AARCH32
  | ARM_FID_FFA_MEM_SHARE_AARCH64
  | ARM_FID_FFA_MEM_RETRIEVE_REQ_AARCH32
  | ARM_FID_FFA_MEM_RETRIEVE_REQ_AARCH64
  | ARM_FID_FFA_MEM_RETRIEVE_RESP
  | ARM_FID_FFA_MEM_RETRIEVE_RELINQUISH
  | ARM_FID_FFA_MEM_RETRIEVE_RECLAIM
  | ARM_FID_FFA_MEM_PERM_GET_AARCH32
  | ARM_FID_FFA_MEM_PERM_SET_AARCH32
  | ARM_FID_FFA_CONSOLE_LOG_AARCH32
  | ARM_FID_FFA_CONSOLE_LOG_AARCH64

type_synonym fid_values = "ffa_fid \<Rightarrow> UINT32"

section \<open>Register blocks, GUIDs and direct messages\<close>

text \<open>\<^verbatim>\<open>ARM_SXC_ARGS\<close>: the eighteen argument registers of an SMC or SVC.\<close>

record ARM_SXC_ARGS =
  X0 :: UINTN
  X1 :: UINTN
  X2 :: UINTN
  X3 :: UINTN
  X4 :: UINTN
  X5 :: UINTN
  X6 :: UINTN
  X7 :: UINTN
  X8 :: UINTN
  X9 :: UINTN
  X10 :: UINTN
  X11 :: UINTN
  X12 :: UINTN
  X13 :: UINTN
  X14 :: UINTN
  X15 :: UINTN
  X16 :: UINTN
  X17 :: UINTN

definition sxc_zero :: ARM_SXC_ARGS where
  "sxc_zero = \<lparr> X0 = 0, X1 = 0, X2 = 0, X3 = 0, X4 = 0, X5 = 0, X6 = 0, X7 = 0, X8 = 0,
     X9 = 0, X10 = 0, X11 = 0, X12 = 0, X13 = 0, X14 = 0, X15 = 0, X16 = 0, X17 = 0 \<rparr>"

record EFI_GUID =
  Data1 :: UINT32
  Data2 :: UINT16
  Data3 :: UINT16
  Data4 :: "UINT8 list"

definition wf_guid :: "EFI_GUID \<Rightarrow> bool" where
  "wf_guid g \<longleftrightarrow> length (Data4 g) = 8"

definition guid_zero :: EFI_GUID where
  "guid_zero = \<lparr> Data1 = 0, Data2 = 0, Data3 = 0, Data4 = replicate 8 0 \<rparr>"

record DIRECT_MSG_ARGS_EX =
  FunctionId :: UINT32
  SourceId :: UINT16
  DestinationId :: UINT16
  ServiceGuid :: EFI_GUID
  Arg0 :: UINTN
  Arg1 :: UINTN
  Arg2 :: UINTN
  Arg3 :: UINTN
  Arg4 :: UINTN
  Arg5 :: UINTN
  Arg6 :: UINTN
  Arg7 :: UINTN
  Arg8 :: UINTN
  Arg9 :: UINTN
  Arg10 :: UINTN
  Arg11 :: UINTN
  Arg12 :: UINTN
  Arg13 :: UINTN

definition msg_zero :: DIRECT_MSG_ARGS_EX where
  "msg_zero = \<lparr> FunctionId = 0, SourceId = 0, DestinationId = 0, ServiceGuid = guid_zero,
     Arg0 = 0, Arg1 = 0, Arg2 = 0, Arg3 = 0, Arg4 = 0, Arg5 = 0, Arg6 = 0, Arg7 = 0, Arg8 = 0,
     Arg9 = 0, Arg10 = 0, Arg11 = 0, Arg12 = 0, Arg13 = 0 \<rparr>"

section \<open>GUID images\<close>

text \<open>The sixteen bytes of an \<^verbatim>\<open>EFI_GUID\<close> in memory, and the struct read back from them.\<close>

definition guid_bytes :: "EFI_GUID \<Rightarrow> UINT8 list" where
  "guid_bytes g = bytes_of 4 (Data1 g) @ bytes_of 2 (Data2 g) @ bytes_of 2 (Data3 g) @ Data4 g"

definition guid_of_bytes :: "UINT8 list \<Rightarrow> EFI_GUID" where
  "guid_of_bytes bs = \<lparr> Data1 = word_of_bytes (take 4 bs),
     Data2 = word_of_bytes (take 2 (drop 4 bs)),
     Data3 = word_of_bytes (take 2 (drop 6 bs)),
     Data4 = take 8 (drop 8 bs) \<rparr>"

text \<open>The body of \<^verbatim>\<open>FfaPrepareGuid\<close> behind its NULL check, and the function itself.\<close>

definition prepare_guid :: "EFI_GUID \<Rightarrow> EFI_GUID" where
  "prepare_guid g = g\<lparr> Data1 := SwapBytes32 (Data1 g),
     Data2 := SwapBytes16 (Data2 g), Data3 := SwapBytes16 (Data3 g) \<rparr>"

definition FfaPrepareGuid :: "EFI_GUID option \<Rightarrow> EFI_GUID option" where
  "FfaPrepareGuid Guid = (case Guid of None \<Rightarrow> None | Some g \<Rightarrow> Some (prepare_guid g))"

lemma length_guid_bytes [simp]: "wf_guid g \<Longrightarrow> length (guid_bytes g) = 16"
  by (simp add: guid_bytes_def wf_guid_def)

lemma guid_of_bytes_guid_bytes [simp]: "wf_guid g \<Longrightarrow> guid_of_bytes (guid_bytes g) = g"
  by (simp add: guid_of_bytes_def guid_bytes_def wf_guid_def word_of_bytes_bytes_of)

lemma wf_guid_of_bytes [wf_intro]: "length bs = 16 \<Longrightarrow> wf_guid (guid_of_bytes bs)"
  by (simp add: wf_guid_def guid_of_bytes_def)

lemma wf_prepare_guid [simp]: "wf_guid (prepare_guid g) = wf_guid g"
  by (simp add: wf_guid_def prepare_guid_def)

lemma prepare_guid_involution [simp]: "prepare_guid (prepare_guid g) = g"
  by (simp add: prepare_guid_def)

section \<open>Packing and unpacking\<close>

definition FfaUnpackDirectMessage ::
  "fid_values \<Rightarrow> ARM_SXC_ARGS \<Rightarrow> DIRECT_MSG_ARGS_EX \<Rightarrow> DIRECT_MSG_ARGS_EX" where
  "FfaUnpackDirectMessage fid Response Message =
    (let m = Message\<lparr> FunctionId := ucast (X0 Response),
                      SourceId := ucast (drop_bit 16 (X1 Response)),
                      DestinationId := ucast (X1 Response) \<rparr>
     in if FunctionId m = fid ARM_FID_FFA_MSG_SEND_DIRECT_REQ_AARCH32 \<or>
           FunctionId m = fid ARM_FID_FFA_MSG_SEND_DIRECT_REQ_AARCH64
        then m\<lparr> Arg0 := X2 Response, Arg1 := X3 Response, Arg2 := X4 Response,
                Arg3 := X5 Response, Arg4 := X6 Response, Arg5 := X7 Response \<rparr>
        else m\<lparr> ServiceGuid := prepare_guid
                  (guid_of_bytes (bytes_of 8 (X2 Response) @ bytes_of 8 (X3 Response))),
                Arg0 := X4 Response, Arg1 := X5 Response, Arg2 := X6 Response,
                Arg3 := X7 Response, Arg4 := X8 Response, Arg5 := X9 Response,
                Arg6 := X10 Response, Arg7 := X11 Response, Arg8 := X12 Response,
                Arg9 := X13 Response, Arg10 := X14 Response, Arg11 := X15 Response,
                Arg12 := X16 Response, Arg13 := X17 Response \<rparr>)"

text \<open>\<^verbatim>\<open>((UINT32)Hi << 16) | Lo\<close>, the endpoint pair of a register.\<close>

definition id_pair :: "UINT16 \<Rightarrow> UINT16 \<Rightarrow> UINTN" where
  "id_pair hi lo = ucast (push_bit 16 (ucast hi :: UINT32) OR ucast lo)"

definition FfaPackDirectMessage ::
  "fid_values \<Rightarrow> ARM_SXC_ARGS \<Rightarrow> DIRECT_MSG_ARGS_EX \<Rightarrow> ARM_SXC_ARGS" where
  "FfaPackDirectMessage fid Request Message =
    (let r = Request\<lparr> X0 := ucast (FunctionId Message),
                      X1 := id_pair (SourceId Message) (DestinationId Message) \<rparr>
     in if FunctionId Message = fid ARM_FID_FFA_MSG_SEND_DIRECT_REQ_AARCH32 \<or>
           FunctionId Message = fid ARM_FID_FFA_MSG_SEND_DIRECT_REQ_AARCH64 \<or>
           FunctionId Message = fid ARM_FID_FFA_MSG_SEND_DIRECT_RESP_AARCH32 \<or>
           FunctionId Message = fid ARM_FID_FFA_MSG_SEND_DIRECT_RESP_AARCH64
        then r\<lparr> X2 := Arg0 Message, X3 := Arg1 Message, X4 := Arg2 Message,
                X5 := Arg3 Message, X6 := Arg4 Message, X7 := Arg5 Message \<rparr>
        else let gb = guid_bytes (prepare_guid (ServiceGuid Message))
             in r\<lparr> X2 := word_of_bytes (take 8 gb), X3 := word_of_bytes (drop 8 gb),
                   X4 := Arg0 Message, X5 := Arg1 Message, X6 := Arg2 Message,
                   X7 := Arg3 Message, X8 := Arg4 Message, X9 := Arg5 Message,
                   X10 := Arg6 Message, X11 := Arg7 Message, X12 := Arg8 Message,
                   X13 := Arg9 Message, X14 := Arg10 Message, X15 := Arg11 Message,
                   X16 := Arg12 Message, X17 := Arg13 Message \<rparr>)"

lemma id_pair_lo [simp]: "(ucast (id_pair hi lo) :: UINT16) = lo"
  unfolding id_pair_def
  by (rule bit_word_eqI)
    (auto simp: bit_ucast_iff bit_or_iff bit_push_bit_iff)

lemma id_pair_hi [simp]: "(ucast (drop_bit 16 (id_pair hi lo)) :: UINT16) = hi"
  unfolding id_pair_def
  by (rule bit_word_eqI)
    (auto simp: bit_ucast_iff bit_or_iff bit_push_bit_iff bit_drop_bit_eq dest: bit_imp_le_length)

lemma ucast_fid [simp]: "(ucast (ucast (f :: UINT32) :: UINTN) :: UINT32) = f"
  by (rule bit_word_eqI) (auto simp: bit_ucast_iff)

lemma ucast_fid_inject [simp]: "(ucast (f :: UINT32) :: UINTN) = ucast g \<longleftrightarrow> f = g"
  by (metis ucast_fid)

lemma guid_words:
  assumes "wf_guid g"
  shows "bytes_of 8 (word_of_bytes (take 8 (guid_bytes g)) :: UINTN)
       @ bytes_of 8 (word_of_bytes (drop 8 (guid_bytes g)) :: UINTN) = guid_bytes g"
  using assms by (simp add: bytes_of_word_of_bytes)

end
