(* ===== verification/FfaCalls.thy ===== *)
theory FfaCalls
  imports FfaMessages
begin

text \<open>
  The FF-A calls of \<^verbatim>\<open>ArmFfaLibEx\<close>. The conduit instruction, the SPMC behind it, the
  status translation and the partition-id query are code outside this repository: they
  are the fields of \<open>ffa_env\<close>, over an abstract world \<open>'w\<close>. The library's own state
  is the cached partition id. A wait loop that never sees anything but interrupts does
  not return, so the three blocking calls are partial.
\<close>

section \<open>Environment and state\<close>

record 'w ffa_env =
  fid :: fid_values
  PcdFfaLibConduitSmc :: bool
  ArmCallSmc :: "ARM_SXC_ARGS \<Rightarrow> 'w \<Rightarrow> ARM_SXC_ARGS \<times> 'w"
  ArmCallSvc :: "ARM_SXC_ARGS \<Rightarrow> 'w \<Rightarrow> ARM_SXC_ARGS \<times> 'w"
  FfaStatusToEfiStatus :: "UINTN \<Rightarrow> EFI_STATUS"
  ArmFfaLibPartitionIdGet :: "'w \<Rightarrow> UINT16 option \<times> 'w"
    \<comment> \<open>the id it stores through its pointer, if it stores one\<close>
  InterruptHandler :: "UINT32 \<Rightarrow> 'w \<Rightarrow> 'w"
  ARM_FFA_NOTIFICATION_FLAG_BITMAP_SP :: UINT64
  ARM_FFA_NOTIFICATION_FLAG_BITMAP_VM :: UINT64
  ARM_FFA_NOTIFICATION_FLAG_BITMAP_HYP :: UINT64
  ARM_FFA_MEM_PERM_RESERVED_MASK :: UINT32

record 'w ffa_state =
  mPartitionId :: UINT16
  world :: 'w

definition INVALID_SOURCE_ID :: UINT16 where
  "INVALID_SOURCE_ID = 0xFFFF"

text \<open>The null platform's interrupt handler only prints.\<close>

definition SecurePartitionInterruptHandler :: "UINT32 \<Rightarrow> 'w \<Rightarrow> 'w" where
  "SecurePartitionInterruptHandler InterruptId w = w"

definition ArmCallSxc ::
  "'w ffa_env \<Rightarrow> ARM_SXC_ARGS \<Rightarrow> 'w ffa_state \<Rightarrow> ARM_SXC_ARGS \<times> 'w ffa_state" where
  "ArmCallSxc env Request s =
     (let (LocalParams, w) =
        (if PcdFfaLibConduitSmc env then ArmCallSmc env Request (world s)
         else ArmCallSvc env Request (world s))
      in (LocalParams, s\<lparr>world := w\<rparr>))"

text \<open>\<^verbatim>\<open>if (mPartitionId == INVALID_SOURCE_ID) ArmFfaLibPartitionIdGet (&mPartitionId);\<close>\<close>

definition fetch_partition_id :: "'w ffa_env \<Rightarrow> 'w ffa_state \<Rightarrow> 'w ffa_state" where
  "fetch_partition_id env s =
     (if mPartitionId s = INVALID_SOURCE_ID
      then (case ArmFfaLibPartitionIdGet env (world s) of
              (None, w) \<Rightarrow> s\<lparr>world := w\<rparr>
            | (Some i, w) \<Rightarrow> s\<lparr>mPartitionId := i, world := w\<rparr>)
      else s)"

definition reg_is :: "'w ffa_env \<Rightarrow> UINTN \<Rightarrow> ffa_fid \<Rightarrow> bool" where
  "reg_is env r f \<longleftrightarrow> r = ucast (fid env f)"

section \<open>Messaging\<close>

definition FfaReturnFromInterrupt ::
  "'w ffa_env \<Rightarrow> 'w ffa_state \<Rightarrow> ARM_SXC_ARGS \<times> 'w ffa_state" where
  "FfaReturnFromInterrupt env s =
     ArmCallSxc env (sxc_zero\<lparr>X0 := ucast (fid env ARM_FID_FFA_WAIT)\<rparr>) s"

text \<open>\<^verbatim>\<open>while (Result.Arg0 == ARM_FID_FFA_INTERRUPT)\<close>\<close>

partial_function (option) interrupt_loop ::
  "'w ffa_env \<Rightarrow> ARM_SXC_ARGS \<Rightarrow> 'w ffa_state \<Rightarrow> (ARM_SXC_ARGS \<times> 'w ffa_state) option" where
  "interrupt_loop env Result s =
     (if reg_is env (X0 Result) ARM_FID_FFA_INTERRUPT
      then (case FfaReturnFromInterrupt env
                   (s\<lparr>world := InterruptHandler env (ucast (X2 Result)) (world s)\<rparr>) of
              (Result', s') \<Rightarrow> interrupt_loop env Result' s')
      else Some (Result, s))"

text \<open>The compound literal \<^verbatim>\<open>(DIRECT_MSG_ARGS_EX) { .FunctionId = Result.Arg0 }\<close>.\<close>

definition msg_of_fid :: "UINTN \<Rightarrow> DIRECT_MSG_ARGS_EX" where
  "msg_of_fid r = msg_zero\<lparr>FunctionId := ucast r\<rparr>"

definition FfaMessageWait ::
  "'w ffa_env \<Rightarrow> DIRECT_MSG_ARGS_EX \<Rightarrow> 'w ffa_state \<Rightarrow>
   (EFI_STATUS \<times> DIRECT_MSG_ARGS_EX \<times> 'w ffa_state) result option" where
  "FfaMessageWait env Message s =
     (case ArmCallSxc env (sxc_zero\<lparr>X0 := ucast (fid env ARM_FID_FFA_WAIT)\<rparr>) s of
        (Result0, s0) \<Rightarrow>
          (case interrupt_loop env Result0 s0 of
             None \<Rightarrow> None
           | Some (Result, s1) \<Rightarrow>
               Some (if reg_is env (X0 Result) ARM_FID_FFA_ERROR
                     then Inr (FfaStatusToEfiStatus env (X2 Result), Message, s1)
                     else if reg_is env (X0 Result) ARM_FID_FFA_MSG_SEND_DIRECT_REQ_AARCH32 \<or>
                             reg_is env (X0 Result) ARM_FID_FFA_MSG_SEND_DIRECT_REQ_AARCH64 \<or>
                             reg_is env (X0 Result) ARM_FID_FFA_MSG_SEND_DIRECT_REQ2
                     then Inr (EFI_SUCCESS, FfaUnpackDirectMessage (fid env) Result Message, s1)
                     else ASSERT (reg_is env (X0 Result) ARM_FID_FFA_SUCCESS_AARCH32)
                            (Inr (EFI_SUCCESS, msg_of_fid (X0 Result), s1)))))"

definition FfaMessageSendDirectReq2 ::
  "'w ffa_env \<Rightarrow> UINT16 \<Rightarrow> EFI_GUID option \<Rightarrow> DIRECT_MSG_ARGS_EX \<Rightarrow> 'w ffa_state \<Rightarrow>
   (EFI_STATUS \<times> DIRECT_MSG_ARGS_EX \<times> 'w ffa_state) result option" where
  "FfaMessageSendDirectReq2 env DestPartId Guid ImpDefArgs s =
     (let s0 = fetch_partition_id env s;
          m = ImpDefArgs\<lparr> FunctionId := fid env ARM_FID_FFA_MSG_SEND_DIRECT_REQ2,
                          SourceId := mPartitionId s0, DestinationId := DestPartId,
                          ServiceGuid := (case Guid of Some g \<Rightarrow> g | None \<Rightarrow> guid_zero) \<rparr>;
          InputArgs = FfaPackDirectMessage (fid env) sxc_zero m
      in case ArmCallSxc env InputArgs s0 of
           (Result0, s1) \<Rightarrow>
             (case interrupt_loop env Result0 s1 of
                None \<Rightarrow> None
              | Some (Result, s2) \<Rightarrow>
                  Some (if reg_is env (X0 Result) ARM_FID_FFA_ERROR
                        then Inr (FfaStatusToEfiStatus env (X2 Result), m, s2)
                        else if reg_is env (X0 Result) ARM_FID_FFA_MSG_SEND_DIRECT_RESP2
                        then Inr (EFI_SUCCESS, FfaUnpackDirectMessage (fid env) Result m, s2)
                        else ASSERT (reg_is env (X0 Result) ARM_FID_FFA_SUCCESS_AARCH32)
                               (Inr (EFI_SUCCESS, msg_of_fid (X0 Result), s2)))))"

text \<open>
  The caller's request is modified in place; the result carries it beside the response.
\<close>

definition FfaMessageSendDirectResp ::
  "'w ffa_env \<Rightarrow> UINT32 \<Rightarrow> DIRECT_MSG_ARGS_EX \<Rightarrow> DIRECT_MSG_ARGS_EX \<Rightarrow> 'w ffa_state \<Rightarrow>
   (EFI_STATUS \<times> DIRECT_MSG_ARGS_EX \<times> DIRECT_MSG_ARGS_EX \<times> 'w ffa_state) result option" where
  "FfaMessageSendDirectResp env Fid Request Response s =
     (let m = Request\<lparr>FunctionId := Fid\<rparr>
      in case ArmCallSxc env (FfaPackDirectMessage (fid env) sxc_zero m) s of
           (Result0, s1) \<Rightarrow>
             (case interrupt_loop env Result0 s1 of
                None \<Rightarrow> None
              | Some (Result, s2) \<Rightarrow>
                  Some (if reg_is env (X0 Result) ARM_FID_FFA_ERROR
                        then Inr (FfaStatusToEfiStatus env (X2 Result), m, Response, s2)
                        else if reg_is env (X0 Result) ARM_FID_FFA_MSG_SEND_DIRECT_REQ_AARCH32 \<or>
                                reg_is env (X0 Result) ARM_FID_FFA_MSG_SEND_DIRECT_REQ_AARCH64 \<or>
                                reg_is env (X0 Result) ARM_FID_FFA_MSG_SEND_DIRECT_REQ2
                        then Inr (EFI_SUCCESS, m,
                                  FfaUnpackDirectMessage (fid env) Result Response, s2)
                        else ASSERT (reg_is env (X0 Result) ARM_FID_FFA_SUCCESS_AARCH32)
                               (Inr (EFI_SUCCESS, m, msg_of_fid (X0 Result), s2)))))"

definition FfaMessageSendDirectResp32 where
  "FfaMessageSendDirectResp32 env =
     FfaMessageSendDirectResp env (fid env ARM_FID_FFA_MSG_SEND_DIRECT_RESP_AARCH32)"

definition FfaMessageSendDirectResp64 where
  "FfaMessageSendDirectResp64 env =
     FfaMessageSendDirectResp env (fid env ARM_FID_FFA_MSG_SEND_DIRECT_RESP_AARCH64)"

definition FfaMessageSendDirectResp2 where
  "FfaMessageSendDirectResp2 env =
     FfaMessageSendDirectResp env (fid env ARM_FID_FFA_MSG_SEND_DIRECT_RESP2)"

section \<open>Notifications\<close>

text \<open>The common tail \<^verbatim>\<open>if (Result.Arg0 == ARM_FID_FFA_ERROR) return ...; return EFI_SUCCESS;\<close>\<close>

definition status_call ::
  "'w ffa_env \<Rightarrow> ARM_SXC_ARGS \<Rightarrow> 'w ffa_state \<Rightarrow> EFI_STATUS \<times> 'w ffa_state" where
  "status_call env Request s =
     (case ArmCallSxc env Request s of
        (Result, s') \<Rightarrow>
          (if reg_is env (X0 Result) ARM_FID_FFA_ERROR
           then FfaStatusToEfiStatus env (X2 Result) else EFI_SUCCESS, s'))"

definition FfaNotificationSet ::
  "'w ffa_env \<Rightarrow> UINT16 \<Rightarrow> UINT64 \<Rightarrow> UINT64 \<Rightarrow> 'w ffa_state \<Rightarrow> EFI_STATUS \<times> 'w ffa_state" where
  "FfaNotificationSet env DestId Flags NotificationBitmap s =
     (let s0 = fetch_partition_id env s
      in status_call env
           (sxc_zero\<lparr> X0 := ucast (fid env ARM_FID_FFA_NOTIFICATION_SET),
                      X1 := id_pair (mPartitionId s0) DestId,
                      X2 := Flags,
                      X3 := ucast (ucast NotificationBitmap :: UINT32),
                      X4 := ucast (ucast (drop_bit 32 NotificationBitmap) :: UINT32) \<rparr>) s0)"

text \<open>\<^verbatim>\<open>((UINT64)Hi << 32) | Lo\<close>\<close>

definition join64 :: "UINT64 \<Rightarrow> UINT64 \<Rightarrow> UINT64" where
  "join64 hi lo = push_bit 32 hi OR lo"

definition FfaNotificationGet ::
  "'w ffa_env \<Rightarrow> UINT16 \<Rightarrow> UINT64 \<Rightarrow> UINT64 \<Rightarrow> 'w ffa_state \<Rightarrow>
   EFI_STATUS \<times> UINT64 \<times> 'w ffa_state" where
  "FfaNotificationGet env VCpuId Flags NotificationBitmap s =
     (let s0 = fetch_partition_id env s
      in case ArmCallSxc env
                (sxc_zero\<lparr> X0 := ucast (fid env ARM_FID_FFA_NOTIFICATION_GET),
                           X1 := id_pair VCpuId (mPartitionId s0), X2 := Flags \<rparr>) s0 of
           (Result, s') \<Rightarrow>
             (if reg_is env (X0 Result) ARM_FID_FFA_ERROR
              then (FfaStatusToEfiStatus env (X2 Result), NotificationBitmap, s')
              else if Flags = ARM_FFA_NOTIFICATION_FLAG_BITMAP_SP env
              then (EFI_SUCCESS, join64 (X3 Result) (X2 Result), s')
              else if Flags = ARM_FFA_NOTIFICATION_FLAG_BITMAP_VM env
              then (EFI_SUCCESS, join64 (X5 Result) (X4 Result), s')
              else if Flags = ARM_FFA_NOTIFICATION_FLAG_BITMAP_HYP env
              then (EFI_SUCCESS, join64 (X7 Result) (X6 Result), s')
              else (EFI_UNSUPPORTED, NotificationBitmap, s')))"

definition FfaNotificationBitmapCreate ::
  "'w ffa_env \<Rightarrow> UINT16 \<Rightarrow> 'w ffa_state \<Rightarrow> EFI_STATUS \<times> 'w ffa_state" where
  "FfaNotificationBitmapCreate env VCpuCount s =
     (let s0 = fetch_partition_id env s
      in status_call env
           (sxc_zero\<lparr> X0 := ucast (fid env ARM_FID_FFA_NOTIFICATION_BITMAP_CREATE),
                      X1 := ucast (mPartitionId s0), X2 := ucast VCpuCount \<rparr>) s0)"

definition FfaNotificationBitmapDestroy ::
  "'w ffa_env \<Rightarrow> 'w ffa_state \<Rightarrow> EFI_STATUS \<times> 'w ffa_state" where
  "FfaNotificationBitmapDestroy env s =
     (let s0 = fetch_partition_id env s
      in status_call env
           (sxc_zero\<lparr> X0 := ucast (fid env ARM_FID_FFA_NOTIFICATION_BITMAP_DESTROY),
                      X1 := ucast (mPartitionId s0) \<rparr>) s0)"

definition FfaNotificationBind ::
  "'w ffa_env \<Rightarrow> UINT16 \<Rightarrow> UINT32 \<Rightarrow> UINT64 \<Rightarrow> 'w ffa_state \<Rightarrow> EFI_STATUS \<times> 'w ffa_state" where
  "FfaNotificationBind env DestId Flags NotificationBitmap s =
     (let s0 = fetch_partition_id env s
      in status_call env
           (sxc_zero\<lparr> X0 := ucast (fid env ARM_FID_FFA_NOTIFICATION_BIND),
                      X1 := id_pair DestId (mPartitionId s0),
                      X2 := ucast Flags,
                      X3 := ucast (ucast NotificationBitmap :: UINT32),
                      X4 := ucast (ucast (drop_bit 32 NotificationBitmap) :: UINT32) \<rparr>) s0)"

definition FfaNotificationUnbind ::
  "'w ffa_env \<Rightarrow> UINT16 \<Rightarrow> UINT64 \<Rightarrow> 'w ffa_state \<Rightarrow> EFI_STATUS \<times> 'w ffa_state" where
  "FfaNotificationUnbind env DestId NotificationBitmap s =
     (let s0 = fetch_partition_id env s
      in status_call env
           (sxc_zero\<lparr> X0 := ucast (fid env ARM_FID_FFA_NOTIFICATION_UNBIND),
                      X1 := id_pair DestId (mPartitionId s0),
                      X2 := 0,
                      X3 := ucast (ucast NotificationBitmap :: UINT32),
                      X4 := ucast (ucast (drop_bit 32 NotificationBitmap) :: UINT32) \<rparr>) s0)"

section \<open>Resource and partition information\<close>

text \<open>
  An \<^verbatim>\<open>OUT\<close> pointer the source compares with \<^verbatim>\<open>NULL\<close> is an option: \<open>None\<close> for NULL,
  otherwise the value it points to.
\<close>

definition FfaNsResInfoGet ::
  "'w ffa_env \<Rightarrow> UINT16 \<Rightarrow> UINT64 \<Rightarrow> UINT32 option \<Rightarrow> UINT32 option \<Rightarrow> 'w ffa_state \<Rightarrow>
   EFI_STATUS \<times> UINT32 option \<times> UINT32 option \<times> 'w ffa_state" where
  "FfaNsResInfoGet env TargetId Flags WrittenSize RemainingSize s =
     (if WrittenSize = None \<or> RemainingSize = None
      then (EFI_INVALID_PARAMETER, WrittenSize, RemainingSize, s)
      else case ArmCallSxc env
                  (sxc_zero\<lparr> X0 := ucast (fid env ARM_FID_FFA_NS_RES_INFO_GET),
                             X1 := ucast TargetId, X2 := Flags \<rparr>) s of
             (Result, s') \<Rightarrow>
               (if reg_is env (X0 Result) ARM_FID_FFA_ERROR
                then (FfaStatusToEfiStatus env (X2 Result), WrittenSize, RemainingSize, s')
                else (EFI_SUCCESS, Some (ucast (drop_bit 32 (X2 Result))),
                      Some (ucast (X2 Result)), s')))"

record EFI_FFA_PART_INFO_DESC =
  PartitionId :: UINT16
  ExecContextCountOrProxyPartitionId :: UINT16
  PartitionProps :: UINT32
  PartitionUuid :: EFI_GUID

text \<open>\<^verbatim>\<open>sizeof (EFI_FFA_PART_INFO_DESC)\<close>: three registers.\<close>

definition PART_DESC_SIZE :: nat where
  "PART_DESC_SIZE = 24"

definition desc_of_bytes :: "UINT8 list \<Rightarrow> EFI_FFA_PART_INFO_DESC" where
  "desc_of_bytes bs = \<lparr> PartitionId = word_of_bytes (take 2 bs),
     ExecContextCountOrProxyPartitionId = word_of_bytes (take 2 (drop 2 bs)),
     PartitionProps = word_of_bytes (take 4 (drop 4 bs)),
     PartitionUuid = guid_of_bytes (drop 8 bs) \<rparr>"

text \<open>The bytes of \<^verbatim>\<open>Result\<close> from \<^verbatim>\<open>&Result.Arg3\<close> to the end of the structure.\<close>

definition result_tail :: "ARM_SXC_ARGS \<Rightarrow> UINT8 list" where
  "result_tail r = concat (map (bytes_of 8)
     [X3 r, X4 r, X5 r, X6 r, X7 r, X8 r, X9 r, X10 r, X11 r, X12 r, X13 r, X14 r, X15 r,
      X16 r, X17 r])"

text \<open>
  The copy loop. Each round copies descriptor \<open>Index\<close> and then prepares the GUID of
  \<^verbatim>\<open>PartDesc->PartitionUuid\<close>, which is element 0 of the array.
\<close>

fun copy_descs ::
  "UINT8 list \<Rightarrow> nat list \<Rightarrow> EFI_FFA_PART_INFO_DESC list \<Rightarrow> EFI_FFA_PART_INFO_DESC list result" where
  "copy_descs src [] PartDesc = Inr PartDesc"
| "copy_descs src (Index # is) PartDesc =
     (if Index < length PartDesc \<and> Index * PART_DESC_SIZE + PART_DESC_SIZE \<le> length src
      then let pd = PartDesc[Index := desc_of_bytes (take PART_DESC_SIZE (drop (Index * PART_DESC_SIZE) src))];
               pd' = pd[0 := (pd ! 0)\<lparr>PartitionUuid := prepare_guid (PartitionUuid (pd ! 0))\<rparr>]
           in copy_descs src is pd'
      else Inl OutOfBounds)"

definition FfaPartitionInfoGetRegs ::
  "'w ffa_env \<Rightarrow> EFI_GUID option \<Rightarrow> UINT16 \<Rightarrow> UINT16 option \<Rightarrow> UINT32 \<Rightarrow>
   EFI_FFA_PART_INFO_DESC list option \<Rightarrow> 'w ffa_state \<Rightarrow>
   (EFI_STATUS \<times> UINT16 option \<times> UINT32 \<times> EFI_FFA_PART_INFO_DESC list option \<times> 'w ffa_state) result"
  where
  "FfaPartitionInfoGetRegs env Guid StartIndex Tag PartDescCount PartDesc s =
     (case PartDesc of
        None \<Rightarrow> Inr (EFI_INVALID_PARAMETER, Tag, PartDescCount, PartDesc, s)
      | Some descs \<Rightarrow>
         (let TagValue = (case Tag of Some t \<Rightarrow> t | None \<Rightarrow> 0);
              gb = guid_bytes (prepare_guid (case Guid of Some g \<Rightarrow> g | None \<Rightarrow> guid_zero))
          in case ArmCallSxc env
                    (sxc_zero\<lparr> X0 := ucast (fid env ARM_FID_FFA_PARTITION_INFO_GET_REGS),
                               X1 := word_of_bytes (take 8 gb),
                               X2 := word_of_bytes (drop 8 gb),
                               X3 := id_pair TagValue StartIndex \<rparr>) s of
               (Result, s') \<Rightarrow>
                 (if reg_is env (X0 Result) ARM_FID_FFA_ERROR
                  then Inr (FfaStatusToEfiStatus env (X2 Result), Tag, PartDescCount, PartDesc, s')
                  else let Metadata = X2 Result;
                           CurrentIndex = ucast (drop_bit 16 Metadata AND 0xFFFF) :: UINT16;
                           Count = ucast CurrentIndex - ucast StartIndex + 1 :: UINT32
                       in if PartDescCount < Count
                          then Inr (EFI_BUFFER_TOO_SMALL, Tag, Count, PartDesc, s')
                          else bind_result (copy_descs (result_tail Result) [0..<unat Count] descs)
                                 (\<lambda>descs'. Inr (EFI_SUCCESS,
                                    map_option (\<lambda>_. ucast (drop_bit 32 Metadata AND 0xFFFF)) Tag,
                                    Count, Some descs', s')))))"

section \<open>Memory management\<close>

text \<open>
  \<^verbatim>\<open>FfaMemDonate\<close>, \<^verbatim>\<open>FfaMemLend\<close> and \<^verbatim>\<open>FfaMemShare\<close> have the same body but for the
  two function identifiers. The result carries the handle.
\<close>

definition mem_request :: "UINT32 \<Rightarrow> UINT32 \<Rightarrow> UINT32 \<Rightarrow> UINTN \<Rightarrow> UINT32 \<Rightarrow> ARM_SXC_ARGS" where
  "mem_request f TotalLength FragmentLength BufferAddr PageCount =
     sxc_zero\<lparr> X0 := ucast f, X1 := ucast TotalLength, X2 := ucast FragmentLength,
               X3 := BufferAddr, X4 := ucast PageCount \<rparr>"

definition mem_transaction ::
  "'w ffa_env \<Rightarrow> ffa_fid \<Rightarrow> ffa_fid \<Rightarrow> UINT32 \<Rightarrow> UINT32 \<Rightarrow> UINTN \<Rightarrow> UINT32 \<Rightarrow> 'w ffa_state \<Rightarrow>
   (EFI_STATUS \<times> UINT64 \<times> 'w ffa_state) result" where
  "mem_transaction env f64 f32 TotalLength FragmentLength BufferAddr PageCount s =
     (case ArmCallSxc env
             (mem_request (if BufferAddr \<noteq> 0 then fid env f64 else fid env f32)
                TotalLength FragmentLength BufferAddr PageCount) s of
        (Result, s') \<Rightarrow>
          (if reg_is env (X0 Result) ARM_FID_FFA_ERROR
           then Inr (FfaStatusToEfiStatus env (X2 Result), 0, s')
           else ASSERT (reg_is env (X0 Result) ARM_FID_FFA_SUCCESS_AARCH32)
                  (Inr (EFI_SUCCESS, join64 (X3 Result) (X2 Result), s'))))"

definition FfaMemDonate where
  "FfaMemDonate env =
     mem_transaction env ARM_FID_FFA_MEM_DONATE_AARCH64 ARM_FID_FFA_MEM_DONATE_AARCH32"

definition FfaMemLend where
  "FfaMemLend env = mem_transaction env ARM_FID_FFA_MEM_LEND_AARCH64 ARM_FID_FFA_MEM_LEND_AARCH32"

definition FfaMemShare where
  "FfaMemShare env =
     mem_transaction env ARM_FID_FFA_MEM_SHARE_AARCH64 ARM_FID_FFA_MEM_SHARE_AARCH32"

definition FfaMemDonateRxTx where
  "FfaMemDonateRxTx env TotalLength FragmentLength =
     FfaMemDonate env TotalLength FragmentLength 0 0"

definition FfaMemLendRxTx where
  "FfaMemLendRxTx env TotalLength FragmentLength = FfaMemLend env TotalLength FragmentLength 0 0"

definition FfaMemShareRxTx where
  "FfaMemShareRxTx env TotalLength FragmentLength = FfaMemShare env TotalLength FragmentLength 0 0"

definition FfaMemRetrieveReq ::
  "'w ffa_env \<Rightarrow> UINT32 \<Rightarrow> UINT32 \<Rightarrow> UINTN \<Rightarrow> UINT32 \<Rightarrow> 'w ffa_state \<Rightarrow>
   (EFI_STATUS \<times> UINT32 \<times> UINT32 \<times> 'w ffa_state) result" where
  "FfaMemRetrieveReq env TotalLength FragmentLength BufferAddr PageCount s =
     (case ArmCallSxc env
             (mem_request (if BufferAddr \<noteq> 0 then fid env ARM_FID_FFA_MEM_RETRIEVE_REQ_AARCH64
                           else fid env ARM_FID_FFA_MEM_RETRIEVE_REQ_AARCH32)
                TotalLength FragmentLength BufferAddr PageCount) s of
        (Result, s') \<Rightarrow>
          (if reg_is env (X0 Result) ARM_FID_FFA_ERROR
           then Inr (FfaStatusToEfiStatus env (X2 Result), 0, 0, s')
           else ASSERT (reg_is env (X0 Result) ARM_FID_FFA_MEM_RETRIEVE_RESP)
                  (Inr (EFI_SUCCESS, ucast (X1 Result), ucast (X2 Result), s'))))"

definition FfaMemRetrieveReqRxTx where
  "FfaMemRetrieveReqRxTx env TotalLength FragmentLength =
     FfaMemRetrieveReq env TotalLength FragmentLength 0 0"

text \<open>The tail with an \<^verbatim>\<open>ASSERT\<close> on the success identifier.\<close>

definition checked_call ::
  "'w ffa_env \<Rightarrow> ARM_SXC_ARGS \<Rightarrow> 'w ffa_state \<Rightarrow> (EFI_STATUS \<times> ARM_SXC_ARGS \<times> 'w ffa_state) result" where
  "checked_call env Request s =
     (case ArmCallSxc env Request s of
        (Result, s') \<Rightarrow>
          (if reg_is env (X0 Result) ARM_FID_FFA_ERROR
           then Inr (FfaStatusToEfiStatus env (X2 Result), Result, s')
           else ASSERT (reg_is env (X0 Result) ARM_FID_FFA_SUCCESS_AARCH32)
                  (Inr (EFI_SUCCESS, Result, s'))))"

definition FfaMemRelinquish ::
  "'w ffa_env \<Rightarrow> 'w ffa_state \<Rightarrow> (EFI_STATUS \<times> 'w ffa_state) result" where
  "FfaMemRelinquish env s =
     bind_result (checked_call env
        (sxc_zero\<lparr>X0 := ucast (fid env ARM_FID_FFA_MEM_RETRIEVE_RELINQUISH)\<rparr>) s)
       (\<lambda>(st, _, s'). Inr (st, s'))"

definition FfaMemReclaim ::
  "'w ffa_env \<Rightarrow> UINT64 \<Rightarrow> UINT32 \<Rightarrow> 'w ffa_state \<Rightarrow> (EFI_STATUS \<times> 'w ffa_state) result" where
  "FfaMemReclaim env Handle Flags s =
     (let HandleHi = ucast (drop_bit 32 Handle AND 0xFFFFFFFF) :: UINT32;
          HandleLo = ucast (Handle AND 0xFFFFFFFF) :: UINT32
      in bind_result (checked_call env
           (sxc_zero\<lparr> X0 := ucast (fid env ARM_FID_FFA_MEM_RETRIEVE_RECLAIM),
                      X1 := ucast HandleLo, X2 := ucast HandleHi, X3 := ucast Flags \<rparr>) s)
         (\<lambda>(st, _, s'). Inr (st, s')))"

definition FfaMemPermGet ::
  "'w ffa_env \<Rightarrow> UINTN \<Rightarrow> UINT32 \<Rightarrow> 'w ffa_state \<Rightarrow>
   (EFI_STATUS \<times> UINT32 \<times> 'w ffa_state) result" where
  "FfaMemPermGet env BaseAddr MemoryPerm s =
     bind_result (checked_call env
        (sxc_zero\<lparr> X0 := ucast (fid env ARM_FID_FFA_MEM_PERM_GET_AARCH32), X1 := BaseAddr \<rparr>) s)
       (\<lambda>(st, Result, s').
          Inr (st, if reg_is env (X0 Result) ARM_FID_FFA_ERROR then MemoryPerm
                   else ucast (X2 Result), s'))"

definition FfaMemPermSet ::
  "'w ffa_env \<Rightarrow> UINTN \<Rightarrow> UINT32 \<Rightarrow> UINT32 \<Rightarrow> 'w ffa_state \<Rightarrow>
   (EFI_STATUS \<times> 'w ffa_state) result" where
  "FfaMemPermSet env BaseAddr PageCount MemoryPerm s =
     ASSERT (MemoryPerm AND ARM_FFA_MEM_PERM_RESERVED_MASK env = 0)
       (bind_result (checked_call env
          (sxc_zero\<lparr> X0 := ucast (fid env ARM_FID_FFA_MEM_PERM_SET_AARCH32), X1 := BaseAddr,
                     X2 := ucast PageCount, X3 := ucast MemoryPerm \<rparr>) s)
         (\<lambda>(st, _, s'). Inr (st, s')))"

section \<open>Console\<close>

text \<open>
  \<^verbatim>\<open>CopyMem\<close> of at most \<open>4 * 6\<close> (or \<open>8 * 16\<close>) bytes into a zeroed word array; the
  message is the bytes the pointer points to, \<open>Length\<close> the caller's count.
\<close>

definition pad_bytes :: "nat \<Rightarrow> UINT8 list \<Rightarrow> UINT8 list" where
  "pad_bytes n bs = bs @ replicate (n - length bs) 0"

definition char_word :: "nat \<Rightarrow> UINT8 list \<Rightarrow> nat \<Rightarrow> UINTN" where
  "char_word w bs i = word_of_bytes (take w (drop (w * i) bs))"

definition FfaConsoleLog32 ::
  "'w ffa_env \<Rightarrow> UINT8 list \<Rightarrow> UINTN \<Rightarrow> 'w ffa_state \<Rightarrow> (EFI_STATUS \<times> 'w ffa_state) result" where
  "FfaConsoleLog32 env Message Length s =
     ASSERT (Length > 0 \<and> Length \<le> 24)
       (if length Message < unat Length then Inl OutOfBounds
        else let CharLists = pad_bytes 24 (take (unat Length) Message)
             in bind_result (checked_call env
                  (sxc_zero\<lparr> X0 := ucast (fid env ARM_FID_FFA_CONSOLE_LOG_AARCH32), X1 := Length,
                     X2 := char_word 4 CharLists 0, X3 := char_word 4 CharLists 1,
                     X4 := char_word 4 CharLists 2, X5 := char_word 4 CharLists 3,
                     X6 := char_word 4 CharLists 4, X7 := char_word 4 CharLists 5 \<rparr>) s)
                (\<lambda>(st, _, s'). Inr (st, s')))"

definition FfaConsoleLog64 ::
  "'w ffa_env \<Rightarrow> UINT8 list \<Rightarrow> UINTN \<Rightarrow> 'w ffa_state \<Rightarrow> (EFI_STATUS \<times> 'w ffa_state) result" where
  "FfaConsoleLog64 env Message Length s =
     ASSERT (Length > 0 \<and> Length \<le> 128)
       (if length Message < unat Length then Inl OutOfBounds
        else let CharLists = pad_bytes 128 (take (unat Length) Message)
             in bind_result (checked_call env
                  (sxc_zero\<lparr> X0 := ucast (fid env ARM_FID_FFA_CONSOLE_LOG_AARCH64), X1 := Length,
                     X2 := char_word 8 CharLists 0, X3 := char_word 8 CharLists 1,
                     X4 := char_word 8 CharLists 2, X5 := char_word 8 CharLists 3,
                     X6 := char_word 8 CharLists 4, X7 := char_word 8 CharLists 5,
                     X8 := char_word 8 CharLists 6, X9 := char_word 8 CharLists 7,
                     X10 := char_word 8 CharLists 8, X11 := char_word 8 CharLists 9,
                     X12 := char_word 8 CharLists 10, X13 := char_word 8 CharLists 11,
                     X14 := char_word 8 CharLists 12, X15 := char_word 8 CharLists 13,
                     X16 := char_word 8 CharLists 14, X17 := char_word 8 CharLists 15 \<rparr>) s)
                (\<lambda>(st, _, s'). Inr (st, s')))"

end
