(* ===== verification/FfaProperties.thy ===== *)
theory FfaProperties
  imports FfaCalls
begin

text \<open>
  What the FF-A calls promise: messages survive packing and unpacking, the blocking calls
  serve every interrupt the SPMC signals and then return, handles and bitmaps split over
  two registers are reassembled, and what \<^verbatim>\<open>FfaPartitionInfoGetRegs\<close> leaves in the
  caller's array. A concrete environment at the end of the definitions serves the
  witnesses.
\<close>

section \<open>A concrete environment\<close>

text \<open>Function identifiers of the FF-A specification, as far as the examples need them.\<close>

fun ex_fid :: fid_values where
  "ex_fid ARM_FID_FFA_ERROR = 0x84000060"
| "ex_fid ARM_FID_FFA_SUCCESS_AARCH32 = 0x84000061"
| "ex_fid ARM_FID_FFA_INTERRUPT = 0x84000062"
| "ex_fid ARM_FID_FFA_WAIT = 0x8400006B"
| "ex_fid ARM_FID_FFA_MSG_SEND_DIRECT_REQ_AARCH32 = 0x8400006F"
| "ex_fid ARM_FID_FFA_MSG_SEND_DIRECT_REQ_AARCH64 = 0xC400006F"
| "ex_fid ARM_FID_FFA_MSG_SEND_DIRECT_REQ2 = 0xC400008D"
| "ex_fid ARM_FID_FFA_MSG_SEND_DIRECT_RESP_AARCH32 = 0x84000070"
| "ex_fid ARM_FID_FFA_MSG_SEND_DIRECT_RESP_AARCH64 = 0xC4000070"
| "ex_fid ARM_FID_FFA_MSG_SEND_DIRECT_RESP2 = 0xC400008E"
| "ex_fid ARM_FID_FFA_NOTIFICATION_SET = 0x84000081"
| "ex_fid ARM_FID_FFA_MEM_SHARE_AARCH32 = 0x84000073"
| "ex_fid ARM_FID_FFA_MEM_SHARE_AARCH64 = 0xC4000073"
| "ex_fid ARM_FID_FFA_MEM_RETRIEVE_RECLAIM = 0x84000077"
| "ex_fid ARM_FID_FFA_MEM_PERM_GET_AARCH32 = 0x84000088"
| "ex_fid ARM_FID_FFA_MEM_PERM_SET_AARCH32 = 0x84000089"
| "ex_fid ARM_FID_FFA_PARTITION_INFO_GET_REGS = 0xC400008B"
| "ex_fid _ = 0x84000000"

text \<open>
  The world of the example is the list of results the SPMC will return and the list of
  requests it has seen; an exhausted script answers \<^verbatim>\<open>FFA_SUCCESS\<close>.
\<close>

type_synonym script = "ARM_SXC_ARGS list \<times> ARM_SXC_ARGS list"

definition ex_call :: "ARM_SXC_ARGS \<Rightarrow> script \<Rightarrow> ARM_SXC_ARGS \<times> script" where
  "ex_call r w = (case w of
     ([], seen) \<Rightarrow> (sxc_zero\<lparr>X0 := 0x84000061\<rparr>, [], r # seen)
   | (a # as, seen) \<Rightarrow> (a, as, r # seen))"

definition ex_env :: "script ffa_env" where
  "ex_env = \<lparr> fid = ex_fid, PcdFfaLibConduitSmc = True, ArmCallSmc = ex_call, ArmCallSvc = ex_call,
     FfaStatusToEfiStatus = (\<lambda>_. EFI_UNSUPPORTED),
     ArmFfaLibPartitionIdGet = (\<lambda>w. (Some 0x8002, w)),
     InterruptHandler = SecurePartitionInterruptHandler,
     ARM_FFA_NOTIFICATION_FLAG_BITMAP_SP = 1, ARM_FFA_NOTIFICATION_FLAG_BITMAP_VM = 2,
     ARM_FFA_NOTIFICATION_FLAG_BITMAP_HYP = 4, ARM_FFA_MEM_PERM_RESERVED_MASK = 0xFFFFFFF8 \<rparr>"

definition ex_ffa :: "ARM_SXC_ARGS list \<Rightarrow> script ffa_state" where
  "ex_ffa answers = \<lparr> mPartitionId = INVALID_SOURCE_ID, world = (answers, []) \<rparr>"

section \<open>Messages\<close>

definition is_v1 :: "fid_values \<Rightarrow> UINT32 \<Rightarrow> bool" where
  "is_v1 f i \<longleftrightarrow> i \<in> {f ARM_FID_FFA_MSG_SEND_DIRECT_REQ_AARCH32, f ARM_FID_FFA_MSG_SEND_DIRECT_REQ_AARCH64,
     f ARM_FID_FFA_MSG_SEND_DIRECT_RESP_AARCH32, f ARM_FID_FFA_MSG_SEND_DIRECT_RESP_AARCH64}"

text \<open>
  A message of the version 2 layout is recovered exactly from the registers it is
  packed into, GUID byte order included, whatever the receiving buffer held before.
\<close>

lemma pack_unpack_v2:
  assumes "\<not> is_v1 f (FunctionId m)" and "wf_guid (ServiceGuid m)"
  shows "FfaUnpackDirectMessage f (FfaPackDirectMessage f r m) m0 = m"
  using assms
  by (simp add: FfaUnpackDirectMessage_def FfaPackDirectMessage_def Let_def is_v1_def guid_words)

definition ex_guid :: EFI_GUID where
  "ex_guid = \<lparr> Data1 = 0x17B862A4, Data2 = 0x1806, Data3 = 0x4FAF,
     Data4 = [0x86, 0xB3, 0x08, 0x9A, 0x58, 0x35, 0x38, 0x61] \<rparr>"

definition ex_msg :: DIRECT_MSG_ARGS_EX where
  "ex_msg = msg_zero\<lparr>FunctionId := 0xC400008D, SourceId := 1, DestinationId := 0x8002,
     ServiceGuid := ex_guid, Arg0 := 5, Arg13 := 6\<rparr>"

lemma pack_unpack_v2_example:
  "FfaUnpackDirectMessage ex_fid (FfaPackDirectMessage ex_fid sxc_zero ex_msg) msg_zero = ex_msg"
proof (rule pack_unpack_v2)
  show "\<not> is_v1 ex_fid (FunctionId ex_msg)" by (simp add: is_v1_def ex_msg_def)
  show "wf_guid (ServiceGuid ex_msg)" by code_simp
qed

text \<open>
  A version 1 request carries its endpoints and six arguments; the receiver's GUID and
  its remaining arguments are left as they were.
\<close>

theorem pack_unpack_v1:
  assumes "FunctionId m = f ARM_FID_FFA_MSG_SEND_DIRECT_REQ_AARCH32 \<or>
           FunctionId m = f ARM_FID_FFA_MSG_SEND_DIRECT_REQ_AARCH64"
  shows "FfaUnpackDirectMessage f (FfaPackDirectMessage f r m) m0 =
     m0\<lparr>FunctionId := FunctionId m, SourceId := SourceId m, DestinationId := DestinationId m,
        Arg0 := Arg0 m, Arg1 := Arg1 m, Arg2 := Arg2 m, Arg3 := Arg3 m, Arg4 := Arg4 m, Arg5 := Arg5 m\<rparr>"
  using assms by (auto simp: FfaUnpackDirectMessage_def FfaPackDirectMessage_def Let_def)

theorem pack_unpack_v1_witness:
  "FfaUnpackDirectMessage ex_fid
     (FfaPackDirectMessage ex_fid sxc_zero (ex_msg\<lparr>FunctionId := 0x8400006F\<rparr>)) msg_zero =
   msg_zero\<lparr>FunctionId := FunctionId (ex_msg\<lparr>FunctionId := 0x8400006F\<rparr>),
     SourceId := SourceId (ex_msg\<lparr>FunctionId := 0x8400006F\<rparr>),
     DestinationId := DestinationId (ex_msg\<lparr>FunctionId := 0x8400006F\<rparr>),
     Arg0 := Arg0 (ex_msg\<lparr>FunctionId := 0x8400006F\<rparr>), Arg1 := Arg1 (ex_msg\<lparr>FunctionId := 0x8400006F\<rparr>),
     Arg2 := Arg2 (ex_msg\<lparr>FunctionId := 0x8400006F\<rparr>), Arg3 := Arg3 (ex_msg\<lparr>FunctionId := 0x8400006F\<rparr>),
     Arg4 := Arg4 (ex_msg\<lparr>FunctionId := 0x8400006F\<rparr>), Arg5 := Arg5 (ex_msg\<lparr>FunctionId := 0x8400006F\<rparr>)\<rparr>"
  by (rule pack_unpack_v1) simp

section \<open>Blocking calls\<close>

text \<open>One interrupt: the handler runs, and the end of interrupt is signalled to the SPMC.\<close>

definition interrupt_round ::
  "'w ffa_env \<Rightarrow> ARM_SXC_ARGS \<times> 'w ffa_state \<Rightarrow> ARM_SXC_ARGS \<times> 'w ffa_state" where
  "interrupt_round env x = FfaReturnFromInterrupt env
     ((snd x)\<lparr>world := InterruptHandler env (ucast (X2 (fst x))) (world (snd x))\<rparr>)"

definition interrupted :: "'w ffa_env \<Rightarrow> ARM_SXC_ARGS \<times> 'w ffa_state \<Rightarrow> bool" where
  "interrupted env x \<longleftrightarrow> reg_is env (X0 (fst x)) ARM_FID_FFA_INTERRUPT"

lemma interrupt_loop_unfold:
  "interrupt_loop env R s =
     (if interrupted env (R, s)
      then interrupt_loop env (fst (interrupt_round env (R, s))) (snd (interrupt_round env (R, s)))
      else Some (R, s))"
  by (subst interrupt_loop.simps) (simp add: interrupted_def interrupt_round_def split: prod.split)

lemma interrupt_loop_rounds:
  assumes "\<And>j. j < k \<Longrightarrow> interrupted env ((interrupt_round env ^^ j) (R, s))"
    and "\<not> interrupted env ((interrupt_round env ^^ k) (R, s))"
  shows "interrupt_loop env R s = Some ((interrupt_round env ^^ k) (R, s))"
  using assms
proof (induction k arbitrary: R s)
  case 0
  then show ?case by (subst interrupt_loop_unfold) simp
next
  case (Suc k)
  let ?x = "interrupt_round env (R, s)"
  have here: "interrupted env (R, s)" using Suc.prems(1)[of 0] by simp
  have "interrupt_loop env (fst ?x) (snd ?x) = Some ((interrupt_round env ^^ k) (fst ?x, snd ?x))"
  proof (rule Suc.IH)
    show "interrupted env ((interrupt_round env ^^ j) (fst ?x, snd ?x))" if "j < k" for j
      using Suc.prems(1)[of "Suc j"] that by (simp add: funpow_Suc_right del: funpow.simps)
    show "\<not> interrupted env ((interrupt_round env ^^ k) (fst ?x, snd ?x))"
      using Suc.prems(2) by (simp add: funpow_Suc_right del: funpow.simps)
  qed
  then show ?case
    using here by (subst interrupt_loop_unfold) (simp only: funpow_Suc_right o_def prod.collapse if_True)
qed

lemma interrupt_loop_SomeD:
  assumes "interrupt_loop env R s = Some x"
  shows "\<exists>k. x = (interrupt_round env ^^ k) (R, s) \<and> \<not> interrupted env x \<and>
             (\<forall>j<k. interrupted env ((interrupt_round env ^^ j) (R, s)))"
    (is "?P env R s x")
proof (rule interrupt_loop.raw_induct[of ?P, OF _ assms])
  fix loop :: "'a ffa_env \<Rightarrow> ARM_SXC_ARGS \<Rightarrow> 'a ffa_state \<Rightarrow> (ARM_SXC_ARGS \<times> 'a ffa_state) option"
    and env :: "'a ffa_env" and R s x
  assume IH: "\<And>env R s x. loop env R s = Some x \<Longrightarrow> ?P env R s x"
    and run: "(if reg_is env (X0 R) ARM_FID_FFA_INTERRUPT
       then (case FfaReturnFromInterrupt env
               (s\<lparr>world := InterruptHandler env (ucast (X2 R)) (world s)\<rparr>) of
             (R', s') \<Rightarrow> loop env R' s') else Some (R, s)) = Some x"
  show "?P env R s x"
  proof (cases "interrupted env (R, s)")
    case False
    with run have "x = (interrupt_round env ^^ 0) (R, s) \<and> \<not> interrupted env x"
      by (auto simp: interrupted_def split: if_splits)
    then show ?thesis by (intro exI[of _ 0]) auto
  next
    case True
    obtain R' s' where r: "interrupt_round env (R, s) = (R', s')" by fastforce
    with run True have "loop env R' s' = Some x"
      by (simp add: interrupted_def interrupt_round_def)
    from IH[OF this] obtain k where k: "x = (interrupt_round env ^^ k) (R', s')"
      "\<not> interrupted env x" "\<And>j. j < k \<Longrightarrow> interrupted env ((interrupt_round env ^^ j) (R', s'))"
      by blast
    have "interrupted env ((interrupt_round env ^^ j) (R, s))" if "j < Suc k" for j
      using that True k(3) r by (cases j) (simp_all add: funpow_Suc_right del: funpow.simps)
    moreover have "x = (interrupt_round env ^^ Suc k) (R, s)"
      using k(1) r by (simp add: funpow_Suc_right del: funpow.simps)
    ultimately show ?thesis using k(2) by blast
  qed
qed

text \<open>The first result the partition sees after it announces that it is waiting.\<close>

definition wait_start :: "'w ffa_env \<Rightarrow> 'w ffa_state \<Rightarrow> ARM_SXC_ARGS \<times> 'w ffa_state" where
  "wait_start env s = ArmCallSxc env (sxc_zero\<lparr>X0 := ucast (fid env ARM_FID_FFA_WAIT)\<rparr>) s"

text \<open>
  C33. When the SPMC signals any finite number of interrupts and then delivers a version 2
  request, \<^verbatim>\<open>FfaMessageWait\<close> returns success with exactly the message that was sent.
\<close>

theorem FfaMessageWait_delivers:
  assumes "\<forall>j<k. interrupted env ((interrupt_round env ^^ j) (wait_start env s))"
    and "(interrupt_round env ^^ k) (wait_start env s) = (FfaPackDirectMessage (fid env) r m, s')"
    and "FunctionId m = fid env ARM_FID_FFA_MSG_SEND_DIRECT_REQ2"
    and "\<not> is_v1 (fid env) (FunctionId m)" and "wf_guid (ServiceGuid m)"
    and "FunctionId m \<noteq> fid env ARM_FID_FFA_INTERRUPT" and "FunctionId m \<noteq> fid env ARM_FID_FFA_ERROR"
  shows "FfaMessageWait env buf s = Some (Inr (EFI_SUCCESS, m, s'))"
proof -
  obtain R0 s0 where w: "wait_start env s = (R0, s0)" by fastforce
  have x0: "X0 (FfaPackDirectMessage (fid env) r m) = ucast (FunctionId m)"
    by (simp add: FfaPackDirectMessage_def Let_def)
  have "interrupt_loop env R0 s0 = Some (FfaPackDirectMessage (fid env) r m, s')"
    using interrupt_loop_rounds[of k env R0 s0] assms(1,2,6)
    by (simp add: w interrupted_def reg_is_def x0)
  moreover have "FfaUnpackDirectMessage (fid env) (FfaPackDirectMessage (fid env) r m) buf = m"
    using assms(4,5) by (rule pack_unpack_v2)
  ultimately show ?thesis
    using w assms(3,7) by (simp add: FfaMessageWait_def wait_start_def reg_is_def x0)
qed

text \<open>Two interrupts, then the example message.\<close>

definition ex_wait :: "script ffa_state" where
  "ex_wait = ex_ffa [sxc_zero\<lparr>X0 := 0x84000062, X2 := 27\<rparr>, sxc_zero\<lparr>X0 := 0x84000062, X2 := 30\<rparr>,
     FfaPackDirectMessage ex_fid sxc_zero ex_msg]"

definition ex_wait_end :: "script ffa_state" where
  "ex_wait_end = snd ((interrupt_round ex_env ^^ 2) (wait_start ex_env ex_wait))"

theorem FfaMessageWait_delivers_witness:
  "FfaMessageWait ex_env msg_zero ex_wait = Some (Inr (EFI_SUCCESS, ex_msg, ex_wait_end))"
proof (rule FfaMessageWait_delivers[where k = 2 and r = sxc_zero])
  have fid: "fid ex_env = ex_fid" by (simp add: ex_env_def)
  show "\<forall>j<2. interrupted ex_env ((interrupt_round ex_env ^^ j) (wait_start ex_env ex_wait))"
    by code_simp
  show "(interrupt_round ex_env ^^ 2) (wait_start ex_env ex_wait) =
      (FfaPackDirectMessage (fid ex_env) sxc_zero ex_msg, ex_wait_end)" by code_simp
  show "FunctionId ex_msg = fid ex_env ARM_FID_FFA_MSG_SEND_DIRECT_REQ2"
    "FunctionId ex_msg \<noteq> fid ex_env ARM_FID_FFA_INTERRUPT"
    "FunctionId ex_msg \<noteq> fid ex_env ARM_FID_FFA_ERROR"
    by (simp_all add: fid ex_msg_def)
  show "\<not> is_v1 (fid ex_env) (FunctionId ex_msg)" by (simp add: fid is_v1_def ex_msg_def)
  show "wf_guid (ServiceGuid ex_msg)" by code_simp
qed

text \<open>The message \<^verbatim>\<open>FfaMessageSendDirectReq2\<close> sends, and the first result it sees.\<close>

definition req2_message ::
  "'w ffa_env \<Rightarrow> UINT16 \<Rightarrow> EFI_GUID option \<Rightarrow> DIRECT_MSG_ARGS_EX \<Rightarrow> 'w ffa_state \<Rightarrow> DIRECT_MSG_ARGS_EX" where
  "req2_message env dest g a s =
     a\<lparr> FunctionId := fid env ARM_FID_FFA_MSG_SEND_DIRECT_REQ2, SourceId := mPartitionId (fetch_partition_id env s),
        DestinationId := dest, ServiceGuid := (case g of Some x \<Rightarrow> x | None \<Rightarrow> guid_zero) \<rparr>"

definition req2_start ::
  "'w ffa_env \<Rightarrow> UINT16 \<Rightarrow> EFI_GUID option \<Rightarrow> DIRECT_MSG_ARGS_EX \<Rightarrow> 'w ffa_state \<Rightarrow> ARM_SXC_ARGS \<times> 'w ffa_state" where
  "req2_start env dest g a s = ArmCallSxc env (FfaPackDirectMessage (fid env) sxc_zero (req2_message env dest g a s))
     (fetch_partition_id env s)"

definition v2_fids :: "fid_values \<Rightarrow> bool" where
  "v2_fids f \<longleftrightarrow> \<not> is_v1 f (f ARM_FID_FFA_MSG_SEND_DIRECT_REQ2) \<and> \<not> is_v1 f (f ARM_FID_FFA_MSG_SEND_DIRECT_RESP2) \<and>
     f ARM_FID_FFA_MSG_SEND_DIRECT_RESP2 \<notin> {f ARM_FID_FFA_INTERRUPT, f ARM_FID_FFA_ERROR}"

text \<open>
  C34. A direct request makes the round trip through the registers. Whoever unpacks the registers
  \<^verbatim>\<open>FfaMessageSendDirectReq2\<close> fills gets exactly the caller's arguments and GUID with both endpoints,
  whatever its buffer held; and when the receiver packs a response of its own and the SPMC delivers
  it after any finite number of interrupts, the caller gets exactly that response.
\<close>

theorem direct_request_round_trip:
  assumes f: "v2_fids (fid env)" and g: "case g of None \<Rightarrow> True | Some x \<Rightarrow> wf_guid x"
    and int: "\<forall>j<k. interrupted env ((interrupt_round env ^^ j) (req2_start env dest g a s))"
    and resp: "(interrupt_round env ^^ k) (req2_start env dest g a s) = (FfaPackDirectMessage (fid env) r m, s')"
    and m: "FunctionId m = fid env ARM_FID_FFA_MSG_SEND_DIRECT_RESP2" "wf_guid (ServiceGuid m)"
  shows "FfaUnpackDirectMessage (fid env) (FfaPackDirectMessage (fid env) sxc_zero (req2_message env dest g a s)) buf =
       req2_message env dest g a s \<and>
     FfaMessageSendDirectReq2 env dest g a s = Some (Inr (EFI_SUCCESS, m, s'))"
proof
  have "wf_guid (ServiceGuid (req2_message env dest g a s))"
    using g by (auto simp: req2_message_def wf_guid_def guid_zero_def split: option.splits)
  moreover have "\<not> is_v1 (fid env) (FunctionId (req2_message env dest g a s))"
    using f by (simp add: v2_fids_def req2_message_def)
  ultimately show "FfaUnpackDirectMessage (fid env)
      (FfaPackDirectMessage (fid env) sxc_zero (req2_message env dest g a s)) buf = req2_message env dest g a s"
    by (intro pack_unpack_v2)
  obtain R0 s0 where w: "req2_start env dest g a s = (R0, s0)" by fastforce
  have x0: "X0 (FfaPackDirectMessage (fid env) r m) = ucast (FunctionId m)"
    by (simp add: FfaPackDirectMessage_def Let_def)
  have loop: "interrupt_loop env R0 s0 = Some (FfaPackDirectMessage (fid env) r m, s')"
    using interrupt_loop_rounds[of k env R0 s0] int resp f m(1)
    by (simp add: w interrupted_def reg_is_def x0 v2_fids_def)
  have "FfaUnpackDirectMessage (fid env) (FfaPackDirectMessage (fid env) r m) b = m" for b
    using f m by (intro pack_unpack_v2) (simp_all add: v2_fids_def)
  with loop f m(1) show "FfaMessageSendDirectReq2 env dest g a s = Some (Inr (EFI_SUCCESS, m, s'))"
    unfolding FfaMessageSendDirectReq2_def Let_def w[unfolded req2_start_def req2_message_def]
    by (simp add: reg_is_def x0 v2_fids_def)
qed

text \<open>One interrupt, then a response.\<close>

definition ex_resp :: DIRECT_MSG_ARGS_EX where
  "ex_resp = msg_zero\<lparr>FunctionId := 0xC400008E, SourceId := 0x8003, DestinationId := 0x8002, Arg0 := 7, Arg13 := 8\<rparr>"

definition ex_req_state :: "script ffa_state" where
  "ex_req_state = ex_ffa [sxc_zero\<lparr>X0 := 0x84000062, X2 := 27\<rparr>, FfaPackDirectMessage ex_fid sxc_zero ex_resp]"

definition ex_req_end :: "script ffa_state" where
  "ex_req_end = snd ((interrupt_round ex_env ^^ 1) (req2_start ex_env 0x8003 (Some ex_guid) ex_msg ex_req_state))"

theorem direct_request_round_trip_witness:
  "FfaUnpackDirectMessage (fid ex_env)
       (FfaPackDirectMessage (fid ex_env) sxc_zero (req2_message ex_env 0x8003 (Some ex_guid) ex_msg ex_req_state)) msg_zero =
       req2_message ex_env 0x8003 (Some ex_guid) ex_msg ex_req_state \<and>
     FfaMessageSendDirectReq2 ex_env 0x8003 (Some ex_guid) ex_msg ex_req_state =
       Some (Inr (EFI_SUCCESS, ex_resp, ex_req_end))"
proof (rule direct_request_round_trip[where k = 1 and r = sxc_zero])
  show "v2_fids (fid ex_env)" by (simp add: v2_fids_def is_v1_def ex_env_def)
  show "case Some ex_guid of None \<Rightarrow> True | Some x \<Rightarrow> wf_guid x" by code_simp
  show "\<forall>j<1. interrupted ex_env ((interrupt_round ex_env ^^ j) (req2_start ex_env 0x8003 (Some ex_guid) ex_msg ex_req_state))"
    by code_simp
  show "(interrupt_round ex_env ^^ 1) (req2_start ex_env 0x8003 (Some ex_guid) ex_msg ex_req_state) =
      (FfaPackDirectMessage (fid ex_env) sxc_zero ex_resp, ex_req_end)" by code_simp
  show "FunctionId ex_resp = fid ex_env ARM_FID_FFA_MSG_SEND_DIRECT_RESP2" by (simp add: ex_resp_def ex_env_def)
  show "wf_guid (ServiceGuid ex_resp)" by code_simp
qed

section \<open>Interrupts are served\<close>

text \<open>
  The same environment with a log of what happens at its boundary: each call of the conduit with
  its request and its result, and each call of the platform's interrupt handler.
\<close>

datatype ffa_event =
    Conduit ARM_SXC_ARGS ARM_SXC_ARGS
  | Handled UINT32

type_synonym 'w logged = "'w \<times> ffa_event list"

definition log_call :: "(ARM_SXC_ARGS \<Rightarrow> 'w \<Rightarrow> ARM_SXC_ARGS \<times> 'w) \<Rightarrow> ARM_SXC_ARGS \<Rightarrow> 'w logged \<Rightarrow> ARM_SXC_ARGS \<times> 'w logged" where
  "log_call call req w = (case call req (fst w) of (a, w') \<Rightarrow> (a, w', snd w @ [Conduit req a]))"

definition logged :: "'w ffa_env \<Rightarrow> 'w logged ffa_env" where
  "logged env = \<lparr> fid = fid env, PcdFfaLibConduitSmc = PcdFfaLibConduitSmc env,
     ArmCallSmc = log_call (ArmCallSmc env), ArmCallSvc = log_call (ArmCallSvc env),
     FfaStatusToEfiStatus = FfaStatusToEfiStatus env,
     ArmFfaLibPartitionIdGet = (\<lambda>w. case ArmFfaLibPartitionIdGet env (fst w) of (i, w') \<Rightarrow> (i, w', snd w)),
     InterruptHandler = (\<lambda>n w. (InterruptHandler env n (fst w), snd w @ [Handled n])),
     ARM_FFA_NOTIFICATION_FLAG_BITMAP_SP = ARM_FFA_NOTIFICATION_FLAG_BITMAP_SP env,
     ARM_FFA_NOTIFICATION_FLAG_BITMAP_VM = ARM_FFA_NOTIFICATION_FLAG_BITMAP_VM env,
     ARM_FFA_NOTIFICATION_FLAG_BITMAP_HYP = ARM_FFA_NOTIFICATION_FLAG_BITMAP_HYP env,
     ARM_FFA_MEM_PERM_RESERVED_MASK = ARM_FFA_MEM_PERM_RESERVED_MASK env \<rparr>"

abbreviation log_of :: "'w logged ffa_state \<Rightarrow> ffa_event list" where
  "log_of s \<equiv> snd (world s)"

text \<open>\<^verbatim>\<open>FFA_MSG_WAIT\<close> with all other registers zero announces that the partition waits, and ends an interrupt.\<close>

definition wait_request :: "'w ffa_env \<Rightarrow> ARM_SXC_ARGS" where
  "wait_request env = sxc_zero\<lparr>X0 := ucast (fid env ARM_FID_FFA_WAIT)\<rparr>"

text \<open>
  A log in which every interrupt has been served: a request is answered by something else than an
  interrupt, and then the log ends, or by an interrupt, and then the handler is called with the
  interrupt's number and \<^verbatim>\<open>FFA_MSG_WAIT\<close> is the next request.
\<close>

fun served :: "'w ffa_env \<Rightarrow> ARM_SXC_ARGS \<Rightarrow> ffa_event list \<Rightarrow> bool" where
  "served env req [Conduit r a] \<longleftrightarrow> r = req \<and> \<not> reg_is env (X0 a) ARM_FID_FFA_INTERRUPT"
| "served env req (Conduit r a # Handled n # ev) \<longleftrightarrow>
     r = req \<and> reg_is env (X0 a) ARM_FID_FFA_INTERRUPT \<and> n = ucast (X2 a) \<and> served env (wait_request env) ev"
| "served env req _ \<longleftrightarrow> False"

lemma served_last: "\<not> interrupted env (a, s) \<Longrightarrow> served env req [Conduit req a]"
  by (simp add: interrupted_def)

lemma logged_sel [simp]:
  "fid (logged env) = fid env" "reg_is (logged env) = reg_is env"
  by (simp_all add: logged_def reg_is_def fun_eq_iff)

lemma logged_call:
  assumes "ArmCallSxc (logged env) req s = (a, s')"
  shows "log_of s' = log_of s @ [Conduit req a]"
  using assms by (auto simp: ArmCallSxc_def logged_def log_call_def Let_def split: prod.splits if_splits)

lemma logged_fetch [simp]: "log_of (fetch_partition_id (logged env) s) = log_of s"
  by (auto simp: fetch_partition_id_def logged_def split: prod.split option.split)

lemma logged_round:
  assumes "interrupt_round (logged env) (a, s) = (a', s')"
  shows "log_of s' = log_of s @ [Handled (ucast (X2 a)), Conduit (wait_request env) a']"
proof -
  let ?s = "s\<lparr>world := InterruptHandler (logged env) (ucast (X2 a)) (world s)\<rparr>"
  have "ArmCallSxc (logged env) (wait_request env) ?s = (a', s')"
    using assms by (simp add: interrupt_round_def FfaReturnFromInterrupt_def wait_request_def)
  from logged_call[OF this] show ?thesis by (simp add: logged_def)
qed

lemma rounds_served:
  assumes "log_of s = l @ [Conduit req a]"
    and "\<forall>j<k. interrupted (logged env) ((interrupt_round (logged env) ^^ j) (a, s))"
    and "\<not> interrupted (logged env) ((interrupt_round (logged env) ^^ k) (a, s))"
  shows "\<exists>ev. log_of (snd ((interrupt_round (logged env) ^^ k) (a, s))) = l @ ev \<and> served env req ev"
  using assms
proof (induction k arbitrary: a s l req)
  case 0
  then show ?case by (auto simp: interrupted_def intro!: exI[of _ "[Conduit req a]"])
next
  case (Suc k)
  obtain a' s' where r: "interrupt_round (logged env) (a, s) = (a', s')" by fastforce
  note pow = funpow_Suc_right[of _ "interrupt_round (logged env)", THEN fun_cong, of _ "(a, s)", unfolded o_apply r]
  have "log_of s' = (l @ [Conduit req a, Handled (ucast (X2 a))]) @ [Conduit (wait_request env) a']"
    using logged_round[OF r] Suc.prems(1) by simp
  moreover have "\<forall>j<k. interrupted (logged env) ((interrupt_round (logged env) ^^ j) (a', s'))"
    using Suc.prems(2) pow by (metis Suc_less_eq)
  moreover have "\<not> interrupted (logged env) ((interrupt_round (logged env) ^^ k) (a', s'))"
    using Suc.prems(3) pow by metis
  ultimately obtain ev where "log_of (snd ((interrupt_round (logged env) ^^ k) (a', s'))) =
      (l @ [Conduit req a, Handled (ucast (X2 a))]) @ ev" "served env (wait_request env) ev"
    using Suc.IH by blast
  moreover have "reg_is env (X0 a) ARM_FID_FFA_INTERRUPT"
    using Suc.prems(2)[rule_format, of 0] by (simp add: interrupted_def)
  ultimately show ?case
    by (intro exI[of _ "Conduit req a # Handled (ucast (X2 a)) # ev"]) (simp add: pow del: funpow.simps)
qed

text \<open>A blocking call: a request, and the loop on its result.\<close>

lemma blocking_served:
  assumes "ArmCallSxc (logged env) req s = (a, s1)" and "interrupt_loop (logged env) a s1 = Some (a', s')"
  shows "\<exists>ev. log_of s' = log_of s @ ev \<and> served env req ev"
proof -
  from interrupt_loop_SomeD[OF assms(2)] obtain k where
    k: "(a', s') = (interrupt_round (logged env) ^^ k) (a, s1)" "\<not> interrupted (logged env) (a', s')"
      "\<forall>j<k. interrupted (logged env) ((interrupt_round (logged env) ^^ j) (a, s1))" by blast
  from rounds_served[OF logged_call[OF assms(1)] k(3)] k(1,2) show ?thesis by (metis snd_conv)
qed

text \<open>
  What a blocking call leaves: it has not returned, and then every result it gets is an
  interrupt; or it stops at the assertion on an unexpected result; or it returns, and every
  interrupt it met has been served.
\<close>

definition serves_interrupts ::
  "'w ffa_env \<Rightarrow> ARM_SXC_ARGS \<Rightarrow> 'w logged ffa_state \<Rightarrow> ('a \<Rightarrow> 'w logged ffa_state) \<Rightarrow> 'a result option \<Rightarrow> bool" where
  "serves_interrupts env req s final res \<longleftrightarrow>
     (case res of
        None \<Rightarrow> (\<forall>k. interrupted (logged env) ((interrupt_round (logged env) ^^ k) (ArmCallSxc (logged env) req s)))
      | Some (Inl e) \<Rightarrow> e = AssertFail
      | Some (Inr x) \<Rightarrow> (\<exists>ev. log_of (final x) = log_of s @ ev \<and> served env req ev))"

lemma serves_interruptsI:
  assumes "case interrupt_loop (logged env) (fst (ArmCallSxc (logged env) req s)) (snd (ArmCallSxc (logged env) req s)) of
      None \<Rightarrow> res = None
    | Some y \<Rightarrow> \<exists>r. res = Some r \<and> (case r of Inl e \<Rightarrow> e = AssertFail | Inr x \<Rightarrow> final x = snd y)"
  shows "serves_interrupts env req s final res"
proof -
  let ?c = "ArmCallSxc (logged env) req s"
  show ?thesis
  proof (cases "interrupt_loop (logged env) (fst ?c) (snd ?c)")
    case None
    have "interrupted (logged env) ((interrupt_round (logged env) ^^ k) ?c)" for k
    proof (rule ccontr)
      assume "\<not> interrupted (logged env) ((interrupt_round (logged env) ^^ k) ?c)"
      then obtain k where "\<not> interrupted (logged env) ((interrupt_round (logged env) ^^ k) ?c)"
        "\<And>j. j < k \<Longrightarrow> interrupted (logged env) ((interrupt_round (logged env) ^^ j) ?c)"
        using exists_least_iff[of "\<lambda>k. \<not> interrupted (logged env) ((interrupt_round (logged env) ^^ k) ?c)"] by blast
      with interrupt_loop_rounds[of k "logged env" "fst ?c" "snd ?c"] None show False by simp
    qed
    with None assms show ?thesis by (simp add: serves_interrupts_def)
  next
    case (Some y)
    then have "\<exists>ev. log_of (snd y) = log_of s @ ev \<and> served env req ev"
      using blocking_served[of env req s "fst ?c" "snd ?c" "fst y" "snd y"] by simp
    moreover obtain r where "res = Some r" "case r of Inl e \<Rightarrow> e = AssertFail | Inr x \<Rightarrow> final x = snd y"
      using assms Some by auto
    ultimately show ?thesis by (cases r) (simp_all add: serves_interrupts_def)
  qed
qed


text \<open>The log of a wait that meets two interrupts.\<close>

definition ex_wait_logged :: "script logged ffa_state" where
  "ex_wait_logged = \<lparr>mPartitionId = INVALID_SOURCE_ID, world = (world ex_wait, [])\<rparr>"


section \<open>Values split over two registers\<close>

lemma split_join64 [simp]:
  "join64 (ucast (ucast (drop_bit 32 b) :: UINT32)) (ucast (ucast (b :: UINT64) :: UINT32)) = b"
  unfolding join64_def
  by (rule bit_word_eqI) (auto simp: bit_simps)

lemma join64_halves:
  assumes "hi < 2 ^ 32" and "lo < 2 ^ 32"
  shows "(ucast (ucast (drop_bit 32 (join64 hi lo) AND 0xFFFFFFFF) :: UINT32) :: UINT64) = hi"
    and "(ucast (ucast (join64 hi lo AND 0xFFFFFFFF) :: UINT32) :: UINT64) = lo"
proof -
  have m: "(0xFFFFFFFF :: UINT64) = mask 32" by (simp add: mask_eq_exp_minus_1)
  have small: "n < 32" if "bit w n" "w < 2 ^ 32" for w :: UINT64 and n
    using that by (metis bit_take_bit_iff less_mask_eq take_bit_eq_mask)
  show "(ucast (ucast (drop_bit 32 (join64 hi lo) AND 0xFFFFFFFF) :: UINT32) :: UINT64) = hi"
    unfolding join64_def m
    by (rule bit_word_eqI) (use assms in \<open>auto simp: bit_simps intro: small dest: small\<close>)
  show "(ucast (ucast (join64 hi lo AND 0xFFFFFFFF) :: UINT32) :: UINT64) = lo"
    unfolding join64_def m
    by (rule bit_word_eqI) (use assms in \<open>auto simp: bit_simps intro: small dest: small\<close>)
qed

text \<open>
  A memory handle survives the round trip: when a donate, lend or share transaction
  succeeds with a handle whose halves the SPMC returned in two 32-bit values, reclaiming
  that handle passes exactly those two values back, low half first.
\<close>

theorem handle_roundtrip:
  assumes "mem_transaction env f64 f32 len frag buf pages s = Inr (EFI_SUCCESS, h, s')"
    and "ArmCallSxc env (mem_request (if buf \<noteq> 0 then fid env f64 else fid env f32) len frag buf pages) s =
           (Result, s')"
    and "X0 Result = ucast (fid env ARM_FID_FFA_SUCCESS_AARCH32)"
    and "fid env ARM_FID_FFA_SUCCESS_AARCH32 \<noteq> fid env ARM_FID_FFA_ERROR"
    and "X2 Result < 2 ^ 32" and "X3 Result < 2 ^ 32"
  shows "FfaMemReclaim env h flags t =
     bind_result (checked_call env
        (sxc_zero\<lparr> X0 := ucast (fid env ARM_FID_FFA_MEM_RETRIEVE_RECLAIM),
                   X1 := X2 Result, X2 := X3 Result, X3 := ucast flags \<rparr>) t)
       (\<lambda>(st, _, t'). Inr (st, t'))"
proof -
  have "h = join64 (X3 Result) (X2 Result)"
    using assms(1-4) by (simp add: mem_transaction_def reg_is_def)
  with join64_halves[OF assms(6,5)] show ?thesis by (simp add: FfaMemReclaim_def Let_def)
qed

definition ex_shared :: ARM_SXC_ARGS where
  "ex_shared = sxc_zero\<lparr>X0 := 0x84000061, X2 := 0xDEADBEEF, X3 := 0x1234\<rparr>"

theorem handle_roundtrip_witness:
  "FfaMemReclaim ex_env 0x1234DEADBEEF 0 (ex_ffa []) =
     bind_result (checked_call ex_env
        (sxc_zero\<lparr> X0 := ucast (fid ex_env ARM_FID_FFA_MEM_RETRIEVE_RECLAIM),
                   X1 := X2 ex_shared, X2 := X3 ex_shared, X3 := ucast (0 :: UINT32) \<rparr>) (ex_ffa []))
       (\<lambda>(st, _, t'). Inr (st, t'))"
proof (rule handle_roundtrip)
  let ?r = "mem_request (if (0::UINTN) \<noteq> 0 then fid ex_env ARM_FID_FFA_MEM_SHARE_AARCH64
              else fid ex_env ARM_FID_FFA_MEM_SHARE_AARCH32) 64 64 0 0"
  let ?s' = "snd (ArmCallSxc ex_env ?r (ex_ffa [ex_shared]))"
  show "ArmCallSxc ex_env ?r (ex_ffa [ex_shared]) = (ex_shared, ?s')" by code_simp
  show "mem_transaction ex_env ARM_FID_FFA_MEM_SHARE_AARCH64 ARM_FID_FFA_MEM_SHARE_AARCH32 64 64 0 0
      (ex_ffa [ex_shared]) = Inr (EFI_SUCCESS, 0x1234DEADBEEF, ?s')" by code_simp
  show "X0 ex_shared = ucast (fid ex_env ARM_FID_FFA_SUCCESS_AARCH32)" by code_simp
  show "fid ex_env ARM_FID_FFA_SUCCESS_AARCH32 \<noteq> fid ex_env ARM_FID_FFA_ERROR" by code_simp
  show "X2 ex_shared < 2 ^ 32" "X3 ex_shared < 2 ^ 32" by code_simp+
qed

text \<open>
  Setting a notification makes one call to the SPMC, from this partition to the
  destination, whose third and fourth registers together are the bitmap; the partition id
  is queried only while it is unknown, and is kept from then on.
\<close>

theorem FfaNotificationSet_request:
  "\<exists>r. FfaNotificationSet env DestId Flags Bitmap s = status_call env r (fetch_partition_id env s) \<and>
       X0 r = ucast (fid env ARM_FID_FFA_NOTIFICATION_SET) \<and>
       ucast (X1 r) = DestId \<and>
       ucast (drop_bit 16 (X1 r)) = mPartitionId (fetch_partition_id env s) \<and>
       X2 r = Flags \<and> join64 (X4 r) (X3 r) = Bitmap \<and>
       (mPartitionId s = INVALID_SOURCE_ID \<or> fetch_partition_id env s = s)"
  by (intro exI conjI; (simp only: FfaNotificationSet_def Let_def)?)
    (simp_all add: fetch_partition_id_def)

section \<open>Partition information\<close>

definition raw_desc :: "UINT8 list \<Rightarrow> nat \<Rightarrow> EFI_FFA_PART_INFO_DESC" where
  "raw_desc src i = desc_of_bytes (take PART_DESC_SIZE (drop (i * PART_DESC_SIZE) src))"

definition swap_uuid :: "EFI_FFA_PART_INFO_DESC \<Rightarrow> EFI_FFA_PART_INFO_DESC" where
  "swap_uuid d = d\<lparr>PartitionUuid := prepare_guid (PartitionUuid d)\<rparr>"

lemma swap_uuid_swap_uuid [simp]: "swap_uuid (swap_uuid d) = d"
  by (simp add: swap_uuid_def)

lemma copy_descs_append:
  "copy_descs src (is @ js) pd = bind_result (copy_descs src is pd) (copy_descs src js)"
  by (induction "is" arbitrary: pd) (simp_all add: Let_def)

lemma copy_descs_upto:
  assumes "n \<le> length pd" and "n * PART_DESC_SIZE \<le> length src"
  shows "copy_descs src [0..<n] pd =
     Inr (map (\<lambda>i. if i = 0 \<and> odd n then swap_uuid (raw_desc src 0)
                   else raw_desc src i) [0..<n] @ drop n pd)"
  using assms
proof (induction n)
  case 0
  then show ?case by simp
next
  case (Suc n)
  let ?f = "\<lambda>n i. if i = 0 \<and> odd n then swap_uuid (raw_desc src 0) else raw_desc src i"
  have IH: "copy_descs src [0..<n] pd = Inr (map (?f n) [0..<n] @ drop n pd)"
    using Suc by simp
  have d: "drop n pd = pd ! n # drop (Suc n) pd" using Suc.prems(1) by (simp add: Cons_nth_drop_Suc)
  have bound: "n * PART_DESC_SIZE + PART_DESC_SIZE \<le> length src" using Suc.prems(2) by simp
  have copied: "(map (?f n) [0..<n] @ drop n pd)[n := raw_desc src n] =
      map (?f n) [0..<n] @ raw_desc src n # drop (Suc n) pd"
    by (simp add: d list_update_append)
  have "(map (?f n) [0..<n] @ raw_desc src n # drop (Suc n) pd)
          [0 := swap_uuid ((map (?f n) [0..<n] @ raw_desc src n # drop (Suc n) pd) ! 0)] =
        map (?f (Suc n)) [0..<Suc n] @ drop (Suc n) pd"
    by (rule nth_equalityI) (use Suc.prems(1) in \<open>auto simp: nth_append nth_list_update\<close>)
  then show ?case
    using Suc.prems(1) bound
    by (simp add: copy_descs_append IH Let_def raw_desc_def[symmetric] swap_uuid_def[symmetric] copied)
qed

text \<open>
  C36. What the partition-information loop leaves in the caller's array, for any count that
  fits the array and the registers: descriptors beyond the first keep their GUID in the
  byte order of the registers, and the first one is converted only when the count is odd.
\<close>

theorem copy_descs_result:
  assumes "n \<le> length pd" and "n * PART_DESC_SIZE \<le> length src"
  shows "\<exists>ds. copy_descs src [0..<n] pd = Inr ds \<and> length ds = length pd \<and>
     (\<forall>i<length pd. ds ! i = (if n \<le> i then pd ! i
        else if i = 0 \<and> odd n then swap_uuid (raw_desc src 0) else raw_desc src i))"
  unfolding copy_descs_upto[OF assms] using assms(1)
  by (auto simp: nth_append)

definition ex_desc :: EFI_FFA_PART_INFO_DESC where
  "ex_desc = desc_of_bytes (replicate 24 0)"

definition ex_regs :: ARM_SXC_ARGS where
  "ex_regs = sxc_zero\<lparr>X0 := 0x84000061, X2 := 0x00010000, X3 := 0x8001, X4 := 0x0807060504030201,
     X5 := 0x100F0E0D0C0B0A09, X6 := 0x8002, X7 := 0x0807060504030201, X8 := 0x100F0E0D0C0B0A09\<rparr>"

theorem copy_descs_result_witness:
  "\<exists>ds. copy_descs (result_tail ex_regs) [0..<2] [ex_desc, ex_desc] = Inr ds \<and>
     length ds = length [ex_desc, ex_desc] \<and>
     (\<forall>i<length [ex_desc, ex_desc]. ds ! i = (if 2 \<le> i then [ex_desc, ex_desc] ! i
        else if i = 0 \<and> odd (2::nat) then swap_uuid (raw_desc (result_tail ex_regs) 0)
        else raw_desc (result_tail ex_regs) i))"
proof (rule copy_descs_result)
  show "2 \<le> length [ex_desc, ex_desc]" by simp
  show "2 * PART_DESC_SIZE \<le> length (result_tail ex_regs)" by code_simp
qed

end
