(* ===== verification/NotificationService.thy ===== *)
theory NotificationService
  imports FfaCalls
begin

text \<open>
  \<^verbatim>\<open>NotificationServiceLib\<close>: a table of sixteen services, each with sixty-four
  cookie/identifier mappings, and one global bitmask of the notification identifiers in
  use. Register and unregister requests carry up to seven mappings in message words.
  A pointer to a service is the index of its table slot.
\<close>

section \<open>Constants and data\<close>

definition NOTIFICATION_MAX_SERVICES :: nat where "NOTIFICATION_MAX_SERVICES = 16"
definition NOTIFICATION_MAX_MAPPINGS :: nat where "NOTIFICATION_MAX_MAPPINGS = 64"

definition MESSAGE_INFO_DIR_RESP :: UINTN where "MESSAGE_INFO_DIR_RESP = 0x100"
definition MESSAGE_INFO_ID_MASK :: UINTN where "MESSAGE_INFO_ID_MASK = 0x03"
definition RETURN_STATUS_MASK :: UINTN where "RETURN_STATUS_MASK = 0xFF"
definition MAPPING_MIN :: UINT8 where "MAPPING_MIN = 0x01"
definition MAPPING_MAX :: UINT8 where "MAPPING_MAX = 0x07"
definition PER_VCPU_BIT_POS :: nat where "PER_VCPU_BIT_POS = 0"

text \<open>\<^verbatim>\<open>NotificationStatus\<close> is an \<^verbatim>\<open>INT8\<close>.\<close>

type_synonym NotificationStatus = "8 word"

definition NOTIFICATION_STATUS_SUCCESS :: NotificationStatus where
  "NOTIFICATION_STATUS_SUCCESS = 0"
definition NOTIFICATION_STATUS_NOT_SUPPORTED :: NotificationStatus where
  "NOTIFICATION_STATUS_NOT_SUPPORTED = -1"
definition NOTIFICATION_STATUS_INVALID_PARAMETER :: NotificationStatus where
  "NOTIFICATION_STATUS_INVALID_PARAMETER = -2"
definition NOTIFICATION_STATUS_NO_MEM :: NotificationStatus where
  "NOTIFICATION_STATUS_NO_MEM = -3"

definition NOTIFICATION_OPCODE_ADD :: UINTN where "NOTIFICATION_OPCODE_ADD = 0"
definition NOTIFICATION_OPCODE_REMOVE :: UINTN where "NOTIFICATION_OPCODE_REMOVE = 1"
definition NOTIFICATION_OPCODE_REGISTER :: UINTN where "NOTIFICATION_OPCODE_REGISTER = 2"
definition NOTIFICATION_OPCODE_UNREGISTER :: UINTN where "NOTIFICATION_OPCODE_UNREGISTER = 3"
definition NOTIFICATION_OPCODE_MEM_ASSIGN :: UINTN where "NOTIFICATION_OPCODE_MEM_ASSIGN = 4"
definition NOTIFICATION_OPCODE_MEM_UNASSIGN :: UINTN where "NOTIFICATION_OPCODE_MEM_UNASSIGN = 5"

lemmas notif_status_defs =
  NOTIFICATION_STATUS_SUCCESS_def NOTIFICATION_STATUS_NOT_SUPPORTED_def
  NOTIFICATION_STATUS_INVALID_PARAMETER_def NOTIFICATION_STATUS_NO_MEM_def

lemmas notif_opcode_defs =
  NOTIFICATION_OPCODE_ADD_def NOTIFICATION_OPCODE_REMOVE_def NOTIFICATION_OPCODE_REGISTER_def
  NOTIFICATION_OPCODE_UNREGISTER_def NOTIFICATION_OPCODE_MEM_ASSIGN_def
  NOTIFICATION_OPCODE_MEM_UNASSIGN_def

lemmas notif_limit_defs =
  NOTIFICATION_MAX_SERVICES_def NOTIFICATION_MAX_MAPPINGS_def MAPPING_MIN_def MAPPING_MAX_def

record NotifInfo =
  NI_Cookie :: UINT32
  NI_Id :: UINT16
  NI_PerVcpu :: bool
  NI_SourceId :: UINT16
  NI_InUse :: bool

record NotifService =
  NS_ServiceUuid :: "UINT8 list"
  NS_ServiceInfo :: "NotifInfo list"
  NS_InUse :: bool

record notif_state =
  GlobalBitmask :: UINT64
  NotificationServices :: "NotifService list"

definition info_zero :: NotifInfo where
  "info_zero = \<lparr> NI_Cookie = 0, NI_Id = 0, NI_PerVcpu = False, NI_SourceId = 0, NI_InUse = False \<rparr>"

definition service_zero :: NotifService where
  "service_zero = \<lparr> NS_ServiceUuid = replicate 16 0,
     NS_ServiceInfo = replicate NOTIFICATION_MAX_MAPPINGS info_zero, NS_InUse = False \<rparr>"

text \<open>The bit-field union \<^verbatim>\<open>NotificationMapping\<close>, least significant field first.\<close>

definition mapping_PerVcpu :: "UINTN \<Rightarrow> UINT8" where
  "mapping_PerVcpu m = ucast (m AND 1)"
definition mapping_Id :: "UINTN \<Rightarrow> UINT16" where
  "mapping_Id m = ucast (drop_bit 23 m AND 0x1FF)"
definition mapping_Cookie :: "UINTN \<Rightarrow> UINT32" where
  "mapping_Cookie m = ucast (drop_bit 32 m)"

text \<open>
  \<^verbatim>\<open>1 << Id\<close> has type \<^verbatim>\<open>int\<close>: it is undefined from 32 on, and the value for 31 is negative,
  so it widens to \<^verbatim>\<open>UINT64\<close> with all upper bits set.
\<close>

definition int_bit :: "UINT16 \<Rightarrow> UINT64 result" where
  "int_bit n = (if n < 32 then Inr (signed_take_bit 31 (push_bit (unat n) 1)) else Inl ShiftTooFar)"

section \<open>Lookup\<close>

text \<open>The index of the in-use mapping with this cookie; \<open>None\<close> is \<^verbatim>\<open>NOTIFICATION_NOT_FOUND\<close>.\<close>

definition IsMatchingCookie :: "UINT32 \<Rightarrow> NotifService option \<Rightarrow> nat option" where
  "IsMatchingCookie Cookie Service =
     (case Service of
        None \<Rightarrow> None
      | Some sv \<Rightarrow>
          first_index (\<lambda>Index. NI_InUse (NS_ServiceInfo sv ! Index) \<and>
                               NI_Cookie (NS_ServiceInfo sv ! Index) = Cookie)
            NOTIFICATION_MAX_MAPPINGS)"

text \<open>The search for a free mapping inside \<^verbatim>\<open>UpdateServiceInfo\<close>.\<close>

definition find_empty_mapping :: "NotifService \<Rightarrow> nat option" where
  "find_empty_mapping sv =
     first_index (\<lambda>EmptyIndex. \<not> NI_InUse (NS_ServiceInfo sv ! EmptyIndex))
       NOTIFICATION_MAX_MAPPINGS"

text \<open>
  \<^verbatim>\<open>CompareMem (Uuid, ..., sizeof (Uuid))\<close>: \<^verbatim>\<open>Uuid\<close> is a pointer parameter, so eight of the
  sixteen bytes are compared.
\<close>

definition SIZEOF_UUID_POINTER :: nat where "SIZEOF_UUID_POINTER = 8"

definition LocateService :: "UINT8 list \<Rightarrow> bool \<Rightarrow> notif_state \<Rightarrow> nat option" where
  "LocateService Uuid LocateEmpty st =
     first_index (\<lambda>Index.
        let sv = NotificationServices st ! Index
        in (\<not> LocateEmpty \<and> NS_InUse sv \<and>
              take SIZEOF_UUID_POINTER Uuid = take SIZEOF_UUID_POINTER (NS_ServiceUuid sv)) \<or>
           (LocateEmpty \<and> \<not> NS_InUse sv))
       NOTIFICATION_MAX_SERVICES"

section \<open>Updating a service\<close>

text \<open>One round of the loop: the new temporaries, or the error status that breaks the loop.\<close>

definition unregister_mapping ::
  "UINT16 \<Rightarrow> UINTN \<Rightarrow> NotifService \<Rightarrow> UINT64 \<Rightarrow> (NotificationStatus \<times> NotifService \<times> UINT64) result" where
  "unregister_mapping Source m TempService TempBitmask =
     (case IsMatchingCookie (mapping_Cookie m) (Some TempService) of
        None \<Rightarrow> Inr (NOTIFICATION_STATUS_INVALID_PARAMETER, TempService, TempBitmask)
      | Some FoundIndex \<Rightarrow>
          if NI_Id (NS_ServiceInfo TempService ! FoundIndex) \<noteq> mapping_Id m
          then Inr (NOTIFICATION_STATUS_INVALID_PARAMETER, TempService, TempBitmask)
          else if NI_SourceId (NS_ServiceInfo TempService ! FoundIndex) \<noteq> Source
          then Inr (NOTIFICATION_STATUS_INVALID_PARAMETER, TempService, TempBitmask)
          else bind_result (int_bit (mapping_Id m)) (\<lambda>b.
            Inr (NOTIFICATION_STATUS_SUCCESS,
                 TempService\<lparr>NS_ServiceInfo := (NS_ServiceInfo TempService)[FoundIndex := info_zero]\<rparr>,
                 TempBitmask AND NOT b)))"

definition register_mapping ::
  "UINT16 \<Rightarrow> UINTN \<Rightarrow> NotifService \<Rightarrow> UINT64 \<Rightarrow> (NotificationStatus \<times> NotifService \<times> UINT64) result" where
  "register_mapping Source m TempService TempBitmask =
     (case IsMatchingCookie (mapping_Cookie m) (Some TempService) of
        Some _ \<Rightarrow> Inr (NOTIFICATION_STATUS_INVALID_PARAMETER, TempService, TempBitmask)
      | None \<Rightarrow>
          bind_result (int_bit (mapping_Id m)) (\<lambda>b.
            if TempBitmask AND b \<noteq> 0
            then Inr (NOTIFICATION_STATUS_INVALID_PARAMETER, TempService, TempBitmask)
            else case find_empty_mapping TempService of
                   None \<Rightarrow> Inr (NOTIFICATION_STATUS_NO_MEM, TempService, TempBitmask)
                 | Some EmptyIndex \<Rightarrow>
                     Inr (NOTIFICATION_STATUS_SUCCESS,
                          TempService\<lparr>NS_ServiceInfo := (NS_ServiceInfo TempService)
                            [EmptyIndex := \<lparr> NI_Cookie = mapping_Cookie m, NI_Id = mapping_Id m,
                               NI_PerVcpu = (mapping_PerVcpu m \<noteq> 0), NI_SourceId = Source,
                               NI_InUse = True \<rparr>]\<rparr>,
                          TempBitmask OR b)))"

text \<open>
  The loop over the request's mappings. The copy back into the table is inside the loop,
  so it happens after every successful round.
\<close>

fun update_loop ::
  "bool \<Rightarrow> UINT16 \<Rightarrow> nat \<Rightarrow> UINTN list \<Rightarrow> NotifService \<Rightarrow> UINT64 \<Rightarrow> notif_state \<Rightarrow>
   (NotificationStatus \<times> notif_state) result" where
  "update_loop Unregister Source svc [] TempService TempBitmask st =
     Inr (NOTIFICATION_STATUS_SUCCESS, st)"
| "update_loop Unregister Source svc (m # ms) TempService TempBitmask st =
     bind_result ((if Unregister then unregister_mapping else register_mapping)
                    Source m TempService TempBitmask)
       (\<lambda>(ReturnVal, TempService', TempBitmask').
          if ReturnVal \<noteq> NOTIFICATION_STATUS_SUCCESS then Inr (ReturnVal, st)
          else update_loop Unregister Source svc ms TempService' TempBitmask'
                 (st\<lparr> NotificationServices := (NotificationServices st)[svc := TempService'],
                      GlobalBitmask := TempBitmask' \<rparr>))"

text \<open>\<^verbatim>\<open>ReqMappings = (NotificationMapping *)&Request->Arg7\<close>: the message words from there on.\<close>

definition req_mappings :: "DIRECT_MSG_ARGS_EX \<Rightarrow> UINTN list" where
  "req_mappings Request = [Arg7 Request, Arg8 Request, Arg9 Request, Arg10 Request,
     Arg11 Request, Arg12 Request, Arg13 Request]"

definition UpdateServiceInfo ::
  "bool \<Rightarrow> DIRECT_MSG_ARGS_EX option \<Rightarrow> nat option \<Rightarrow> notif_state \<Rightarrow>
   (NotificationStatus \<times> notif_state) result" where
  "UpdateServiceInfo Unregister Request Service st =
     (case (Request, Service) of
        (Some req, Some svc) \<Rightarrow>
          (let ReqNumMappings = ucast (Arg6 req) :: UINT8
           in if ReqNumMappings < MAPPING_MIN \<or> ReqNumMappings > MAPPING_MAX
              then Inr (NOTIFICATION_STATUS_INVALID_PARAMETER, st)
              else if length (req_mappings req) < unat ReqNumMappings then Inl OutOfBounds
              else update_loop Unregister (SourceId req) svc
                     (take (unat ReqNumMappings) (req_mappings req))
                     (NotificationServices st ! svc) (GlobalBitmask st) st)
      | _ \<Rightarrow> Inr (NOTIFICATION_STATUS_INVALID_PARAMETER, st))"

section \<open>Handlers\<close>

text \<open>Byte \<open>i\<close> is \<^verbatim>\<open>UuidHi >> ((7 - i) * 8)\<close>, then the same for the low word.\<close>

definition NotificationServiceExtractUuid :: "UINT64 \<Rightarrow> UINT64 \<Rightarrow> UINT8 list" where
  "NotificationServiceExtractUuid UuidLo UuidHi =
     map (\<lambda>Index. ucast (drop_bit ((7 - Index) * 8) UuidHi)) [0..<8] @
     map (\<lambda>Index. ucast (drop_bit ((15 - Index) * 8) UuidLo)) [8..<16]"

definition RegisterHandler ::
  "DIRECT_MSG_ARGS_EX \<Rightarrow> notif_state \<Rightarrow> (NotificationStatus \<times> notif_state) result" where
  "RegisterHandler Request st =
     (let Uuid = NotificationServiceExtractUuid (Arg3 Request) (Arg4 Request);
          Service = (case LocateService Uuid False st of
                       Some i \<Rightarrow> Some i
                     | None \<Rightarrow> LocateService Uuid True st)
      in case Service of
           None \<Rightarrow> Inr (NOTIFICATION_STATUS_NO_MEM, st)
         | Some svc \<Rightarrow>
             bind_result (UpdateServiceInfo False (Some Request) Service st)
               (\<lambda>(ReturnVal, st').
                  if ReturnVal = NOTIFICATION_STATUS_SUCCESS \<and>
                     \<not> NS_InUse (NotificationServices st' ! svc)
                  then Inr (ReturnVal, st'\<lparr>NotificationServices := (NotificationServices st')
                         [svc := (NotificationServices st' ! svc)\<lparr>NS_ServiceUuid := Uuid,
                                                                 NS_InUse := True\<rparr>]\<rparr>)
                  else Inr (ReturnVal, st')))"

definition UnregisterHandler ::
  "DIRECT_MSG_ARGS_EX \<Rightarrow> notif_state \<Rightarrow> (NotificationStatus \<times> notif_state) result" where
  "UnregisterHandler Request st =
     (let Uuid = NotificationServiceExtractUuid (Arg3 Request) (Arg4 Request);
          Service = LocateService Uuid False st
      in case Service of
           None \<Rightarrow> Inr (NOTIFICATION_STATUS_INVALID_PARAMETER, st)
         | Some svc \<Rightarrow> UpdateServiceInfo True (Some Request) Service st)"

definition NotificationServiceInit :: notif_state where
  "NotificationServiceInit =
     \<lparr> GlobalBitmask = 0,
       NotificationServices = replicate NOTIFICATION_MAX_SERVICES service_zero \<rparr>"

definition NotificationServiceDeInit :: "notif_state \<Rightarrow> notif_state" where
  "NotificationServiceDeInit st = st"

definition NotificationServiceHandle ::
  "DIRECT_MSG_ARGS_EX option \<Rightarrow> DIRECT_MSG_ARGS_EX option \<Rightarrow> notif_state \<Rightarrow>
   (DIRECT_MSG_ARGS_EX option \<times> notif_state) result" where
  "NotificationServiceHandle Request Response st =
     (case (Request, Response) of
        (Some req, Some resp) \<Rightarrow>
          (let resp1 = resp\<lparr> Arg1 := Arg1 req, Arg2 := Arg2 req, Arg3 := Arg3 req,
                             Arg4 := Arg4 req, Arg5 := Arg5 req OR MESSAGE_INFO_DIR_RESP \<rparr>;
               Opcode = Arg5 req AND MESSAGE_INFO_ID_MASK
           in bind_result
                (if Opcode = NOTIFICATION_OPCODE_ADD \<or> Opcode = NOTIFICATION_OPCODE_REMOVE
                 then Inr (NOTIFICATION_STATUS_NOT_SUPPORTED, st)
                 else if Opcode = NOTIFICATION_OPCODE_MEM_ASSIGN \<or>
                         Opcode = NOTIFICATION_OPCODE_MEM_UNASSIGN
                 then Inr (NOTIFICATION_STATUS_NOT_SUPPORTED, st)
                 else if Opcode = NOTIFICATION_OPCODE_REGISTER then RegisterHandler req st
                 else if Opcode = NOTIFICATION_OPCODE_UNREGISTER then UnregisterHandler req st
                 else Inr (NOTIFICATION_STATUS_INVALID_PARAMETER, st))
                (\<lambda>(ReturnVal, st').
                   Inr (Some (resp1\<lparr>Arg6 := ucast ReturnVal AND RETURN_STATUS_MASK\<rparr>), st')))
      | _ \<Rightarrow> Inr (Response, st))"

text \<open>
  \<^verbatim>\<open>NotificationServiceIdSet\<close>: the search compares cookies only, not \<^verbatim>\<open>InUse\<close>. The result
  carries the state of the FF-A library it calls.
\<close>

definition NotificationServiceIdSet ::
  "'w ffa_env \<Rightarrow> UINT32 \<Rightarrow> UINT8 list option \<Rightarrow> UINT32 \<Rightarrow> notif_state \<Rightarrow> 'w ffa_state \<Rightarrow>
   (NotificationStatus \<times> 'w ffa_state) result" where
  "NotificationServiceIdSet env Cookie ServiceUuid Flag st s =
     (case ServiceUuid of
        None \<Rightarrow> Inr (NOTIFICATION_STATUS_INVALID_PARAMETER, s)
      | Some Uuid \<Rightarrow>
          (case LocateService Uuid False st of
             None \<Rightarrow> Inr (NOTIFICATION_STATUS_INVALID_PARAMETER, s)
           | Some svc \<Rightarrow>
               (let infos = NS_ServiceInfo (NotificationServices st ! svc)
                in case first_index (\<lambda>Index. NI_Cookie (infos ! Index) = Cookie)
                          NOTIFICATION_MAX_MAPPINGS of
                     None \<Rightarrow> Inr (NOTIFICATION_STATUS_INVALID_PARAMETER, s)
                   | Some Index \<Rightarrow>
                       bind_result (int_bit (NI_Id (infos ! Index))) (\<lambda>Bitmask.
                         (let Flag' = (if NI_PerVcpu (infos ! Index)
                                       then Flag OR push_bit PER_VCPU_BIT_POS 1 else Flag)
                          in case FfaNotificationSet env (NI_SourceId (infos ! Index))
                                    (ucast Flag') Bitmask s of
                               (Status, s') \<Rightarrow>
                                 Inr (if \<not> EFI_ERROR Status then NOTIFICATION_STATUS_SUCCESS
                                      else NOTIFICATION_STATUS_INVALID_PARAMETER, s'))))))"


section \<open>Well-formedness and the service invariant\<close>

text \<open>
  A service is well formed when its arrays have their declared sizes, the cookies of its
  mappings in use are distinct, and an unused mapping is all zero.
\<close>

definition wf_service :: "NotifService \<Rightarrow> bool" where
  "wf_service sv \<longleftrightarrow>
     length (NS_ServiceInfo sv) = NOTIFICATION_MAX_MAPPINGS \<and>
     length (NS_ServiceUuid sv) = 16 \<and>
     (\<forall>j < NOTIFICATION_MAX_MAPPINGS. \<not> NI_InUse (NS_ServiceInfo sv ! j) \<longrightarrow>
        NS_ServiceInfo sv ! j = info_zero) \<and>
     (\<forall>j < NOTIFICATION_MAX_MAPPINGS. \<forall>k < NOTIFICATION_MAX_MAPPINGS.
        NI_InUse (NS_ServiceInfo sv ! j) \<longrightarrow> NI_InUse (NS_ServiceInfo sv ! k) \<longrightarrow>
        NI_Cookie (NS_ServiceInfo sv ! j) = NI_Cookie (NS_ServiceInfo sv ! k) \<longrightarrow> j = k)"

definition entry :: "notif_state \<Rightarrow> nat \<Rightarrow> nat \<Rightarrow> NotifInfo" where
  "entry st i j = NS_ServiceInfo (NotificationServices st ! i) ! j"

text \<open>Slot \<open>i\<close>, mapping \<open>j\<close> is in use (whether or not the slot itself is).\<close>

definition used :: "notif_state \<Rightarrow> nat \<Rightarrow> nat \<Rightarrow> bool" where
  "used st i j \<longleftrightarrow> i < NOTIFICATION_MAX_SERVICES \<and> j < NOTIFICATION_MAX_MAPPINGS \<and>
     NI_InUse (entry st i j)"

definition wf_table :: "notif_state \<Rightarrow> bool" where
  "wf_table st \<longleftrightarrow> length (NotificationServices st) = NOTIFICATION_MAX_SERVICES \<and>
     (\<forall>i < NOTIFICATION_MAX_SERVICES. wf_service (NotificationServices st ! i))"

definition ids_distinct :: "notif_state \<Rightarrow> bool" where
  "ids_distinct st \<longleftrightarrow> (\<forall>i j i' j'. used st i j \<longrightarrow> used st i' j' \<longrightarrow>
     NI_Id (entry st i j) = NI_Id (entry st i' j') \<longrightarrow> i = i' \<and> j = j')"

definition bitmask_exact :: "notif_state \<Rightarrow> bool" where
  "bitmask_exact st \<longleftrightarrow> (\<forall>n < 64. bit (GlobalBitmask st) n \<longleftrightarrow>
     (\<exists>i j. used st i j \<and> unat (NI_Id (entry st i j)) = min n 31))"

definition ids_small :: "notif_state \<Rightarrow> bool" where
  "ids_small st \<longleftrightarrow> (\<forall>i j. used st i j \<longrightarrow> unat (NI_Id (entry st i j)) < 32)"

definition notif_inv :: "notif_state \<Rightarrow> bool" where
  "notif_inv st \<longleftrightarrow> wf_table st \<and> ids_distinct st \<and> bitmask_exact st \<and> ids_small st"

lemma int_bit_Inl_iff: "int_bit n = Inl e \<longleftrightarrow> 32 \<le> unat n \<and> e = ShiftTooFar"
  by (auto simp: int_bit_def word_less_nat_alt)

lemma int_bit_InrD:
  assumes "int_bit n = Inr b"
  shows "unat n < 32" and "k < 64 \<Longrightarrow> bit b k \<longleftrightarrow> unat n = min k 31"
proof -
  from assms have n: "unat n < 32" and b: "b = signed_take_bit 31 (push_bit (unat n) 1)"
    by (auto simp: int_bit_def word_less_nat_alt split: if_splits)
  show "unat n < 32" by (rule n)
  show "bit b k \<longleftrightarrow> unat n = min k 31" if "k < 64"
    using that n unfolding b
    by (auto simp: bit_signed_take_bit_iff bit_push_bit_iff bit_exp_iff min_def)
qed

lemma int_bit_ok: "unat n < 32 \<Longrightarrow> \<exists>b. int_bit n = Inr b"
  by (simp add: int_bit_def word_less_nat_alt)

text \<open>Under the invariant the bitmask test of a register request is a search of the table.\<close>

lemma mask_test:
  assumes inv: "bitmask_exact st" and b: "int_bit n = Inr b"
  shows "GlobalBitmask st AND b = 0 \<longleftrightarrow> (\<forall>i j. used st i j \<longrightarrow> NI_Id (entry st i j) \<noteq> n)"
proof
  assume z: "GlobalBitmask st AND b = 0"
  have n: "unat n < 32" using b by (rule int_bit_InrD)
  then have "bit b (unat n)" using int_bit_InrD(2)[OF b, of "unat n"] by simp
  then have "\<not> bit (GlobalBitmask st) (unat n)" using z by (metis bit_0_eq bit_and_iff bot_apply bot_bool_def)
  then show "\<forall>i j. used st i j \<longrightarrow> NI_Id (entry st i j) \<noteq> n"
    using inv n by (auto simp: bitmask_exact_def)
next
  assume free: "\<forall>i j. used st i j \<longrightarrow> NI_Id (entry st i j) \<noteq> n"
  show "GlobalBitmask st AND b = 0"
  proof (rule bit_word_eqI)
    fix k assume k: "k < LENGTH(64)"
    then have k64: "k < 64" by simp
    have "\<not> (bit (GlobalBitmask st) k \<and> bit b k)"
      using inv free int_bit_InrD(2)[OF b k64] k64
      unfolding bitmask_exact_def by (metis word_unat_eq_iff)
    then show "bit (GlobalBitmask st AND b) k = bit 0 k" by (simp add: bit_and_iff)
  qed
qed


section \<open>One mapping\<close>

definition put_service :: "notif_state \<Rightarrow> nat \<Rightarrow> NotifService \<Rightarrow> UINT64 \<Rightarrow> notif_state" where
  "put_service st svc sv gm =
     st\<lparr> NotificationServices := (NotificationServices st)[svc := sv], GlobalBitmask := gm \<rparr>"

definition set_info :: "NotifService \<Rightarrow> nat \<Rightarrow> NotifInfo \<Rightarrow> NotifService" where
  "set_info sv j nfo = sv\<lparr>NS_ServiceInfo := (NS_ServiceInfo sv)[j := nfo]\<rparr>"

definition new_info :: "UINT16 \<Rightarrow> UINTN \<Rightarrow> NotifInfo" where
  "new_info Source m = \<lparr> NI_Cookie = mapping_Cookie m, NI_Id = mapping_Id m,
     NI_PerVcpu = (mapping_PerVcpu m \<noteq> 0), NI_SourceId = Source, NI_InUse = True \<rparr>"

lemma new_info_sel [simp]:
  "NI_Cookie (new_info a m) = mapping_Cookie m" "NI_Id (new_info a m) = mapping_Id m"
  "NI_SourceId (new_info a m) = a" "NI_InUse (new_info a m)"
  by (simp_all add: new_info_def)

lemma info_zero_sel [simp]:
  "NI_Cookie info_zero = 0" "NI_Id info_zero = 0" "\<not> NI_PerVcpu info_zero"
  "NI_SourceId info_zero = 0" "\<not> NI_InUse info_zero"
  by (simp_all add: info_zero_def)

lemma set_info_sel [simp]:
  "NS_InUse (set_info sv j nfo) = NS_InUse sv"
  "NS_ServiceUuid (set_info sv j nfo) = NS_ServiceUuid sv"
  "NS_ServiceInfo (set_info sv j nfo) = (NS_ServiceInfo sv)[j := nfo]"
  by (simp_all add: set_info_def)

lemma put_service_sel [simp]:
  "GlobalBitmask (put_service st svc sv gm) = gm"
  "NotificationServices (put_service st svc sv gm) = (NotificationServices st)[svc := sv]"
  by (simp_all add: put_service_def)

lemma put_service_same [simp]:
  "put_service st svc (NotificationServices st ! svc) (GlobalBitmask st) = st"
  by (simp add: put_service_def)

lemma put_service_twice [simp]:
  "put_service (put_service st svc sv gm) svc sv' gm' = put_service st svc sv' gm'"
  by (simp add: put_service_def)

text \<open>Lookup facts of a well-formed service.\<close>

lemma IsMatchingCookie_SomeD:
  assumes "IsMatchingCookie c (Some sv) = Some j"
  shows "j < NOTIFICATION_MAX_MAPPINGS" "NI_InUse (NS_ServiceInfo sv ! j)"
    "NI_Cookie (NS_ServiceInfo sv ! j) = c"
  using first_index_SomeD[OF assms[unfolded IsMatchingCookie_def option.case]] by auto

lemma IsMatchingCookie_NoneD:
  assumes "IsMatchingCookie c (Some sv) = None" and "j < NOTIFICATION_MAX_MAPPINGS"
    and "NI_InUse (NS_ServiceInfo sv ! j)"
  shows "NI_Cookie (NS_ServiceInfo sv ! j) \<noteq> c"
  using assms by (auto simp: IsMatchingCookie_def dest: first_index_NoneD)

lemma IsMatchingCookie_eq:
  assumes "wf_service sv" and "j < NOTIFICATION_MAX_MAPPINGS" and "NI_InUse (NS_ServiceInfo sv ! j)"
  shows "IsMatchingCookie (NI_Cookie (NS_ServiceInfo sv ! j)) (Some sv) = Some j"
  using assms unfolding IsMatchingCookie_def option.case wf_service_def
  by (intro first_index_eq_SomeI) (auto intro: less_trans)

lemma find_empty_SomeD:
  assumes "find_empty_mapping sv = Some j"
  shows "j < NOTIFICATION_MAX_MAPPINGS" "\<not> NI_InUse (NS_ServiceInfo sv ! j)"
  using first_index_SomeD[OF assms[unfolded find_empty_mapping_def]] by auto

lemma find_empty_None_iff:
  "find_empty_mapping sv = None \<longleftrightarrow>
     (\<forall>j < NOTIFICATION_MAX_MAPPINGS. NI_InUse (NS_ServiceInfo sv ! j))"
  by (auto simp: find_empty_mapping_def first_index_None_iff)

text \<open>The two ways a round succeeds.\<close>

lemma register_mapping_successD:
  assumes "register_mapping src m sv gm = Inr (NOTIFICATION_STATUS_SUCCESS, sv', gm')"
  obtains b j where "IsMatchingCookie (mapping_Cookie m) (Some sv) = None"
    "int_bit (mapping_Id m) = Inr b" "gm AND b = 0" "find_empty_mapping sv = Some j"
    "sv' = set_info sv j (new_info src m)" "gm' = gm OR b"
  using assms
  by (auto simp: register_mapping_def result_iffs notif_status_defs set_info_def new_info_def
      split: option.splits if_splits)

lemma unregister_mapping_successD:
  assumes "unregister_mapping src m sv gm = Inr (NOTIFICATION_STATUS_SUCCESS, sv', gm')"
  obtains b j where "IsMatchingCookie (mapping_Cookie m) (Some sv) = Some j"
    "NI_Id (NS_ServiceInfo sv ! j) = mapping_Id m" "NI_SourceId (NS_ServiceInfo sv ! j) = src"
    "int_bit (mapping_Id m) = Inr b" "sv' = set_info sv j info_zero" "gm' = gm AND NOT b"
  using assms
  by (auto simp: unregister_mapping_def result_iffs notif_status_defs set_info_def
      split: option.splits if_splits)

text \<open>A round that does not succeed leaves the temporaries alone.\<close>

lemma mapping_error_unchanged:
  assumes "(if u then unregister_mapping else register_mapping) src m sv gm = Inr (r, sv', gm')"
    and "r \<noteq> NOTIFICATION_STATUS_SUCCESS"
  shows "sv' = sv \<and> gm' = gm \<and>
         r \<in> {NOTIFICATION_STATUS_INVALID_PARAMETER, NOTIFICATION_STATUS_NO_MEM}"
  using assms
  by (auto simp: register_mapping_def unregister_mapping_def result_iffs
      split: option.splits if_splits)

text \<open>Overwriting one mapping of one slot.\<close>

lemma entry_put:
  assumes "svc < length (NotificationServices st)"
    and "j < length (NS_ServiceInfo (NotificationServices st ! svc))"
  shows "entry (put_service st svc (set_info (NotificationServices st ! svc) j nfo) gm) i k =
     (if i = svc \<and> k = j then nfo else entry st i k)"
  using assms by (auto simp: entry_def nth_list_update)

lemma used_put:
  assumes "svc < NOTIFICATION_MAX_SERVICES" "length (NotificationServices st) = NOTIFICATION_MAX_SERVICES"
    and "j < NOTIFICATION_MAX_MAPPINGS"
    and "length (NS_ServiceInfo (NotificationServices st ! svc)) = NOTIFICATION_MAX_MAPPINGS"
  shows "used (put_service st svc (set_info (NotificationServices st ! svc) j nfo) gm) i k =
     (if i = svc \<and> k = j then NI_InUse nfo else used st i k)"
  using assms by (auto simp: used_def entry_put)

lemma wf_tableD:
  assumes "wf_table st" and "svc < NOTIFICATION_MAX_SERVICES"
  shows "length (NotificationServices st) = NOTIFICATION_MAX_SERVICES"
    "wf_service (NotificationServices st ! svc)"
    "length (NS_ServiceInfo (NotificationServices st ! svc)) = NOTIFICATION_MAX_MAPPINGS"
  using assms by (auto simp: wf_table_def wf_service_def)

lemma wf_table_put:
  assumes "wf_table st" and "wf_service sv"
  shows "wf_table (put_service st svc sv gm)"
  using assms unfolding wf_table_def put_service_sel length_list_update
  by (metis nth_list_update_eq nth_list_update_neq)

lemma wf_service_register:
  assumes "wf_service sv" and "IsMatchingCookie (mapping_Cookie m) (Some sv) = None"
    and "find_empty_mapping sv = Some j"
  shows "wf_service (set_info sv j (new_info src m))"
  using assms find_empty_SomeD[OF assms(3)]
  by (auto simp: wf_service_def nth_list_update dest: IsMatchingCookie_NoneD)

lemma wf_service_unregister:
  assumes "wf_service sv" and "j < NOTIFICATION_MAX_MAPPINGS"
  shows "wf_service (set_info sv j info_zero)"
  using assms by (auto simp: wf_service_def nth_list_update)


lemma notif_inv_register:
  assumes inv: "notif_inv st" and svc: "svc < NOTIFICATION_MAX_SERVICES"
    and ok: "register_mapping src m (NotificationServices st ! svc) (GlobalBitmask st) =
             Inr (NOTIFICATION_STATUS_SUCCESS, sv', gm')"
  shows "notif_inv (put_service st svc sv' gm')"
proof -
  from ok obtain b j where
    c: "IsMatchingCookie (mapping_Cookie m) (Some (NotificationServices st ! svc)) = None" and
    b: "int_bit (mapping_Id m) = Inr b" and z: "GlobalBitmask st AND b = 0" and
    e: "find_empty_mapping (NotificationServices st ! svc) = Some j" and
    sv': "sv' = set_info (NotificationServices st ! svc) j (new_info src m)" and
    gm': "gm' = GlobalBitmask st OR b"
    by (rule register_mapping_successD)
  from inv have wf: "wf_table st" and dist: "ids_distinct st" and exact: "bitmask_exact st"
    and small: "ids_small st" by (simp_all add: notif_inv_def)
  note j = find_empty_SomeD[OF e]
  note len = wf_tableD[OF wf svc]
  note ent = entry_put[where st = st and svc = svc and j = j and nfo = "new_info src m" and gm = gm']
  note usd = used_put[where st = st and svc = svc and j = j and nfo = "new_info src m" and gm = gm']
  have free: "\<forall>i k. used st i k \<longrightarrow> NI_Id (entry st i k) \<noteq> mapping_Id m"
    using mask_test[OF exact b] z by simp
  have nj: "\<not> used st svc j" using j by (simp add: used_def entry_def)
  have "wf_table (put_service st svc sv' gm')"
    unfolding sv' using wf len(2) c e by (intro wf_table_put wf_service_register)
  moreover have "ids_distinct (put_service st svc sv' gm')"
    using dist free svc len j unfolding ids_distinct_def sv' by (auto simp: ent usd) metis+
  moreover have "bitmask_exact (put_service st svc sv' gm')"
    unfolding bitmask_exact_def
  proof (intro allI impI)
    fix n :: nat assume n: "n < 64"
    have "bit gm' n \<longleftrightarrow> (\<exists>i k. used st i k \<and> unat (NI_Id (entry st i k)) = min n 31) \<or>
            unat (mapping_Id m) = min n 31"
      using exact int_bit_InrD(2)[OF b n] n by (simp add: gm' bit_or_iff bitmask_exact_def)
    also have "\<dots> \<longleftrightarrow> (\<exists>i k. used (put_service st svc sv' gm') i k \<and>
            unat (NI_Id (entry (put_service st svc sv' gm') i k)) = min n 31)"
      using svc len j nj unfolding sv' by (auto simp: ent usd)
    finally show "bit (GlobalBitmask (put_service st svc sv' gm')) n \<longleftrightarrow>
        (\<exists>i k. used (put_service st svc sv' gm') i k \<and>
            unat (NI_Id (entry (put_service st svc sv' gm') i k)) = min n 31)"
      by simp
  qed
  moreover have "ids_small (put_service st svc sv' gm')"
    using small svc len j int_bit_InrD(1)[OF b] unfolding ids_small_def sv' by (auto simp: ent usd)
  ultimately show ?thesis by (simp add: notif_inv_def)
qed

lemma notif_inv_unregister:
  assumes inv: "notif_inv st" and svc: "svc < NOTIFICATION_MAX_SERVICES"
    and ok: "unregister_mapping src m (NotificationServices st ! svc) (GlobalBitmask st) =
             Inr (NOTIFICATION_STATUS_SUCCESS, sv', gm')"
  shows "notif_inv (put_service st svc sv' gm')"
proof -
  from ok obtain b j where
    c: "IsMatchingCookie (mapping_Cookie m) (Some (NotificationServices st ! svc)) = Some j" and
    id: "NI_Id (NS_ServiceInfo (NotificationServices st ! svc) ! j) = mapping_Id m" and
    b: "int_bit (mapping_Id m) = Inr b" and
    sv': "sv' = set_info (NotificationServices st ! svc) j info_zero" and
    gm': "gm' = GlobalBitmask st AND NOT b"
    by (rule unregister_mapping_successD)
  from inv have wf: "wf_table st" and dist: "ids_distinct st" and exact: "bitmask_exact st"
    and small: "ids_small st" by (simp_all add: notif_inv_def)
  note j = IsMatchingCookie_SomeD[OF c]
  note len = wf_tableD[OF wf svc]
  note ent = entry_put[where st = st and svc = svc and j = j and nfo = info_zero and gm = gm']
  note usd = used_put[where st = st and svc = svc and j = j and nfo = info_zero and gm = gm']
  have uj: "used st svc j" and ej: "NI_Id (entry st svc j) = mapping_Id m"
    using j svc id by (simp_all add: used_def entry_def)
  have "wf_table (put_service st svc sv' gm')"
    unfolding sv' using wf len(2) j by (intro wf_table_put wf_service_unregister)
  moreover have "ids_distinct (put_service st svc sv' gm')"
    using dist svc len j unfolding ids_distinct_def sv' by (auto simp: ent usd)
  moreover have "bitmask_exact (put_service st svc sv' gm')"
    unfolding bitmask_exact_def
  proof (intro allI impI)
    fix n :: nat assume n: "n < 64"
    have "bit gm' n \<longleftrightarrow> (\<exists>i k. used st i k \<and> unat (NI_Id (entry st i k)) = min n 31) \<and>
            unat (mapping_Id m) \<noteq> min n 31"
      using exact int_bit_InrD(2)[OF b n] n
      by (simp add: gm' bit_and_iff bit_not_iff bitmask_exact_def)
    also have "\<dots> \<longleftrightarrow> (\<exists>i k. used (put_service st svc sv' gm') i k \<and>
            unat (NI_Id (entry (put_service st svc sv' gm') i k)) = min n 31)"
      using svc len j uj ej dist unfolding sv' ids_distinct_def
      by (auto simp: ent usd) (metis word_unat_eq_iff)+
    finally show "bit (GlobalBitmask (put_service st svc sv' gm')) n \<longleftrightarrow>
        (\<exists>i k. used (put_service st svc sv' gm') i k \<and>
            unat (NI_Id (entry (put_service st svc sv' gm') i k)) = min n 31)"
      by simp
  qed
  moreover have "ids_small (put_service st svc sv' gm')"
    using small svc len j unfolding ids_small_def sv' by (auto simp: ent usd)
  ultimately show ?thesis by (simp add: notif_inv_def)
qed


lemmas notif_inv_mapping = notif_inv_register notif_inv_unregister

lemma notif_invD [simp]:
  "notif_inv st \<Longrightarrow> length (NotificationServices st) = NOTIFICATION_MAX_SERVICES"
  by (simp add: notif_inv_def wf_table_def)

section \<open>The loop and the handlers keep the invariant\<close>

text \<open>
  The temporaries always equal the table: the loop is a fold over the table itself. This
  is the shape every proof about \<^verbatim>\<open>UpdateServiceInfo\<close> uses.
\<close>

lemma update_loop_Cons_success:
  assumes "(if u then unregister_mapping else register_mapping) src m sv gm =
             Inr (NOTIFICATION_STATUS_SUCCESS, sv', gm')"
  shows "update_loop u src svc (m # ms) sv gm st =
         update_loop u src svc ms sv' gm' (put_service st svc sv' gm')"
  using assms by (simp add: put_service_def)

lemma update_loop_Cons_error:
  assumes "(if u then unregister_mapping else register_mapping) src m sv gm = Inr (r, sv', gm')"
    and "r \<noteq> NOTIFICATION_STATUS_SUCCESS"
  shows "update_loop u src svc (m # ms) sv gm st = Inr (r, st)"
  using assms by simp

lemma update_loop_ConsE:
  assumes "update_loop u src svc (m # ms) sv gm st = Inr (r, st')"
  obtains (Error) sv' gm' where "r \<noteq> NOTIFICATION_STATUS_SUCCESS" "st' = st"
      "(if u then unregister_mapping else register_mapping) src m sv gm = Inr (r, sv', gm')"
  | (Success) sv' gm' where
      "(if u then unregister_mapping else register_mapping) src m sv gm =
         Inr (NOTIFICATION_STATUS_SUCCESS, sv', gm')"
      "update_loop u src svc ms sv' gm' (put_service st svc sv' gm') = Inr (r, st')"
  using assms by (auto simp: result_iffs put_service_def split: if_splits)

lemma notif_inv_step:
  assumes "notif_inv st" and "svc < NOTIFICATION_MAX_SERVICES"
    and "(if u then unregister_mapping else register_mapping) src m
           (NotificationServices st ! svc) (GlobalBitmask st) =
         Inr (NOTIFICATION_STATUS_SUCCESS, sv', gm')"
  shows "notif_inv (put_service st svc sv' gm')"
  using assms by (cases u) (auto intro: notif_inv_mapping)

lemma update_loop_inv:
  assumes "notif_inv st" and "svc < NOTIFICATION_MAX_SERVICES"
    and "update_loop u src svc ms (NotificationServices st ! svc) (GlobalBitmask st) st = Inr (r, st')"
  shows "notif_inv st'"
  using assms
proof (induction ms arbitrary: st)
  case Nil
  then show ?case by simp
next
  case (Cons m ms)
  from Cons.prems(3) show ?case
  proof (cases rule: update_loop_ConsE)
    case Error
    with Cons.prems show ?thesis by simp
  next
    case (Success sv' gm')
    from Cons.prems Success(1) have "notif_inv (put_service st svc sv' gm')"
      by (intro notif_inv_step)
    from Cons.IH[OF this Cons.prems(2)] Success(2) Cons.prems show ?thesis by simp
  qed
qed

lemma update_loop_status:
  assumes "update_loop u src svc ms sv gm st = Inr (r, st')"
  shows "r \<in> {NOTIFICATION_STATUS_SUCCESS, NOTIFICATION_STATUS_INVALID_PARAMETER,
              NOTIFICATION_STATUS_NO_MEM}"
  using assms
proof (induction ms arbitrary: sv gm st)
  case Nil
  then show ?case by simp
next
  case (Cons m ms)
  from Cons.prems show ?case
  proof (cases rule: update_loop_ConsE)
    case Error
    then show ?thesis using mapping_error_unchanged by blast
  next
    case Success
    from Success(2) show ?thesis by (rule Cons.IH)
  qed
qed

text \<open>The slots' UUIDs and in-use flags are not touched by the loop.\<close>

lemma mapping_frame:
  assumes "(if u then unregister_mapping else register_mapping) src m sv gm = Inr (r, sv', gm')"
  shows "NS_InUse sv' = NS_InUse sv \<and> NS_ServiceUuid sv' = NS_ServiceUuid sv"
  using assms
  by (auto simp: register_mapping_def unregister_mapping_def result_iffs
      split: option.splits if_splits)

lemma update_loop_frame:
  assumes "svc < length (NotificationServices st)"
    and "update_loop u src svc ms (NotificationServices st ! svc) (GlobalBitmask st) st = Inr (r, st')"
  shows "length (NotificationServices st') = length (NotificationServices st) \<and>
         NS_InUse (NotificationServices st' ! i) = NS_InUse (NotificationServices st ! i) \<and>
         NS_ServiceUuid (NotificationServices st' ! i) = NS_ServiceUuid (NotificationServices st ! i) \<and>
         (i \<noteq> svc \<longrightarrow> NotificationServices st' ! i = NotificationServices st ! i)"
  using assms
proof (induction ms arbitrary: st)
  case Nil
  then show ?case by simp
next
  case (Cons m ms)
  from Cons.prems(2) show ?case
  proof (cases rule: update_loop_ConsE)
    case Error
    then show ?thesis by simp
  next
    case (Success sv' gm')
    note fr = mapping_frame[OF Success(1)]
    show ?thesis
      using Cons.IH[of "put_service st svc sv' gm'"] Success(2) Cons.prems(1) fr
      by (cases "i = svc") simp_all
  qed
qed

lemma LocateService_SomeD:
  assumes "LocateService Uuid e st = Some svc"
  shows "svc < NOTIFICATION_MAX_SERVICES"
    "e \<Longrightarrow> \<not> NS_InUse (NotificationServices st ! svc)"
    "\<not> e \<Longrightarrow> NS_InUse (NotificationServices st ! svc)"
    "\<not> e \<Longrightarrow> take 8 Uuid = take 8 (NS_ServiceUuid (NotificationServices st ! svc))"
  using first_index_SomeD(1,2)[OF assms[unfolded LocateService_def]]
  by (auto simp: Let_def SIZEOF_UUID_POINTER_def)

lemma length_ExtractUuid [simp]: "length (NotificationServiceExtractUuid lo hi) = 16"
  by (simp add: NotificationServiceExtractUuid_def)

text \<open>The mapping array is never read past the last message word.\<close>

definition num_mappings :: "DIRECT_MSG_ARGS_EX \<Rightarrow> nat" where
  "num_mappings req = unat (ucast (Arg6 req) :: UINT8)"

lemma UpdateServiceInfo_eq:
  "UpdateServiceInfo u (Some req) (Some svc) st =
     (if 1 \<le> num_mappings req \<and> num_mappings req \<le> 7
      then update_loop u (SourceId req) svc (take (num_mappings req) (req_mappings req))
             (NotificationServices st ! svc) (GlobalBitmask st) st
      else Inr (NOTIFICATION_STATUS_INVALID_PARAMETER, st))"
proof -
  have range: "(ucast (Arg6 req) :: UINT8) < MAPPING_MIN \<or> (ucast (Arg6 req) :: UINT8) > MAPPING_MAX \<longleftrightarrow>
        \<not> (1 \<le> num_mappings req \<and> num_mappings req \<le> 7)"
    by (simp add: num_mappings_def MAPPING_MIN_def MAPPING_MAX_def word_less_nat_alt not_le not_less
        less_Suc_eq_0_disj linorder_not_le)
  have len: "length (req_mappings req) = 7" by (simp add: req_mappings_def)
  show ?thesis
    unfolding UpdateServiceInfo_def Let_def prod.case option.case range len
    unfolding num_mappings_def[symmetric]
    by (cases "1 \<le> num_mappings req \<and> num_mappings req \<le> 7") auto
qed

lemma UpdateServiceInfo_inv:
  assumes "notif_inv st" and "svc < NOTIFICATION_MAX_SERVICES"
    and "UpdateServiceInfo u (Some req) (Some svc) st = Inr (r, st')"
  shows "notif_inv st'"
proof (cases "1 \<le> num_mappings req \<and> num_mappings req \<le> 7")
  case True
  with assms(3) have "update_loop u (SourceId req) svc (take (num_mappings req) (req_mappings req))
      (NotificationServices st ! svc) (GlobalBitmask st) st = Inr (r, st')"
    by (simp only: UpdateServiceInfo_eq if_P)
  with assms(1,2) show ?thesis by (rule update_loop_inv)
next
  case False
  with assms(3) have "st' = st" by (auto simp: UpdateServiceInfo_eq)
  with assms(1) show ?thesis by simp
qed

text \<open>Renaming a slot touches no mapping.\<close>

lemma notif_inv_rename:
  assumes "notif_inv st" and "length u = 16"
  shows "notif_inv (st\<lparr>NotificationServices := (NotificationServices st)
     [svc := (NotificationServices st ! svc)\<lparr>NS_ServiceUuid := u, NS_InUse := f\<rparr>]\<rparr>)"
    (is "notif_inv ?st'")
proof (cases "svc < NOTIFICATION_MAX_SERVICES")
  case True
  have e: "entry ?st' i j = entry st i j" for i j
    using assms True by (cases "i = svc") (simp_all add: entry_def)
  have u: "used ?st' i j = used st i j" for i j
    by (simp add: used_def e)
  have wf: "wf_table st" using assms(1) by (simp add: notif_inv_def)
  then have "wf_service ((NotificationServices st ! svc)\<lparr>NS_ServiceUuid := u, NS_InUse := f\<rparr>)"
    using wf_tableD(2)[OF wf True] assms(2) by (simp add: wf_service_def)
  then have "wf_table (put_service st svc
      ((NotificationServices st ! svc)\<lparr>NS_ServiceUuid := u, NS_InUse := f\<rparr>) (GlobalBitmask st))"
    by (rule wf_table_put[OF wf])
  then have "wf_table ?st'" by (simp add: put_service_def)
  then show ?thesis
    using assms(1) by (simp add: notif_inv_def ids_distinct_def bitmask_exact_def ids_small_def e u)
next
  case False
  with assms show ?thesis by (simp add: list_update_beyond)
qed

text \<open>The slot a register request works on: the one it names, or the first empty one.\<close>

definition register_slot :: "DIRECT_MSG_ARGS_EX \<Rightarrow> notif_state \<Rightarrow> nat option" where
  "register_slot req st =
     (let Uuid = NotificationServiceExtractUuid (Arg3 req) (Arg4 req)
      in case LocateService Uuid False st of Some i \<Rightarrow> Some i | None \<Rightarrow> LocateService Uuid True st)"

definition rename_slot :: "UINT8 list \<Rightarrow> nat \<Rightarrow> notif_state \<Rightarrow> notif_state" where
  "rename_slot Uuid svc st = st\<lparr>NotificationServices := (NotificationServices st)
     [svc := (NotificationServices st ! svc)\<lparr>NS_ServiceUuid := Uuid, NS_InUse := True\<rparr>]\<rparr>"

lemma RegisterHandler_eq:
  "RegisterHandler req st =
     (case register_slot req st of
        None \<Rightarrow> Inr (NOTIFICATION_STATUS_NO_MEM, st)
      | Some svc \<Rightarrow>
          bind_result (UpdateServiceInfo False (Some req) (Some svc) st)
            (\<lambda>(r, st'). Inr (r, if r = NOTIFICATION_STATUS_SUCCESS \<and>
                                   \<not> NS_InUse (NotificationServices st' ! svc)
                                then rename_slot (NotificationServiceExtractUuid (Arg3 req) (Arg4 req)) svc st'
                                else st')))"
  unfolding RegisterHandler_def register_slot_def rename_slot_def Let_def
  by (intro option.case_cong refl arg_cong2[where f = bind_result] ext)
    (auto split: option.splits)

lemma register_slot_less: "register_slot req st = Some svc \<Longrightarrow> svc < NOTIFICATION_MAX_SERVICES"
  by (auto simp: register_slot_def Let_def dest: LocateService_SomeD(1) split: option.splits)

lemma RegisterHandler_inv:
  assumes inv: "notif_inv st" and run: "RegisterHandler req st = Inr (r, st')"
  shows "notif_inv st'"
proof (cases "register_slot req st")
  case None
  with run inv show ?thesis by (simp add: RegisterHandler_eq)
next
  case (Some svc)
  with run obtain st1 where u: "UpdateServiceInfo False (Some req) (Some svc) st = Inr (r, st1)"
    and st': "st' = st1 \<or> st' = rename_slot (NotificationServiceExtractUuid (Arg3 req) (Arg4 req)) svc st1"
    by (auto simp: RegisterHandler_eq result_iffs split: if_splits)
  have "notif_inv st1" using inv register_slot_less[OF Some] u by (rule UpdateServiceInfo_inv)
  with st' show ?thesis by (auto simp: rename_slot_def intro: notif_inv_rename)
qed

lemma UnregisterHandler_inv:
  assumes "notif_inv st" and "UnregisterHandler req st = Inr (r, st')"
  shows "notif_inv st'"
  using assms
  by (auto simp: UnregisterHandler_def Let_def split: option.splits
      dest: LocateService_SomeD(1) intro: UpdateServiceInfo_inv)

lemma NotificationServiceHandle_inv:
  assumes "notif_inv st" and "NotificationServiceHandle req resp st = Inr (resp', st')"
  shows "notif_inv st'"
  using assms
  by (auto simp: NotificationServiceHandle_def Let_def result_iffs split: option.splits if_splits
      intro: RegisterHandler_inv UnregisterHandler_inv)

lemma notif_inv_init: "notif_inv NotificationServiceInit"
  by (auto simp: notif_inv_def NotificationServiceInit_def wf_table_def wf_service_def service_zero_def
      ids_distinct_def bitmask_exact_def ids_small_def used_def entry_def)

text \<open>One call of the service with any message.\<close>

definition notif_step :: "notif_state \<Rightarrow> notif_state \<Rightarrow> bool" where
  "notif_step st st' \<longleftrightarrow> (\<exists>req resp resp'. NotificationServiceHandle req resp st = Inr (resp', st'))"

interpretation notif: invariant_system "\<lambda>st. st = NotificationServiceInit" notif_step notif_inv
  by unfold_locales
    (auto simp: notif_step_def notif_inv_init intro: NotificationServiceHandle_inv)


section \<open>The abstract registry\<close>

text \<open>
  What a slot promises its clients is a finite map from cookies to the identifier, the
  per-vCPU flag and the endpoint that registered it. The array of mappings implements it.
\<close>

type_synonym registry = "UINT32 \<rightharpoonup> UINT16 \<times> bool \<times> UINT16"

definition abs_service :: "NotifService \<Rightarrow> registry" where
  "abs_service sv c = (case IsMatchingCookie c (Some sv) of
     None \<Rightarrow> None
   | Some j \<Rightarrow> Some (NI_Id (NS_ServiceInfo sv ! j), NI_PerVcpu (NS_ServiceInfo sv ! j),
                     NI_SourceId (NS_ServiceInfo sv ! j)))"

text \<open>
  The specification of one register and one unregister, given the identifiers taken in
  the whole table and whether the slot is full.
\<close>

definition spec_register ::
  "UINT16 set \<Rightarrow> bool \<Rightarrow> UINT16 \<Rightarrow> UINTN \<Rightarrow> registry \<Rightarrow> NotificationStatus \<times> registry" where
  "spec_register taken full Source m r =
     (if mapping_Cookie m \<in> dom r \<or> mapping_Id m \<in> taken
      then (NOTIFICATION_STATUS_INVALID_PARAMETER, r)
      else if full then (NOTIFICATION_STATUS_NO_MEM, r)
      else (NOTIFICATION_STATUS_SUCCESS,
            r(mapping_Cookie m \<mapsto> (mapping_Id m, mapping_PerVcpu m \<noteq> 0, Source))))"

definition spec_unregister ::
  "UINT16 \<Rightarrow> UINTN \<Rightarrow> registry \<Rightarrow> NotificationStatus \<times> registry" where
  "spec_unregister Source m r =
     (case r (mapping_Cookie m) of
        Some (i, v, src) \<Rightarrow>
          if i = mapping_Id m \<and> src = Source
          then (NOTIFICATION_STATUS_SUCCESS, r(mapping_Cookie m := None))
          else (NOTIFICATION_STATUS_INVALID_PARAMETER, r)
      | None \<Rightarrow> (NOTIFICATION_STATUS_INVALID_PARAMETER, r))"

definition taken_ids :: "notif_state \<Rightarrow> UINT16 set" where
  "taken_ids st = {NI_Id (entry st i j) | i j. used st i j}"

definition slot_full :: "NotifService \<Rightarrow> bool" where
  "slot_full sv \<longleftrightarrow> (\<forall>j < NOTIFICATION_MAX_MAPPINGS. NI_InUse (NS_ServiceInfo sv ! j))"

lemma IsMatchingCookie_iff:
  assumes "wf_service sv"
  shows "IsMatchingCookie c (Some sv) = Some j \<longleftrightarrow>
     j < NOTIFICATION_MAX_MAPPINGS \<and> NI_InUse (NS_ServiceInfo sv ! j) \<and>
     NI_Cookie (NS_ServiceInfo sv ! j) = c"
  using IsMatchingCookie_eq[OF assms] IsMatchingCookie_SomeD by blast

lemma IsMatchingCookie_set_info:
  assumes wf': "wf_service (set_info sv j nfo)" and wf: "wf_service sv" and j: "j < NOTIFICATION_MAX_MAPPINGS"
    and "c \<noteq> NI_Cookie nfo \<or> \<not> NI_InUse nfo"
    and "c \<noteq> NI_Cookie (NS_ServiceInfo sv ! j) \<or> \<not> NI_InUse (NS_ServiceInfo sv ! j)"
  shows "IsMatchingCookie c (Some (set_info sv j nfo)) = IsMatchingCookie c (Some sv)"
proof -
  have "IsMatchingCookie c (Some (set_info sv j nfo)) = Some k \<longleftrightarrow> IsMatchingCookie c (Some sv) = Some k" for k
    unfolding IsMatchingCookie_iff[OF wf] IsMatchingCookie_iff[OF wf']
    using assms by (cases "k = j") (auto simp: wf_service_def)
  then show ?thesis by (metis option.exhaust)
qed

lemma dom_abs_service: "c \<in> dom (abs_service sv) \<longleftrightarrow> IsMatchingCookie c (Some sv) \<noteq> None"
  by (auto simp: abs_service_def split: option.splits)

lemma abs_service_register:
  assumes wf: "wf_service sv" and new: "IsMatchingCookie (mapping_Cookie m) (Some sv) = None"
    and e: "find_empty_mapping sv = Some j"
  shows "abs_service (set_info sv j (new_info src m)) =
     (abs_service sv)(mapping_Cookie m \<mapsto> (mapping_Id m, mapping_PerVcpu m \<noteq> 0, src))"
proof
  fix c
  let ?sv' = "set_info sv j (new_info src m)"
  have wf': "wf_service ?sv'" using wf new e by (rule wf_service_register)
  note j = find_empty_SomeD[OF e]
  have jl: "j < length (NS_ServiceInfo sv)" using wf j by (simp add: wf_service_def)
  show "abs_service ?sv' c =
     ((abs_service sv)(mapping_Cookie m \<mapsto> (mapping_Id m, mapping_PerVcpu m \<noteq> 0, src))) c"
  proof (cases "c = mapping_Cookie m")
    case True
    then have "IsMatchingCookie c (Some ?sv') = Some j"
      unfolding IsMatchingCookie_iff[OF wf'] using j jl by simp
    then show ?thesis using True jl by (simp add: abs_service_def new_info_def)
  next
    case False
    then have same: "IsMatchingCookie c (Some ?sv') = IsMatchingCookie c (Some sv)"
      using wf wf' j by (intro IsMatchingCookie_set_info) auto
    have "k \<noteq> j" if "IsMatchingCookie c (Some sv) = Some k" for k
      using IsMatchingCookie_SomeD(2)[OF that] j by blast
    then show ?thesis using False same by (auto simp: abs_service_def split: option.split)
  qed
qed

lemma abs_service_unregister:
  assumes wf: "wf_service sv" and m: "IsMatchingCookie c0 (Some sv) = Some j"
  shows "abs_service (set_info sv j info_zero) = (abs_service sv)(c0 := None)"
proof
  fix c
  let ?sv' = "set_info sv j info_zero"
  note j = IsMatchingCookie_SomeD[OF m]
  have wf': "wf_service ?sv'" using wf j by (intro wf_service_unregister)
  have jl: "j < length (NS_ServiceInfo sv)" using wf j by (simp add: wf_service_def)
  show "abs_service ?sv' c = ((abs_service sv)(c0 := None)) c"
  proof (cases "c = c0")
    case True
    have "IsMatchingCookie c (Some ?sv') \<noteq> Some k" for k
      unfolding IsMatchingCookie_iff[OF wf'] using True jl m IsMatchingCookie_iff[OF wf, of c0 k]
      by (cases "k = j") auto
    then show ?thesis using True by (cases "IsMatchingCookie c (Some ?sv')") (auto simp: abs_service_def)
  next
    case False
    then have same: "IsMatchingCookie c (Some ?sv') = IsMatchingCookie c (Some sv)"
      using wf wf' j by (intro IsMatchingCookie_set_info) auto
    have "k \<noteq> j" if "IsMatchingCookie c (Some sv) = Some k" for k
      using IsMatchingCookie_SomeD(3)[OF that] j False by blast
    then show ?thesis using False same by (auto simp: abs_service_def split: option.split)
  qed
qed

lemma taken_ids_mask:
  assumes "notif_inv st" and "int_bit i = Inr b"
  shows "GlobalBitmask st AND b = 0 \<longleftrightarrow> i \<notin> taken_ids st"
  using mask_test[OF _ assms(2), of st] assms(1) by (auto simp: notif_inv_def taken_ids_def)

text \<open>One round of the loop implements the specification, for an identifier below 32.\<close>

lemma register_mapping_refines:
  assumes inv: "notif_inv st" and svc: "svc < NOTIFICATION_MAX_SERVICES"
    and id: "unat (mapping_Id m) < 32"
  shows "\<exists>r sv' gm'. register_mapping src m (NotificationServices st ! svc) (GlobalBitmask st) =
           Inr (r, sv', gm') \<and>
         (r, abs_service sv') = spec_register (taken_ids st) (slot_full (NotificationServices st ! svc))
           src m (abs_service (NotificationServices st ! svc))"
proof -
  let ?sv = "NotificationServices st ! svc"
  obtain b where b: "int_bit (mapping_Id m) = Inr b" using int_bit_ok[OF id] by blast
  have wf: "wf_service ?sv" using inv svc by (simp add: notif_inv_def wf_table_def)
  note t = taken_ids_mask[OF inv b]
  show ?thesis
  proof (cases "IsMatchingCookie (mapping_Cookie m) (Some ?sv)")
    case (Some j)
    then have "mapping_Cookie m \<in> dom (abs_service ?sv)" by (simp add: dom_abs_service)
    with Some show ?thesis by (simp add: register_mapping_def spec_register_def)
  next
    case None
    then have nd: "mapping_Cookie m \<notin> dom (abs_service ?sv)" by (simp add: dom_abs_service)
    show ?thesis
    proof (cases "find_empty_mapping ?sv")
      case full: None
      then have "slot_full ?sv" by (simp add: find_empty_None_iff slot_full_def)
      with None nd b t full show ?thesis
        by (simp add: register_mapping_def spec_register_def)
    next
      case (Some j)
      then have "\<not> slot_full ?sv" using find_empty_SomeD unfolding slot_full_def by blast
      with None nd b t Some abs_service_register[OF wf None Some] show ?thesis
        by (simp add: register_mapping_def spec_register_def set_info_def new_info_def)
    qed
  qed
qed

lemma unregister_mapping_refines:
  assumes inv: "notif_inv st" and svc: "svc < NOTIFICATION_MAX_SERVICES"
  shows "\<exists>r sv' gm'. unregister_mapping src m (NotificationServices st ! svc) (GlobalBitmask st) =
           Inr (r, sv', gm') \<and>
         (r, abs_service sv') = spec_unregister src m (abs_service (NotificationServices st ! svc))"
proof (cases "IsMatchingCookie (mapping_Cookie m) (Some (NotificationServices st ! svc))")
  case None
  then show ?thesis
    by (simp add: unregister_mapping_def spec_unregister_def abs_service_def)
next
  case (Some j)
  let ?sv = "NotificationServices st ! svc"
  have wf: "wf_service ?sv" using inv svc by (simp add: notif_inv_def wf_table_def)
  have "used st svc j" using IsMatchingCookie_SomeD[OF Some] svc by (simp add: used_def entry_def)
  then have "unat (NI_Id (NS_ServiceInfo ?sv ! j)) < 32"
    using inv by (auto simp: notif_inv_def ids_small_def entry_def)
  then obtain b where "int_bit (NI_Id (NS_ServiceInfo ?sv ! j)) = Inr b" using int_bit_ok by blast
  then show ?thesis
    using Some abs_service_unregister[OF wf Some]
    by (auto simp: unregister_mapping_def spec_unregister_def abs_service_def set_info_def)
qed


subsection \<open>The whole update as a loop over the abstract registry\<close>

text \<open>
  The abstract state of an update is the set of identifiers taken in the whole table and
  the registry of the slot; sixty-four cookies fill a slot. The loop stops at the first
  mapping that is refused and keeps what it has done.
\<close>

fun spec_update ::
  "bool \<Rightarrow> UINT16 \<Rightarrow> UINTN list \<Rightarrow> UINT16 set \<Rightarrow> registry \<Rightarrow>
   NotificationStatus \<times> UINT16 set \<times> registry" where
  "spec_update Unregister Source [] taken r = (NOTIFICATION_STATUS_SUCCESS, taken, r)"
| "spec_update Unregister Source (m # ms) taken r =
     (case (if Unregister then spec_unregister Source m r
            else spec_register taken (64 \<le> card (dom r)) Source m r) of
        (status, r') \<Rightarrow>
          if status \<noteq> NOTIFICATION_STATUS_SUCCESS then (status, taken, r)
          else spec_update Unregister Source ms
                 (if Unregister then taken - {mapping_Id m} else insert (mapping_Id m) taken) r')"

lemma slot_full_card:
  assumes "wf_service sv"
  shows "slot_full sv \<longleftrightarrow> 64 \<le> card (dom (abs_service sv))"
proof -
  let ?J = "{j. j < NOTIFICATION_MAX_MAPPINGS \<and> NI_InUse (NS_ServiceInfo sv ! j)}"
  let ?c = "\<lambda>j. NI_Cookie (NS_ServiceInfo sv ! j)"
  have "dom (abs_service sv) = ?c ` ?J"
    unfolding set_eq_iff dom_abs_service image_iff not_None_eq IsMatchingCookie_iff[OF assms]
    by auto
  moreover have "inj_on ?c ?J" using assms by (auto simp: inj_on_def wf_service_def)
  ultimately have "card (dom (abs_service sv)) = card ?J" by (simp add: card_image)
  moreover have "64 \<le> card ?J \<longleftrightarrow> ?J = {..<NOTIFICATION_MAX_MAPPINGS}"
  proof
    assume "64 \<le> card ?J"
    then show "?J = {..<NOTIFICATION_MAX_MAPPINGS}"
      by (intro card_seteq) (auto simp: NOTIFICATION_MAX_MAPPINGS_def)
  qed (simp add: NOTIFICATION_MAX_MAPPINGS_def)
  ultimately show ?thesis by (auto simp: slot_full_def)
qed

lemma taken_ids_register:
  assumes inv: "notif_inv st" and svc: "svc < NOTIFICATION_MAX_SERVICES"
    and ok: "register_mapping src m (NotificationServices st ! svc) (GlobalBitmask st) =
             Inr (NOTIFICATION_STATUS_SUCCESS, sv', gm')"
  shows "taken_ids (put_service st svc sv' gm') = insert (mapping_Id m) (taken_ids st)"
proof -
  from ok obtain b j where e: "find_empty_mapping (NotificationServices st ! svc) = Some j"
    and sv': "sv' = set_info (NotificationServices st ! svc) j (new_info src m)"
    by (rule register_mapping_successD)
  have wf: "wf_table st" using inv by (simp add: notif_inv_def)
  note len = wf_tableD[OF wf svc] and j = find_empty_SomeD[OF e]
  have nj: "\<not> used st svc j" using j by (simp add: used_def entry_def)
  show ?thesis
    using svc len j nj unfolding taken_ids_def sv'
    by (auto simp: entry_put used_put split: if_splits)
qed

lemma taken_ids_unregister:
  assumes inv: "notif_inv st" and svc: "svc < NOTIFICATION_MAX_SERVICES"
    and ok: "unregister_mapping src m (NotificationServices st ! svc) (GlobalBitmask st) =
             Inr (NOTIFICATION_STATUS_SUCCESS, sv', gm')"
  shows "taken_ids (put_service st svc sv' gm') = taken_ids st - {mapping_Id m}"
proof -
  from ok obtain b j where c: "IsMatchingCookie (mapping_Cookie m) (Some (NotificationServices st ! svc)) = Some j"
    and id: "NI_Id (NS_ServiceInfo (NotificationServices st ! svc) ! j) = mapping_Id m"
    and sv': "sv' = set_info (NotificationServices st ! svc) j info_zero"
    by (rule unregister_mapping_successD)
  have wf: "wf_table st" and dist: "ids_distinct st" using inv by (simp_all add: notif_inv_def)
  note len = wf_tableD[OF wf svc] and j = IsMatchingCookie_SomeD[OF c]
  have uj: "used st svc j" and ej: "NI_Id (entry st svc j) = mapping_Id m"
    using j svc id by (simp_all add: used_def entry_def)
  show ?thesis
    using svc len j uj ej dist unfolding taken_ids_def sv' ids_distinct_def
    by (auto simp: entry_put used_put split: if_splits)
qed

lemma mapping_refines:
  assumes inv: "notif_inv st" and svc: "svc < NOTIFICATION_MAX_SERVICES"
    and id: "\<not> u \<Longrightarrow> unat (mapping_Id m) < 32"
  obtains r sv' gm' where
    "(if u then unregister_mapping else register_mapping) src m
       (NotificationServices st ! svc) (GlobalBitmask st) = Inr (r, sv', gm')"
    "(r, abs_service sv') =
       (if u then spec_unregister src m (abs_service (NotificationServices st ! svc))
        else spec_register (taken_ids st) (64 \<le> card (dom (abs_service (NotificationServices st ! svc))))
               src m (abs_service (NotificationServices st ! svc)))"
proof (cases u)
  case True
  with unregister_mapping_refines[OF inv svc, of src m] that show ?thesis by auto
next
  case False
  have "wf_service (NotificationServices st ! svc)" using inv svc by (simp add: notif_inv_def wf_table_def)
  with False register_mapping_refines[OF inv svc id, of src] that show ?thesis
    by (auto simp: slot_full_card)
qed

lemma update_loop_refines:
  assumes "notif_inv st" and "svc < NOTIFICATION_MAX_SERVICES"
    and "\<not> u \<Longrightarrow> \<forall>m \<in> set ms. unat (mapping_Id m) < 32"
  shows "\<exists>r st'. update_loop u src svc ms (NotificationServices st ! svc) (GlobalBitmask st) st = Inr (r, st') \<and>
     (r, taken_ids st', abs_service (NotificationServices st' ! svc)) =
       spec_update u src ms (taken_ids st) (abs_service (NotificationServices st ! svc))"
  using assms
proof (induction ms arbitrary: st)
  case Nil
  then show ?case by simp
next
  case (Cons m ms)
  have id: "unat (mapping_Id m) < 32" if "\<not> u" using Cons.prems(3) that by simp
  obtain r sv' gm' where
    run: "(if u then unregister_mapping else register_mapping) src m
            (NotificationServices st ! svc) (GlobalBitmask st) = Inr (r, sv', gm')" and
    spec: "(r, abs_service sv') =
       (if u then spec_unregister src m (abs_service (NotificationServices st ! svc))
        else spec_register (taken_ids st) (64 \<le> card (dom (abs_service (NotificationServices st ! svc))))
               src m (abs_service (NotificationServices st ! svc)))"
    by (rule mapping_refines[OF Cons.prems(1,2) id])
  show ?case
  proof (cases "r = NOTIFICATION_STATUS_SUCCESS")
    case False
    from spec[symmetric] False update_loop_Cons_error[OF run False] show ?thesis by simp
  next
    case True
    let ?st1 = "put_service st svc sv' gm'"
    have inv1: "notif_inv ?st1" using Cons.prems run True by (intro notif_inv_step) auto
    have tk: "taken_ids ?st1 =
        (if u then taken_ids st - {mapping_Id m} else insert (mapping_Id m) (taken_ids st))"
      using taken_ids_register[OF Cons.prems(1,2)] taken_ids_unregister[OF Cons.prems(1,2)] run True
      by (cases u) auto
    have sv1: "NotificationServices ?st1 ! svc = sv'" using Cons.prems by simp
    from Cons.IH[OF inv1 Cons.prems(2)] Cons.prems(3) obtain r' st' where
      IH: "update_loop u src svc ms sv' gm' ?st1 = Inr (r', st')"
          "(r', taken_ids st', abs_service (NotificationServices st' ! svc)) =
             spec_update u src ms (taken_ids ?st1) (abs_service sv')"
      unfolding sv1 by auto
    show ?thesis
      using update_loop_Cons_success[OF run[unfolded True], of svc ms st] IH spec[symmetric] True tk
      by simp
  qed
qed


section \<open>Lemmas for the properties\<close>

lemma mapping_no_fault:
  assumes "unat (mapping_Id m) < 32"
  shows "\<exists>x. (if u then unregister_mapping else register_mapping) src m sv gm = Inr x"
proof -
  obtain b where "int_bit (mapping_Id m) = Inr b" using int_bit_ok[OF assms] by blast
  then show ?thesis
    by (auto simp: register_mapping_def unregister_mapping_def split: option.split)
qed

lemma update_loop_no_fault:
  assumes "\<forall>m \<in> set ms. unat (mapping_Id m) < 32"
  shows "\<exists>x. update_loop u src svc ms sv gm st = Inr x"
  using assms
proof (induction ms arbitrary: sv gm st)
  case Nil
  then show ?case by simp
next
  case (Cons m ms)
  from Cons.prems have "unat (mapping_Id m) < 32" by simp
  from mapping_no_fault[OF this, of u src sv gm] obtain r sv' gm' where
    run: "(if u then unregister_mapping else register_mapping) src m sv gm = Inr (r, sv', gm')"
    by (metis prod_cases3)
  show ?case
  proof (cases "r = NOTIFICATION_STATUS_SUCCESS")
    case True
    with run Cons show ?thesis by (simp add: update_loop_Cons_success del: update_loop.simps)
  next
    case False
    with update_loop_Cons_error[OF run False] show ?thesis by blast
  qed
qed

lemma UpdateServiceInfo_no_fault:
  assumes "\<forall>m \<in> set (req_mappings req). unat (mapping_Id m) < 32"
  shows "\<exists>x. UpdateServiceInfo u (Some req) (Some svc) st = Inr x"
proof -
  have "\<forall>m \<in> set (take (num_mappings req) (req_mappings req)). unat (mapping_Id m) < 32"
    using assms by (meson in_set_takeD)
  then show ?thesis unfolding UpdateServiceInfo_eq using update_loop_no_fault by auto
qed

lemma handlers_no_fault:
  assumes "\<forall>m \<in> set (req_mappings req). unat (mapping_Id m) < 32"
  shows "\<exists>x. RegisterHandler req st = Inr x" and "\<exists>x. UnregisterHandler req st = Inr x"
proof -
  show "\<exists>x. RegisterHandler req st = Inr x"
  proof (cases "register_slot req st")
    case (Some svc)
    obtain r st' where "UpdateServiceInfo False (Some req) (Some svc) st = Inr (r, st')"
      using UpdateServiceInfo_no_fault[OF assms] by (metis surj_pair)
    with Some show ?thesis by (simp add: RegisterHandler_eq)
  qed (simp add: RegisterHandler_eq)
  show "\<exists>x. UnregisterHandler req st = Inr x"
    using UpdateServiceInfo_no_fault[OF assms] by (simp add: UnregisterHandler_def Let_def split: option.split)
qed

lemma handlers_status:
  assumes "RegisterHandler req st = Inr (r, st') \<or> UnregisterHandler req st = Inr (r, st')"
  shows "r \<in> {NOTIFICATION_STATUS_SUCCESS, NOTIFICATION_STATUS_INVALID_PARAMETER,
              NOTIFICATION_STATUS_NO_MEM}"
proof -
  have upd: "r \<in> {NOTIFICATION_STATUS_SUCCESS, NOTIFICATION_STATUS_INVALID_PARAMETER,
              NOTIFICATION_STATUS_NO_MEM}"
    if "UpdateServiceInfo u (Some req) (Some svc) st = Inr (r, st1)" for u svc st1
    using that update_loop_status by (auto simp: UpdateServiceInfo_eq split: if_splits)
  show ?thesis
    using assms
    by (auto simp: RegisterHandler_eq UnregisterHandler_def Let_def result_iffs
        split: option.splits dest!: upd)
qed

text \<open>A registered cookie other than zero is found at its own mapping, in use or not.\<close>

lemma id_set_search:
  assumes wf: "wf_service sv" and c: "c \<noteq> 0"
  shows "first_index (\<lambda>j. NI_Cookie (NS_ServiceInfo sv ! j) = c) NOTIFICATION_MAX_MAPPINGS =
         IsMatchingCookie c (Some sv)"
  unfolding IsMatchingCookie_def option.case
proof (rule first_index_cong)
  fix j assume "j < NOTIFICATION_MAX_MAPPINGS"
  then have "\<not> NI_InUse (NS_ServiceInfo sv ! j) \<Longrightarrow> NI_Cookie (NS_ServiceInfo sv ! j) = 0"
    using wf by (auto simp: wf_service_def)
  with c show "NI_Cookie (NS_ServiceInfo sv ! j) = c \<longleftrightarrow>
      NI_InUse (NS_ServiceInfo sv ! j) \<and> NI_Cookie (NS_ServiceInfo sv ! j) = c" by auto
qed

end
