(* ===== verification/NotificationProperties.thy ===== *)
theory NotificationProperties
  imports NotificationService FfaProperties
begin

text \<open>
  The properties of the notification service: the reachable-state invariant, the
  refinement of an abstract cookie registry by one update, round trip, fault
  freedom, the delivery of notifications, and the behaviours that differ from what the
  code's comments promise.
\<close>

section \<open>Concrete requests for the witnesses\<close>

text \<open>A mapping word: cookie in the upper half, identifier from bit 23, flag in bit 0.\<close>

definition mapping_word :: "UINT32 \<Rightarrow> UINT16 \<Rightarrow> bool \<Rightarrow> UINTN" where
  "mapping_word c i v = push_bit 32 (ucast c) OR push_bit 23 (ucast i AND 0x1FF) OR (if v then 1 else 0)"

definition notif_request :: "UINTN \<Rightarrow> UINT64 \<Rightarrow> UINT64 \<Rightarrow> UINT16 \<Rightarrow> UINTN list \<Rightarrow> DIRECT_MSG_ARGS_EX" where
  "notif_request opcode lo hi src ms = msg_zero\<lparr>SourceId := src, Arg3 := lo, Arg4 := hi, Arg5 := opcode,
     Arg6 := of_nat (length ms), Arg7 := (ms @ replicate 7 0) ! 0, Arg8 := (ms @ replicate 7 0) ! 1,
     Arg9 := (ms @ replicate 7 0) ! 2\<rparr>"

definition ex_register :: DIRECT_MSG_ARGS_EX where
  "ex_register = notif_request 2 0x1111 0x2222 0x8001 [mapping_word 7 3 True]"

definition ex_unregister :: DIRECT_MSG_ARGS_EX where
  "ex_unregister = notif_request 3 0x1111 0x2222 0x8001 [mapping_word 7 3 True]"

definition ex_state :: notif_state where
  "ex_state = (case NotificationServiceHandle (Some ex_register) (Some msg_zero) NotificationServiceInit of
     Inr (_, st) \<Rightarrow> st | Inl _ \<Rightarrow> NotificationServiceInit)"

lemma ex_state_step: "notif_step NotificationServiceInit ex_state"
proof -
  have "NotificationServiceHandle (Some ex_register) (Some msg_zero) NotificationServiceInit =
      Inr (Some (msg_zero\<lparr>Arg3 := 0x1111, Arg4 := 0x2222, Arg5 := 0x102\<rparr>), ex_state)"
    by code_simp
  then show ?thesis unfolding notif_step_def by blast
qed

lemma ex_state_reachable: "reachable (\<lambda>st. st = NotificationServiceInit) notif_step ex_state"
  by (rule reach_step[where s = NotificationServiceInit]) (auto intro: reach_start ex_state_step)

lemma ex_state_inv: "notif_inv ex_state"
  by (rule notif.invar_reachable[OF ex_state_reachable])

section \<open>Safety of every reachable table\<close>

text \<open>
  C10. In every state the service can reach from initialisation by any sequence of
  messages, no two mappings in use anywhere in the table have the same notification
  identifier.
\<close>

theorem notif_ids_unique:
  assumes "reachable (\<lambda>st. st = NotificationServiceInit) notif_step st"
    and "used st i j" and "used st i' j'"
    and "NI_Id (entry st i j) = NI_Id (entry st i' j')"
  shows "i = i' \<and> j = j'"
  using notif.invar_reachable[OF assms(1)] assms(2-4)
  by (auto simp: notif_inv_def ids_distinct_def)

theorem notif_ids_unique_witness: "used ex_state 0 0 \<and> (0::nat) = 0 \<and> (0::nat) = 0"
proof -
  have u: "used ex_state 0 0" by code_simp
  show ?thesis using notif_ids_unique[OF ex_state_reachable u u] u by simp
qed

text \<open>
  C40. The table is well typed in every reachable state: it has the declared number of services,
  each with a 16 byte UUID and the declared number of mappings; a mapping that is not in use is
  cleared, the cookies in use within a service are distinct, and every identifier in use can be
  shifted into the mask.
\<close>

theorem notif_table_typed:
  assumes "reachable (\<lambda>st. st = NotificationServiceInit) notif_step st"
  shows "length (NotificationServices st) = NOTIFICATION_MAX_SERVICES \<and>
     list_all wf_service (NotificationServices st) \<and>
     list_all (\<lambda>sv. list_all (\<lambda>info. NI_InUse info \<longrightarrow> unat (NI_Id info) < 32) (NS_ServiceInfo sv)) (NotificationServices st)"
proof -
  have inv: "wf_table st" "ids_small st" using notif.invar_reachable[OF assms] by (simp_all add: notif_inv_def)
  then have "length (NS_ServiceInfo (NotificationServices st ! i)) = NOTIFICATION_MAX_MAPPINGS"
    if "i < NOTIFICATION_MAX_SERVICES" for i using that by (simp add: wf_table_def wf_service_def)
  with inv show ?thesis by (simp add: wf_table_def ids_small_def used_def entry_def list_all_length)
qed

theorem notif_table_typed_witness:
  "length (NotificationServices ex_state) = NOTIFICATION_MAX_SERVICES \<and>
   list_all wf_service (NotificationServices ex_state)"
  using notif_table_typed[OF ex_state_reachable] by blast

text \<open>
  C14. In every reachable state the global bitmask is exact: bit \<open>n\<close> is set exactly when some mapping
  in use carries the identifier \<open>min n 31\<close>. Each identifier below 31 has a bit of its own; the bits 31 to
  63 are all set exactly when identifier 31 is in use, since the code sign-extends its bit.
\<close>

theorem notif_bitmask_exact:
  assumes "reachable (\<lambda>st. st = NotificationServiceInit) notif_step st" and "n < 64"
  shows "bit (GlobalBitmask st) n \<longleftrightarrow>
     (\<exists>i j. used st i j \<and> unat (NI_Id (entry st i j)) = min n 31)"
  using notif.invar_reachable[OF assms(1)] assms(2)
  by (simp add: notif_inv_def bitmask_exact_def)

theorem notif_bitmask_exact_witness:
  "bit (GlobalBitmask ex_state) 3 \<and>
   (\<exists>i j. used ex_state i j \<and> unat (NI_Id (entry ex_state i j)) = min 3 31)"
proof -
  have "bit (GlobalBitmask ex_state) 3" by code_simp
  then show ?thesis using notif_bitmask_exact[OF ex_state_reachable, of 3] by simp
qed

section \<open>The update loop implements the registry\<close>

text \<open>
  On a table that satisfies the invariant, \<^verbatim>\<open>UpdateServiceInfo\<close> with one to seven
  mappings whose identifiers are below 32 returns, and its status, the identifiers taken
  in the table and the slot's cookie registry afterwards are those of the abstract update.
\<close>

theorem UpdateServiceInfo_refines_registry:
  assumes "notif_inv st" and "svc < NOTIFICATION_MAX_SERVICES"
    and "1 \<le> num_mappings req" and "num_mappings req \<le> 7"
    and "\<forall>m \<in> set (req_mappings req). unat (mapping_Id m) < 32"
  shows "\<exists>r st'. UpdateServiceInfo u (Some req) (Some svc) st = Inr (r, st') \<and>
     (r, taken_ids st', abs_service (NotificationServices st' ! svc)) =
       spec_update u (SourceId req) (take (num_mappings req) (req_mappings req))
         (taken_ids st) (abs_service (NotificationServices st ! svc))"
proof -
  have "\<forall>m \<in> set (take (num_mappings req) (req_mappings req)). unat (mapping_Id m) < 32"
    using assms(5) by (meson in_set_takeD)
  then show ?thesis
    using assms(3,4) update_loop_refines[OF assms(1,2), of u]
    by (simp add: UpdateServiceInfo_eq)
qed

theorem UpdateServiceInfo_refines_registry_witness:
  "\<exists>r st'. UpdateServiceInfo False (Some ex_register) (Some 0) NotificationServiceInit = Inr (r, st') \<and>
     (r, taken_ids st', abs_service (NotificationServices st' ! 0)) =
       spec_update False (SourceId ex_register)
         (take (num_mappings ex_register) (req_mappings ex_register))
         (taken_ids NotificationServiceInit) (abs_service (NotificationServices NotificationServiceInit ! 0))"
proof (rule UpdateServiceInfo_refines_registry[OF notif_inv_init])
  show "(0::nat) < NOTIFICATION_MAX_SERVICES" by code_simp
  show "1 \<le> num_mappings ex_register" by code_simp
  show "num_mappings ex_register \<le> 7" by code_simp
  show "\<forall>m \<in> set (req_mappings ex_register). unat (mapping_Id m) < 32" by code_simp
qed

text \<open>
  C16. Unregistering a mapping that was just registered restores the slot and the bitmask
  exactly.
\<close>

theorem register_unregister_roundtrip:
  assumes inv: "notif_inv st" and svc: "svc < NOTIFICATION_MAX_SERVICES"
    and reg: "register_mapping src m (NotificationServices st ! svc) (GlobalBitmask st) =
              Inr (NOTIFICATION_STATUS_SUCCESS, sv', gm')"
  shows "unregister_mapping src m sv' gm' =
         Inr (NOTIFICATION_STATUS_SUCCESS, NotificationServices st ! svc, GlobalBitmask st)"
proof -
  let ?sv = "NotificationServices st ! svc"
  from reg obtain b j where c: "IsMatchingCookie (mapping_Cookie m) (Some ?sv) = None"
    and b: "int_bit (mapping_Id m) = Inr b" and z: "GlobalBitmask st AND b = 0"
    and e: "find_empty_mapping ?sv = Some j"
    and sv': "sv' = set_info ?sv j (new_info src m)" and gm': "gm' = GlobalBitmask st OR b"
    by (rule register_mapping_successD)
  have wf: "wf_service ?sv" using inv svc by (simp add: notif_inv_def wf_table_def)
  note j = find_empty_SomeD[OF e]
  have jl: "j < length (NS_ServiceInfo ?sv)" and zero: "NS_ServiceInfo ?sv ! j = info_zero"
    using wf j by (auto simp: wf_service_def)
  have wf': "wf_service sv'" unfolding sv' using wf c e by (rule wf_service_register)
  have "IsMatchingCookie (mapping_Cookie m) (Some sv') = Some j"
    unfolding IsMatchingCookie_iff[OF wf'] using j jl by (simp add: sv')
  moreover have "(GlobalBitmask st OR b) AND NOT b = GlobalBitmask st"
  proof (rule bit_word_eqI)
    fix n assume "n < LENGTH(64)"
    have "\<not> bit (GlobalBitmask st AND b) n" using z by simp
    then show "bit ((GlobalBitmask st OR b) AND NOT b) n = bit (GlobalBitmask st) n"
      using \<open>n < LENGTH(64)\<close> by (auto simp: bit_simps)
  qed
  moreover have "(NS_ServiceInfo ?sv)[j := info_zero] = NS_ServiceInfo ?sv"
    using zero by (metis list_update_id)
  ultimately show ?thesis
    using b jl unfolding unregister_mapping_def gm'
    by (simp add: sv' set_info_def)
qed

theorem register_unregister_roundtrip_witness:
  "\<exists>sv' gm'. register_mapping 0x8001 (mapping_word 9 4 False) (NotificationServices ex_state ! 0)
       (GlobalBitmask ex_state) = Inr (NOTIFICATION_STATUS_SUCCESS, sv', gm') \<and>
     unregister_mapping 0x8001 (mapping_word 9 4 False) sv' gm' =
       Inr (NOTIFICATION_STATUS_SUCCESS, NotificationServices ex_state ! 0, GlobalBitmask ex_state)"
proof -
  have svc: "(0::nat) < NOTIFICATION_MAX_SERVICES" by code_simp
  have "\<exists>sv' gm'. register_mapping 0x8001 (mapping_word 9 4 False) (NotificationServices ex_state ! 0)
       (GlobalBitmask ex_state) = Inr (NOTIFICATION_STATUS_SUCCESS, sv', gm')"
  proof -
    have "(case register_mapping 0x8001 (mapping_word 9 4 False) (NotificationServices ex_state ! 0)
       (GlobalBitmask ex_state) of Inr (r, _, _) \<Rightarrow> r = NOTIFICATION_STATUS_SUCCESS | Inl _ \<Rightarrow> False)"
      by code_simp
    then show ?thesis by (auto split: sum.splits)
  qed
  with register_unregister_roundtrip[OF ex_state_inv svc] show ?thesis by blast
qed

section \<open>Every message is answered\<close>

text \<open>
  A message whose seven mapping words carry identifiers below 32 is always answered:
  the handler runs into no undefined behaviour, echoes the first four argument words, sets
  the response bit of the message-information word, returns one of the four status codes
  in the low byte of argument 6, and leaves the other response words as they were.
\<close>

theorem NotificationServiceHandle_answers:
  assumes "\<forall>m \<in> set (req_mappings req). unat (mapping_Id m) < 32"
  shows "\<exists>r st'. r \<in> {NOTIFICATION_STATUS_SUCCESS, NOTIFICATION_STATUS_INVALID_PARAMETER,
                       NOTIFICATION_STATUS_NO_MEM, NOTIFICATION_STATUS_NOT_SUPPORTED} \<and>
     NotificationServiceHandle (Some req) (Some resp) st =
       Inr (Some (resp\<lparr> Arg1 := Arg1 req, Arg2 := Arg2 req, Arg3 := Arg3 req, Arg4 := Arg4 req,
                        Arg5 := Arg5 req OR 0x100, Arg6 := ucast r AND 0xFF \<rparr>), st')"
proof -
  obtain r1 st1 r2 st2 where reg: "RegisterHandler req st = Inr (r1, st1)"
    and unreg: "UnregisterHandler req st = Inr (r2, st2)"
    using handlers_no_fault[OF assms] by (metis surj_pair)
  with handlers_status[of req st r1 st1] handlers_status[of req st r2 st2]
  have "r1 \<in> {NOTIFICATION_STATUS_SUCCESS, NOTIFICATION_STATUS_INVALID_PARAMETER, NOTIFICATION_STATUS_NO_MEM}"
    "r2 \<in> {NOTIFICATION_STATUS_SUCCESS, NOTIFICATION_STATUS_INVALID_PARAMETER, NOTIFICATION_STATUS_NO_MEM}"
    by blast+
  then show ?thesis
    by (simp add: NotificationServiceHandle_def Let_def reg unreg MESSAGE_INFO_DIR_RESP_def
        RETURN_STATUS_MASK_def) blast
qed

theorem NotificationServiceHandle_answers_witness:
  "\<exists>r st'. r \<in> {NOTIFICATION_STATUS_SUCCESS, NOTIFICATION_STATUS_INVALID_PARAMETER,
                NOTIFICATION_STATUS_NO_MEM, NOTIFICATION_STATUS_NOT_SUPPORTED} \<and>
     NotificationServiceHandle (Some ex_register) (Some msg_zero) ex_state =
       Inr (Some (msg_zero\<lparr> Arg1 := Arg1 ex_register, Arg2 := Arg2 ex_register, Arg3 := Arg3 ex_register,
                        Arg4 := Arg4 ex_register,
                        Arg5 := Arg5 ex_register OR 0x100, Arg6 := ucast r AND 0xFF \<rparr>), st')"
proof (rule NotificationServiceHandle_answers)
  show "\<forall>m \<in> set (req_mappings ex_register). unat (mapping_Id m) < 32" by code_simp
qed

section \<open>A failing request is not atomic\<close>

text \<open>
  Running the loop on a prefix that succeeds, and then on the rest from the table it left.
\<close>

lemma update_loop_append:
  assumes "svc < length (NotificationServices st)"
    and "update_loop u src svc ms (NotificationServices st ! svc) (GlobalBitmask st) st =
           Inr (NOTIFICATION_STATUS_SUCCESS, st1)"
  shows "update_loop u src svc (ms @ ns) (NotificationServices st ! svc) (GlobalBitmask st) st =
         update_loop u src svc ns (NotificationServices st1 ! svc) (GlobalBitmask st1) st1"
  using assms
proof (induction ms arbitrary: st)
  case Nil
  then show ?case by simp
next
  case (Cons m ms)
  from Cons.prems(2) show ?case
  proof (cases rule: update_loop_ConsE)
    case Error
    then show ?thesis by simp
  next
    case (Success sv' gm')
    with Cons.IH[of "put_service st svc sv' gm'"] Cons.prems(1) show ?thesis
      by (simp add: update_loop_Cons_success del: update_loop.simps)
  qed
qed

text \<open>
  C37. The copy back sits inside the loop, so a request that fails is applied up to the
  mapping that failed: if the mappings before it succeed and it is refused, the error is
  returned and the table stays as the earlier mappings left it.
\<close>

theorem update_loop_partial:
  assumes "svc < length (NotificationServices st)"
    and "update_loop u src svc ms (NotificationServices st ! svc) (GlobalBitmask st) st =
           Inr (NOTIFICATION_STATUS_SUCCESS, st1)"
    and "(if u then unregister_mapping else register_mapping) src m
           (NotificationServices st1 ! svc) (GlobalBitmask st1) = Inr (r, sv', gm')"
    and "r \<noteq> NOTIFICATION_STATUS_SUCCESS"
  shows "update_loop u src svc (ms @ m # ns) (NotificationServices st ! svc) (GlobalBitmask st) st =
         Inr (r, st1)"
  using update_loop_append[OF assms(1,2)] update_loop_Cons_error[OF assms(3,4)] by simp

definition ex_conflict :: DIRECT_MSG_ARGS_EX where
  "ex_conflict = notif_request 2 0x3333 0x4444 0x8002 [mapping_word 8 5 False, mapping_word 9 3 False]"

definition ex_partial :: notif_state where
  "ex_partial = (case update_loop False 0x8002 1 [mapping_word 8 5 False]
       (NotificationServices ex_state ! 1) (GlobalBitmask ex_state) ex_state of
     Inr (_, st) \<Rightarrow> st | Inl _ \<Rightarrow> ex_state)"

theorem update_loop_partial_witness:
  "update_loop False 0x8002 1 ([mapping_word 8 5 False] @ mapping_word 9 3 False # [])
     (NotificationServices ex_state ! 1) (GlobalBitmask ex_state) ex_state =
   Inr (NOTIFICATION_STATUS_INVALID_PARAMETER, ex_partial) \<and> ex_partial \<noteq> ex_state"
proof
  show "update_loop False 0x8002 1 ([mapping_word 8 5 False] @ mapping_word 9 3 False # [])
     (NotificationServices ex_state ! 1) (GlobalBitmask ex_state) ex_state =
   Inr (NOTIFICATION_STATUS_INVALID_PARAMETER, ex_partial)"
  proof (rule update_loop_partial)
    show "1 < length (NotificationServices ex_state)" by code_simp
    show "update_loop False 0x8002 1 [mapping_word 8 5 False]
        (NotificationServices ex_state ! 1) (GlobalBitmask ex_state) ex_state =
      Inr (NOTIFICATION_STATUS_SUCCESS, ex_partial)" by code_simp
    show "(if False then unregister_mapping else register_mapping) 0x8002 (mapping_word 9 3 False)
        (NotificationServices ex_partial ! 1) (GlobalBitmask ex_partial) =
      Inr (NOTIFICATION_STATUS_INVALID_PARAMETER, NotificationServices ex_partial ! 1,
           GlobalBitmask ex_partial)" by code_simp
    show "NOTIFICATION_STATUS_INVALID_PARAMETER \<noteq> NOTIFICATION_STATUS_SUCCESS" by code_simp
  qed
  show "ex_partial \<noteq> ex_state" by code_simp
qed

text \<open>
  A refused registration can leave a live mapping behind in a slot that no service
  owns: after the request below is answered with an error, mapping 0 of slot 1 is in use
  and its identifier is taken, but the slot itself is not in use.
\<close>

lemma failed_register_orphans_mapping:
  "\<exists>st'. RegisterHandler ex_conflict ex_state = Inr (NOTIFICATION_STATUS_INVALID_PARAMETER, st') \<and>
     used st' 1 0 \<and> bit (GlobalBitmask st') 5 \<and> \<not> NS_InUse (NotificationServices st' ! 1)"
proof -
  have "RegisterHandler ex_conflict ex_state = Inr (NOTIFICATION_STATUS_INVALID_PARAMETER, ex_partial)"
    "used ex_partial 1 0" "bit (GlobalBitmask ex_partial) 5"
    "\<not> NS_InUse (NotificationServices ex_partial ! 1)"
    by code_simp+
  then show ?thesis by blast
qed

section \<open>Service lookup and delivery\<close>

text \<open>
  Only the first eight UUID bytes take part in the lookup: two register requests whose
  high UUID words agree address the same slot whatever their low words are.
\<close>

lemma LocateService_ignores_low_word:
  "LocateService (NotificationServiceExtractUuid lo hi) e st =
   LocateService (NotificationServiceExtractUuid lo' hi) e st"
  by (simp add: LocateService_def NotificationServiceExtractUuid_def SIZEOF_UUID_POINTER_def)

text \<open>
  C17. On a table that satisfies the invariant, and for a service that is registered there, setting a
  notification by a nonzero cookie reaches the hypervisor exactly when the cookie is
  registered with the located service: then the call names the registering endpoint, the
  per-vCPU flag of the mapping and its identifier's bit, and the status reports whether
  the call succeeded; otherwise nothing is called and the request is refused.
\<close>

theorem NotificationServiceIdSet_delivers:
  assumes "notif_inv st" and "Cookie \<noteq> 0"
    and svc: "LocateService Uuid False st = Some svc"
  shows "NotificationServiceIdSet env Cookie (Some Uuid) Flag st s =
     (case IsMatchingCookie Cookie (Some (NotificationServices st ! svc)) of
        None \<Rightarrow> Inr (NOTIFICATION_STATUS_INVALID_PARAMETER, s)
      | Some j \<Rightarrow>
          (let (Status, s') = FfaNotificationSet env (NI_SourceId (entry st svc j))
                 (ucast (if NI_PerVcpu (entry st svc j) then Flag OR 1 else Flag))
                 (signed_take_bit 31 (push_bit (unat (NI_Id (entry st svc j))) 1)) s
           in Inr (if EFI_ERROR Status then NOTIFICATION_STATUS_INVALID_PARAMETER
                   else NOTIFICATION_STATUS_SUCCESS, s')))"
proof (cases "IsMatchingCookie Cookie (Some (NotificationServices st ! svc))")
  case None
  have "wf_service (NotificationServices st ! svc)"
    using assms(1) LocateService_SomeD(1)[OF svc] by (simp add: notif_inv_def wf_table_def)
  from id_set_search[OF this assms(2)] None show ?thesis
    by (simp add: NotificationServiceIdSet_def svc Let_def)
next
  case (Some j)
  note less = LocateService_SomeD(1)[OF svc]
  have "wf_service (NotificationServices st ! svc)"
    using assms(1) less by (simp add: notif_inv_def wf_table_def)
  note search = id_set_search[OF this assms(2)]
  have "used st svc j" using Some less by (auto simp: used_def entry_def dest: IsMatchingCookie_SomeD)
  then have "unat (NI_Id (entry st svc j)) < 32" using assms(1) by (auto simp: notif_inv_def ids_small_def)
  then have "int_bit (NI_Id (entry st svc j)) =
      Inr (signed_take_bit 31 (push_bit (unat (NI_Id (entry st svc j))) 1))"
    by (simp add: int_bit_def word_less_nat_alt)
  then show ?thesis
    by (simp add: NotificationServiceIdSet_def svc search Some Let_def entry_def PER_VCPU_BIT_POS_def
        split: prod.split)
qed

theorem NotificationServiceIdSet_delivers_witness:
  "NotificationServiceIdSet ex_env 7 (Some (NotificationServiceExtractUuid 0x1111 0x2222)) 0 ex_state (ex_ffa []) =
     (case IsMatchingCookie 7 (Some (NotificationServices ex_state ! 0)) of
        None \<Rightarrow> Inr (NOTIFICATION_STATUS_INVALID_PARAMETER, ex_ffa [])
      | Some j \<Rightarrow>
          (let (Status, s') = FfaNotificationSet ex_env (NI_SourceId (entry ex_state 0 j))
                 (ucast (if NI_PerVcpu (entry ex_state 0 j) then (0::UINT32) OR 1 else 0))
                 (signed_take_bit 31 (push_bit (unat (NI_Id (entry ex_state 0 j))) 1)) (ex_ffa [])
           in Inr (if EFI_ERROR Status then NOTIFICATION_STATUS_INVALID_PARAMETER
                   else NOTIFICATION_STATUS_SUCCESS, s'))) \<and>
   IsMatchingCookie 7 (Some (NotificationServices ex_state ! 0)) = Some 0"
proof
  show "IsMatchingCookie 7 (Some (NotificationServices ex_state ! 0)) = Some 0" by code_simp
  have "LocateService (NotificationServiceExtractUuid 0x1111 0x2222) False ex_state = Some 0"
    by code_simp
  from NotificationServiceIdSet_delivers[OF ex_state_inv _ this, of 7 ex_env 0 "ex_ffa []"]
  show "NotificationServiceIdSet ex_env 7 (Some (NotificationServiceExtractUuid 0x1111 0x2222)) 0 ex_state (ex_ffa []) =
     (case IsMatchingCookie 7 (Some (NotificationServices ex_state ! 0)) of
        None \<Rightarrow> Inr (NOTIFICATION_STATUS_INVALID_PARAMETER, ex_ffa [])
      | Some j \<Rightarrow>
          (let (Status, s') = FfaNotificationSet ex_env (NI_SourceId (entry ex_state 0 j))
                 (ucast (if NI_PerVcpu (entry ex_state 0 j) then (0::UINT32) OR 1 else 0))
                 (signed_take_bit 31 (push_bit (unat (NI_Id (entry ex_state 0 j))) 1)) (ex_ffa [])
           in Inr (if EFI_ERROR Status then NOTIFICATION_STATUS_INVALID_PARAMETER
                   else NOTIFICATION_STATUS_SUCCESS, s')))" by simp
qed

text \<open>
  The search of \<^verbatim>\<open>NotificationServiceIdSet\<close> does not look at \<^verbatim>\<open>InUse\<close>: cookie 0 matches an
  unused mapping, so after one registration under cookie 7 setting cookie 0 reports success
  and asks the SPMC to set bit 0 at endpoint 0, which nobody registered.
\<close>

lemma IdSet_cookie_zero_spurious:
  "IsMatchingCookie 0 (Some (NotificationServices ex_state ! 0)) = None \<and>
   (\<exists>s'. NotificationServiceIdSet ex_env 0 (Some (NotificationServiceExtractUuid 0x1111 0x2222)) 0
           ex_state (ex_ffa []) = Inr (NOTIFICATION_STATUS_SUCCESS, s') \<and>
         snd (world s') = [sxc_zero\<lparr>X0 := 0x84000081, X1 := 0x80020000, X3 := 1\<rparr>])"
proof -
  let ?s = "\<lparr>mPartitionId = 0x8002,
     world = ([], [sxc_zero\<lparr>X0 := 0x84000081, X1 := 0x80020000, X3 := 1\<rparr>])\<rparr> :: script ffa_state"
  have "NotificationServiceIdSet ex_env 0 (Some (NotificationServiceExtractUuid 0x1111 0x2222)) 0
     ex_state (ex_ffa []) = Inr (NOTIFICATION_STATUS_SUCCESS, ?s)" by code_simp
  moreover have "IsMatchingCookie 0 (Some (NotificationServices ex_state ! 0)) = None" by code_simp
  ultimately show ?thesis by auto
qed

end
