(* ===== verification/NotificationContract.thy ===== *)
theory NotificationContract
  imports NotificationProperties
begin

text \<open>
  What the notification service promises its clients, message by message. The abstract
  table is the list of the slots, each with the first eight bytes of the UUID that owns it
  (or none) and its cookie registry; one request is a function on it. The handler, with its
  bitmask, its arrays and its temporaries, implements that function.
\<close>

section \<open>The abstract table\<close>

type_synonym slots = "(UINT8 list option \<times> registry) list"

definition abs_slot :: "NotifService \<Rightarrow> UINT8 list option \<times> registry" where
  "abs_slot sv = (if NS_InUse sv then Some (take 8 (NS_ServiceUuid sv)) else None, abs_service sv)"

definition abs_table :: "notif_state \<Rightarrow> slots" where
  "abs_table st = map abs_slot (NotificationServices st)"

definition owner_slot :: "UINT8 list \<Rightarrow> slots \<Rightarrow> nat option" where
  "owner_slot key T = first_index (\<lambda>i. fst (T ! i) = Some key) (length T)"

definition free_slot :: "slots \<Rightarrow> nat option" where
  "free_slot T = first_index (\<lambda>i. fst (T ! i) = None) (length T)"

text \<open>The identifiers that some registry of the table maps a cookie to.\<close>

definition claimed :: "slots \<Rightarrow> UINT16 set" where
  "claimed T = {i. \<exists>k < length T. \<exists>c v src. snd (T ! k) c = Some (i, v, src)}"

text \<open>The mappings a request carries, and the key its UUID words select.\<close>

definition request_mappings :: "DIRECT_MSG_ARGS_EX \<Rightarrow> UINTN list" where
  "request_mappings req = take (num_mappings req) (req_mappings req)"

definition request_key :: "DIRECT_MSG_ARGS_EX \<Rightarrow> UINT8 list" where
  "request_key req = take 8 (NotificationServiceExtractUuid (Arg3 req) (Arg4 req))"

text \<open>
  A request on slot \<open>k\<close>: a count outside one to seven is refused, otherwise the mappings are
  applied in order up to the first that is refused. A register request that succeeds makes
  the slot the key's.
\<close>

definition spec_slot :: "bool \<Rightarrow> DIRECT_MSG_ARGS_EX \<Rightarrow> nat \<Rightarrow> slots \<Rightarrow> NotificationStatus \<times> slots" where
  "spec_slot u req k T =
     (if num_mappings req < 1 \<or> 7 < num_mappings req then (NOTIFICATION_STATUS_INVALID_PARAMETER, T)
      else case spec_update u (SourceId req) (request_mappings req) (claimed T) (snd (T ! k)) of
        (r, _, reg) \<Rightarrow> (r, T[k := (fst (T ! k), reg)]))"

definition spec_register_message :: "DIRECT_MSG_ARGS_EX \<Rightarrow> slots \<Rightarrow> NotificationStatus \<times> slots" where
  "spec_register_message req T =
     (case (case owner_slot (request_key req) T of Some k \<Rightarrow> Some k | None \<Rightarrow> free_slot T) of
        None \<Rightarrow> (NOTIFICATION_STATUS_NO_MEM, T)
      | Some k \<Rightarrow>
          (case spec_slot False req k T of
             (r, T') \<Rightarrow> (r, if r = NOTIFICATION_STATUS_SUCCESS
                            then T'[k := (Some (request_key req), snd (T' ! k))] else T')))"

definition spec_unregister_message :: "DIRECT_MSG_ARGS_EX \<Rightarrow> slots \<Rightarrow> NotificationStatus \<times> slots" where
  "spec_unregister_message req T =
     (case owner_slot (request_key req) T of
        None \<Rightarrow> (NOTIFICATION_STATUS_INVALID_PARAMETER, T)
      | Some k \<Rightarrow> spec_slot True req k T)"

definition spec_message :: "DIRECT_MSG_ARGS_EX \<Rightarrow> slots \<Rightarrow> NotificationStatus \<times> slots" where
  "spec_message req T =
     (if Arg5 req AND 3 = 2 then spec_register_message req T
      else if Arg5 req AND 3 = 3 then spec_unregister_message req T
      else (NOTIFICATION_STATUS_NOT_SUPPORTED, T))"

lemma and_three: "x AND 3 \<in> {0, 1, 2, 3 :: UINT64}"
proof -
  have "x AND 3 \<le> 3" by (rule word_and_le1)
  then have "unat (x AND 3) \<le> 3" by (simp add: word_le_nat_alt)
  then have "unat (x AND 3) = 0 \<or> unat (x AND 3) = 1 \<or> unat (x AND 3) = 2 \<or> unat (x AND 3) = 3" by linarith
  then show ?thesis by (auto simp: word_unat_eq_iff)
qed

section \<open>The handler implements it\<close>

lemma abs_table_sel [simp]:
  "length (abs_table st) = length (NotificationServices st)"
  "k < length (NotificationServices st) \<Longrightarrow> abs_table st ! k = abs_slot (NotificationServices st ! k)"
  by (simp_all add: abs_table_def)

lemma LocateService_abs:
  assumes "length (NotificationServices st) = NOTIFICATION_MAX_SERVICES"
  shows "LocateService Uuid False st = owner_slot (take 8 Uuid) (abs_table st)"
    and "LocateService Uuid True st = free_slot (abs_table st)"
  using assms unfolding LocateService_def owner_slot_def free_slot_def abs_table_sel
  by (auto simp: Let_def abs_slot_def SIZEOF_UUID_POINTER_def intro!: first_index_cong split: if_splits)

lemma abs_service_ids:
  assumes "wf_table st" and "k < NOTIFICATION_MAX_SERVICES"
  shows "(\<exists>c v src. abs_service (NotificationServices st ! k) c = Some (i, v, src)) \<longleftrightarrow>
         (\<exists>j. used st k j \<and> NI_Id (entry st k j) = i)"
proof -
  note match = IsMatchingCookie_iff[OF wf_tableD(2)[OF assms]]
  show ?thesis
  proof
    assume "\<exists>c v src. abs_service (NotificationServices st ! k) c = Some (i, v, src)"
    then obtain c j where "IsMatchingCookie c (Some (NotificationServices st ! k)) = Some j"
      "NI_Id (NS_ServiceInfo (NotificationServices st ! k) ! j) = i"
      by (auto simp: abs_service_def split: option.splits)
    then show "\<exists>j. used st k j \<and> NI_Id (entry st k j) = i"
      using assms(2) by (auto simp: match used_def entry_def)
  next
    assume "\<exists>j. used st k j \<and> NI_Id (entry st k j) = i"
    then obtain j where "IsMatchingCookie (NI_Cookie (entry st k j)) (Some (NotificationServices st ! k)) = Some j"
      "NI_Id (entry st k j) = i"
      by (auto simp: match used_def entry_def)
    then have "abs_service (NotificationServices st ! k) (NI_Cookie (entry st k j)) =
        Some (i, NI_PerVcpu (entry st k j), NI_SourceId (entry st k j))"
      by (simp add: abs_service_def entry_def)
    then show "\<exists>c v src. abs_service (NotificationServices st ! k) c = Some (i, v, src)" by blast
  qed
qed

lemma claimed_abs:
  assumes "wf_table st"
  shows "claimed (abs_table st) = taken_ids st"
proof -
  have len: "length (NotificationServices st) = NOTIFICATION_MAX_SERVICES"
    using assms by (simp add: wf_table_def)
  have "claimed (abs_table st) =
      {i. \<exists>k < NOTIFICATION_MAX_SERVICES. \<exists>j. used st k j \<and> NI_Id (entry st k j) = i}"
    unfolding claimed_def abs_table_sel len
    using abs_service_ids[OF assms] by (intro Collect_cong) (simp add: len abs_slot_def cong: conj_cong)
  also have "\<dots> = taken_ids st"
    by (auto simp: taken_ids_def used_def)
  finally show ?thesis .
qed

text \<open>An update of slot \<open>svc\<close> replaces its registry and keeps every owner and every other slot.\<close>

lemma abs_table_update:
  assumes "svc < length (NotificationServices st)"
    and "update_loop u src svc ms (NotificationServices st ! svc) (GlobalBitmask st) st = Inr (r, st')"
  shows "abs_table st' = (abs_table st)
     [svc := (fst (abs_table st ! svc), abs_service (NotificationServices st' ! svc))]"
  using update_loop_frame[OF assms] assms(1)
  by (intro nth_equalityI) (auto simp: abs_slot_def nth_list_update)

lemma abs_service_named [simp]:
  "abs_service (sv\<lparr>NS_ServiceUuid := Uuid, NS_InUse := f\<rparr>) = abs_service sv"
  by (simp add: fun_eq_iff abs_service_def IsMatchingCookie_def split: option.split)

lemma rename_slot_nth:
  assumes "svc < length (NotificationServices st)"
  shows "NotificationServices (rename_slot Uuid svc st) ! k =
     (if k = svc then (NotificationServices st ! svc)\<lparr>NS_ServiceUuid := Uuid, NS_InUse := True\<rparr>
      else NotificationServices st ! k)"
  using assms by (simp add: rename_slot_def nth_list_update)

lemma abs_table_rename:
  assumes "svc < length (NotificationServices st)"
  shows "abs_table (rename_slot Uuid svc st) =
     (abs_table st)[svc := (Some (take 8 Uuid), snd (abs_table st ! svc))]"
proof -
  have "length (NotificationServices (rename_slot Uuid svc st)) = length (NotificationServices st)"
    by (simp add: rename_slot_def)
  then show ?thesis
    using assms by (intro nth_equalityI) (auto simp: rename_slot_nth abs_slot_def nth_list_update)
qed

lemma UpdateServiceInfo_abs:
  assumes inv: "notif_inv st" and svc: "svc < NOTIFICATION_MAX_SERVICES"
    and ids: "\<forall>m \<in> set (request_mappings req). unat (mapping_Id m) < 32"
  obtains r st' where "UpdateServiceInfo u (Some req) (Some svc) st = Inr (r, st')"
    "length (NotificationServices st') = NOTIFICATION_MAX_SERVICES"
    "NS_InUse (NotificationServices st' ! svc) = NS_InUse (NotificationServices st ! svc)"
    "NS_ServiceUuid (NotificationServices st' ! svc) = NS_ServiceUuid (NotificationServices st ! svc)"
    "spec_slot u req svc (abs_table st) = (r, abs_table st')"
proof (cases "1 \<le> num_mappings req \<and> num_mappings req \<le> 7")
  case False
  show ?thesis
    by (rule that[of NOTIFICATION_STATUS_INVALID_PARAMETER st])
      (use False inv in \<open>auto simp: UpdateServiceInfo_eq spec_slot_def\<close>)
next
  case True
  have len: "svc < length (NotificationServices st)" using inv svc by simp
  have wf: "wf_table st" using inv by (simp add: notif_inv_def)
  from update_loop_refines[OF inv svc, of u "request_mappings req" "SourceId req"] ids
  obtain r st' where run: "update_loop u (SourceId req) svc (request_mappings req)
      (NotificationServices st ! svc) (GlobalBitmask st) st = Inr (r, st')"
    and spec: "(r, taken_ids st', abs_service (NotificationServices st' ! svc)) =
       spec_update u (SourceId req) (request_mappings req) (taken_ids st)
         (abs_service (NotificationServices st ! svc))" by auto
  note fr = update_loop_frame[OF len run] and tab = abs_table_update[OF len run]
  show ?thesis
  proof (rule that)
    show "UpdateServiceInfo u (Some req) (Some svc) st = Inr (r, st')"
      using True run by (simp add: UpdateServiceInfo_eq request_mappings_def)
    show "spec_slot u req svc (abs_table st) = (r, abs_table st')"
      using True tab len spec[symmetric] by (simp add: spec_slot_def claimed_abs[OF wf] abs_slot_def)
  qed (use fr inv in auto)
qed

lemma rename_owned:
  assumes "k < length T" and "fst (T ! k) = Some key"
  shows "T[k := (Some key, snd (T ! k))] = T"
  using assms by (metis list_update_id prod.collapse)

lemma RegisterHandler_abs:
  assumes inv: "notif_inv st" and ids: "\<forall>m \<in> set (request_mappings req). unat (mapping_Id m) < 32"
  obtains r st' where "RegisterHandler req st = Inr (r, st')"
    "spec_register_message req (abs_table st) = (r, abs_table st')"
proof -
  let ?U = "NotificationServiceExtractUuid (Arg3 req) (Arg4 req)"
  have slot: "register_slot req st =
      (case owner_slot (request_key req) (abs_table st) of Some k \<Rightarrow> Some k | None \<Rightarrow> free_slot (abs_table st))"
    using inv by (simp add: register_slot_def Let_def LocateService_abs request_key_def cong: option.case_cong)
  show ?thesis
  proof (cases "register_slot req st")
    case None
    with slot that show ?thesis by (simp add: RegisterHandler_eq spec_register_message_def)
  next
    case (Some svc)
    obtain r st' where u: "UpdateServiceInfo False (Some req) (Some svc) st = Inr (r, st')"
      and len: "length (NotificationServices st') = NOTIFICATION_MAX_SERVICES"
      and fr: "NS_InUse (NotificationServices st' ! svc) = NS_InUse (NotificationServices st ! svc)"
        "NS_ServiceUuid (NotificationServices st' ! svc) = NS_ServiceUuid (NotificationServices st ! svc)"
      and spec: "spec_slot False req svc (abs_table st) = (r, abs_table st')"
      by (rule UpdateServiceInfo_abs[OF inv register_slot_less[OF Some] ids])
    have svc: "svc < length (NotificationServices st')" using register_slot_less[OF Some] len by simp
    have owned: "(abs_table st')[svc := (Some (request_key req), snd (abs_table st' ! svc))] = abs_table st'"
      if "NS_InUse (NotificationServices st' ! svc)"
    proof (rule rename_owned)
      have "take 8 ?U = take 8 (NS_ServiceUuid (NotificationServices st ! svc))"
        using Some that fr by (auto simp: register_slot_def Let_def dest: LocateService_SomeD split: option.splits)
      then show "fst (abs_table st' ! svc) = Some (request_key req)"
        using svc that fr by (simp add: abs_slot_def request_key_def)
    qed (use svc in simp)
    show ?thesis
      by (rule that)
        (use u spec owned svc in \<open>auto simp: RegisterHandler_eq Some spec_register_message_def
           slot[symmetric] abs_table_rename request_key_def[symmetric]\<close>)
  qed
qed

lemma UnregisterHandler_abs:
  assumes inv: "notif_inv st" and ids: "\<forall>m \<in> set (request_mappings req). unat (mapping_Id m) < 32"
  obtains r st' where "UnregisterHandler req st = Inr (r, st')"
    "spec_unregister_message req (abs_table st) = (r, abs_table st')"
proof -
  have slot: "LocateService (NotificationServiceExtractUuid (Arg3 req) (Arg4 req)) False st =
      owner_slot (request_key req) (abs_table st)"
    using inv by (simp add: LocateService_abs request_key_def)
  show ?thesis
  proof (cases "owner_slot (request_key req) (abs_table st)")
    case None
    with slot that show ?thesis by (simp add: UnregisterHandler_def spec_unregister_message_def)
  next
    case (Some svc)
    then have "svc < NOTIFICATION_MAX_SERVICES" using slot by (auto dest: LocateService_SomeD)
    from UpdateServiceInfo_abs[OF inv this ids, of True] Some slot that show ?thesis
      by (simp add: UnregisterHandler_def spec_unregister_message_def) blast
  qed
qed

text \<open>The two low bits of the message-information word select the handler.\<close>

lemma handle_eq:
  "NotificationServiceHandle (Some req) (Some resp) st =
     bind_result
       (if Arg5 req AND 3 = 2 then RegisterHandler req st
        else if Arg5 req AND 3 = 3 then UnregisterHandler req st
        else Inr (NOTIFICATION_STATUS_NOT_SUPPORTED, st))
       (\<lambda>(r, st'). Inr (Some (resp\<lparr> Arg1 := Arg1 req, Arg2 := Arg2 req, Arg3 := Arg3 req, Arg4 := Arg4 req,
                        Arg5 := Arg5 req OR 0x100, Arg6 := ucast r AND 0xFF \<rparr>), st'))"
  using and_three[of "Arg5 req"]
  unfolding NotificationServiceHandle_def option.case prod.case Let_def notif_opcode_defs
    MESSAGE_INFO_ID_MASK_def MESSAGE_INFO_DIR_RESP_def RETURN_STATUS_MASK_def
  by (elim insertE) simp_all

text \<open>One message with the response buffer it is answered into, and what the answer must be.\<close>

definition notif_answer :: "DIRECT_MSG_ARGS_EX \<times> DIRECT_MSG_ARGS_EX \<Rightarrow> notif_state \<Rightarrow>
    (DIRECT_MSG_ARGS_EX option \<times> notif_state) result" where
  "notif_answer m st = NotificationServiceHandle (Some (fst m)) (Some (snd m)) st"

definition spec_answer :: "DIRECT_MSG_ARGS_EX \<times> DIRECT_MSG_ARGS_EX \<Rightarrow> slots \<Rightarrow>
    DIRECT_MSG_ARGS_EX option \<times> slots" where
  "spec_answer m T =
     (case (m, spec_message (fst m) T) of
        ((req, resp), (r, T')) \<Rightarrow>
          (Some (resp\<lparr> Arg1 := Arg1 req, Arg2 := Arg2 req, Arg3 := Arg3 req, Arg4 := Arg4 req,
                       Arg5 := Arg5 req OR 0x100, Arg6 := ucast r AND 0xFF \<rparr>), T'))"

text \<open>The identifiers of the mappings that take part in the request are below 32.\<close>

definition ids_fit :: "DIRECT_MSG_ARGS_EX \<times> DIRECT_MSG_ARGS_EX \<Rightarrow> bool" where
  "ids_fit m \<longleftrightarrow> (\<forall>w \<in> set (request_mappings (fst m)). unat (mapping_Id w) < 32)"

lemma notif_answer_refines:
  assumes inv: "notif_inv st" and "ids_fit m"
  shows "\<exists>a st'. notif_answer m st = Inr (a, st') \<and> notif_inv st' \<and>
     spec_answer m (abs_table st) = (a, abs_table st')"
proof -
  let ?req = "fst m"
  have ids: "\<forall>w \<in> set (request_mappings ?req). unat (mapping_Id w) < 32" using assms(2) by (simp add: ids_fit_def)
  obtain r1 st1 where reg: "RegisterHandler ?req st = Inr (r1, st1)"
    "spec_register_message ?req (abs_table st) = (r1, abs_table st1)"
    by (rule RegisterHandler_abs[OF inv ids])
  obtain r2 st2 where unreg: "UnregisterHandler ?req st = Inr (r2, st2)"
    "spec_unregister_message ?req (abs_table st) = (r2, abs_table st2)"
    by (rule UnregisterHandler_abs[OF inv ids])
  have "\<exists>a st'. notif_answer m st = Inr (a, st') \<and> spec_answer m (abs_table st) = (a, abs_table st')"
    using reg unreg
    by (auto simp: notif_answer_def handle_eq spec_answer_def spec_message_def split: prod.split)
  then show ?thesis
    using NotificationServiceHandle_inv[OF inv] unfolding notif_answer_def by blast
qed

interpretation notif_service: service_refinement notif_answer spec_answer abs_table notif_inv ids_fit
  by unfold_locales (rule notif_answer_refines)

text \<open>
  C2. The notification service refines the abstract table: from every reachable table, a
  sequence of messages whose mappings carry identifiers below 32 is handled without undefined
  behaviour, every reply is the one of the abstract table at that point (its status, the
  request's first four argument words and the response bit, the other words as they were), and
  the table ends as the abstract messages leave it.
\<close>

theorem NotificationServiceHandle_refines:
  assumes "reachable (\<lambda>st. st = NotificationServiceInit) notif_step st" and "list_all ids_fit ms"
  shows "\<exists>rs st'. run_all notif_answer ms st = Inr (rs, st') \<and>
     spec_all spec_answer ms (abs_table st) = (rs, abs_table st')"
  using notif_service.run_refines[OF notif.invar_reachable[OF assms(1)] assms(2)] by blast

definition ex_messages :: "(DIRECT_MSG_ARGS_EX \<times> DIRECT_MSG_ARGS_EX) list" where
  "ex_messages = [(ex_conflict, msg_zero), (ex_unregister, msg_zero), (ex_conflict, msg_zero)]"

text \<open>
  The conflicting request is refused, the identifier it wants is released, and it is refused
  again: its first mapping is still there.
\<close>

theorem NotificationServiceHandle_refines_witness:
  "\<exists>rs st'. run_all notif_answer ex_messages ex_state = Inr (rs, st') \<and>
     spec_all spec_answer ex_messages (abs_table ex_state) = (rs, abs_table st') \<and>
     map (\<lambda>a. map_option Arg6 a) rs = [Some 0xFE, Some 0, Some 0xFE]"
proof -
  have "list_all ids_fit ex_messages" by code_simp
  from NotificationServiceHandle_refines[OF ex_state_reachable this] obtain rs st' where
    run: "run_all notif_answer ex_messages ex_state = Inr (rs, st')"
    and spec: "spec_all spec_answer ex_messages (abs_table ex_state) = (rs, abs_table st')" by blast
  have "(case run_all notif_answer ex_messages ex_state of
      Inr (rs, _) \<Rightarrow> map (\<lambda>a. map_option Arg6 a) rs = [Some 0xFE, Some 0, Some 0xFE] | Inl _ \<Rightarrow> False)"
    by code_simp
  with run spec show ?thesis by auto
qed

section \<open>Endpoints do not disturb each other\<close>

text \<open>What a cookie of the service with this UUID maps to, as a client can observe it.\<close>

definition registered :: "notif_state \<Rightarrow> UINT8 list \<Rightarrow> registry" where
  "registered st Uuid = (case LocateService Uuid False st of
     None \<Rightarrow> Map.empty | Some svc \<Rightarrow> abs_service (NotificationServices st ! svc))"

lemma mapping_keeps_others:
  assumes wf: "wf_service sv"
    and run: "(if u then unregister_mapping else register_mapping) src m sv gm =
           Inr (NOTIFICATION_STATUS_SUCCESS, sv', gm')"
    and old: "abs_service sv c = Some (i, v, s)" and s: "s \<noteq> src"
  shows "abs_service sv' c = Some (i, v, s)"
proof (cases u)
  case True
  with run obtain b j where j: "IsMatchingCookie (mapping_Cookie m) (Some sv) = Some j"
    "NI_SourceId (NS_ServiceInfo sv ! j) = src" and sv': "sv' = set_info sv j info_zero"
    by (auto elim: unregister_mapping_successD)
  have "c \<noteq> mapping_Cookie m" using j old s by (auto simp: abs_service_def)
  with old show ?thesis by (simp add: sv' abs_service_unregister[OF wf j(1)])
next
  case False
  with run obtain b j where n: "IsMatchingCookie (mapping_Cookie m) (Some sv) = None"
    and e: "find_empty_mapping sv = Some j" and sv': "sv' = set_info sv j (new_info src m)"
    by (auto elim: register_mapping_successD)
  have "c \<noteq> mapping_Cookie m" using n old by (auto simp: abs_service_def)
  with old show ?thesis by (simp add: sv' abs_service_register[OF wf n e])
qed

lemma update_loop_keeps_others:
  assumes "notif_inv st" and "svc < NOTIFICATION_MAX_SERVICES"
    and "update_loop u src svc ms (NotificationServices st ! svc) (GlobalBitmask st) st = Inr (r, st')"
    and "abs_service (NotificationServices st ! k) c = Some (i, v, s)" and "s \<noteq> src"
  shows "abs_service (NotificationServices st' ! k) c = Some (i, v, s)"
  using assms
proof (induction ms arbitrary: st)
  case Nil
  then show ?case by simp
next
  case (Cons m ms)
  from Cons.prems(3) show ?case
  proof (cases rule: update_loop_ConsE)
    case Error
    with Cons.prems show ?thesis by simp
  next
    case (Success sv' gm')
    let ?st1 = "put_service st svc sv' gm'"
    have inv1: "notif_inv ?st1" using Cons.prems(1,2) Success(1) by (rule notif_inv_step)
    have "wf_service (NotificationServices st ! svc)"
      using Cons.prems(1,2) by (simp add: notif_inv_def wf_table_def)
    from mapping_keeps_others[OF this Success(1)] Cons.prems
    have keep: "abs_service (NotificationServices ?st1 ! k) c = Some (i, v, s)"
      by (cases "k = svc") simp_all
    have "NotificationServices ?st1 ! svc = sv'" using Cons.prems by simp
    with Cons.IH[OF inv1 Cons.prems(2) _ keep Cons.prems(5)] Success(2) show ?thesis by simp
  qed
qed

text \<open>A lookup finds the same slot as long as no slot newly in use takes its key.\<close>

lemma LocateService_stable:
  assumes "\<And>k. k < NOTIFICATION_MAX_SERVICES \<Longrightarrow> NS_InUse (NotificationServices st ! k) \<Longrightarrow>
      NS_InUse (NotificationServices st' ! k) \<and>
      NS_ServiceUuid (NotificationServices st' ! k) = NS_ServiceUuid (NotificationServices st ! k)"
    and "\<And>k. k < NOTIFICATION_MAX_SERVICES \<Longrightarrow> \<not> NS_InUse (NotificationServices st ! k) \<Longrightarrow>
      NS_InUse (NotificationServices st' ! k) \<Longrightarrow>
      take 8 (NS_ServiceUuid (NotificationServices st' ! k)) \<noteq> take 8 Uuid"
  shows "LocateService Uuid False st' = LocateService Uuid False st"
  unfolding LocateService_def
proof (rule first_index_cong)
  fix k assume k: "k < NOTIFICATION_MAX_SERVICES"
  show "(let sv = NotificationServices st' ! k in
      \<not> False \<and> NS_InUse sv \<and> take SIZEOF_UUID_POINTER Uuid = take SIZEOF_UUID_POINTER (NS_ServiceUuid sv) \<or>
      False \<and> \<not> NS_InUse sv) =
    (let sv = NotificationServices st ! k in
      \<not> False \<and> NS_InUse sv \<and> take SIZEOF_UUID_POINTER Uuid = take SIZEOF_UUID_POINTER (NS_ServiceUuid sv) \<or>
      False \<and> \<not> NS_InUse sv)"
    using assms(1)[OF k] assms(2)[OF k]
    by (cases "NS_InUse (NotificationServices st ! k)") (auto simp: SIZEOF_UUID_POINTER_def Let_def)
qed

lemma registered_Some:
  "registered st Uuid c = Some x \<longleftrightarrow>
     (\<exists>svc. LocateService Uuid False st = Some svc \<and> abs_service (NotificationServices st ! svc) c = Some x)"
  by (simp add: registered_def split: option.split)

lemma UpdateServiceInfo_keeps_others:
  assumes inv: "notif_inv st" and svc: "svc < NOTIFICATION_MAX_SERVICES"
    and run: "UpdateServiceInfo u (Some req) (Some svc) st = Inr (r, st')"
  shows "abs_service (NotificationServices st ! k) c = Some (i, v, s) \<Longrightarrow> s \<noteq> SourceId req \<Longrightarrow>
         abs_service (NotificationServices st' ! k) c = Some (i, v, s)"
    and "NS_InUse (NotificationServices st' ! k) = NS_InUse (NotificationServices st ! k)"
    and "NS_ServiceUuid (NotificationServices st' ! k) = NS_ServiceUuid (NotificationServices st ! k)"
    and "length (NotificationServices st') = NOTIFICATION_MAX_SERVICES"
proof -
  have len: "svc < length (NotificationServices st)" using inv svc by simp
  from run consider "st' = st" | "update_loop u (SourceId req) svc (request_mappings req)
      (NotificationServices st ! svc) (GlobalBitmask st) st = Inr (r, st')"
    by (auto simp: UpdateServiceInfo_eq request_mappings_def split: if_splits)
  note cases = this
  show "abs_service (NotificationServices st' ! k) c = Some (i, v, s)"
    if "abs_service (NotificationServices st ! k) c = Some (i, v, s)" "s \<noteq> SourceId req"
    using cases by cases (use that inv svc update_loop_keeps_others in blast)+
  show "NS_InUse (NotificationServices st' ! k) = NS_InUse (NotificationServices st ! k)"
    "NS_ServiceUuid (NotificationServices st' ! k) = NS_ServiceUuid (NotificationServices st ! k)"
    "length (NotificationServices st') = NOTIFICATION_MAX_SERVICES"
    using cases by (cases; use update_loop_frame[OF len] inv in auto)+
qed

lemma UnregisterHandler_keeps_others:
  assumes inv: "notif_inv st" and run: "UnregisterHandler req st = Inr (r, st')"
    and old: "registered st Uuid c = Some (i, v, s)" and s: "s \<noteq> SourceId req"
  shows "registered st' Uuid c = Some (i, v, s)"
proof -
  from run consider "st' = st" | svc where "svc < NOTIFICATION_MAX_SERVICES"
    "UpdateServiceInfo True (Some req) (Some svc) st = Inr (r, st')"
    by (auto simp: UnregisterHandler_def Let_def split: option.splits dest: LocateService_SomeD(1))
  then show ?thesis
  proof cases
    case 1
    with old show ?thesis by simp
  next
    case 2
    note keep = UpdateServiceInfo_keeps_others[OF inv 2]
    have "LocateService Uuid False st' = LocateService Uuid False st"
      by (rule LocateService_stable) (simp_all add: keep)
    with old s keep(1) show ?thesis by (auto simp: registered_Some)
  qed
qed

lemma RegisterHandler_keeps_others:
  assumes inv: "notif_inv st" and run: "RegisterHandler req st = Inr (r, st')"
    and old: "registered st Uuid c = Some (i, v, s)" and s: "s \<noteq> SourceId req"
  shows "registered st' Uuid c = Some (i, v, s)"
proof (cases "register_slot req st")
  case None
  with run old show ?thesis by (simp add: RegisterHandler_eq)
next
  case (Some svc)
  let ?U = "NotificationServiceExtractUuid (Arg3 req) (Arg4 req)"
  have svc: "svc < NOTIFICATION_MAX_SERVICES" by (rule register_slot_less[OF Some])
  from run Some obtain st1 where u: "UpdateServiceInfo False (Some req) (Some svc) st = Inr (r, st1)"
    and st': "st' = st1 \<or> st' = rename_slot ?U svc st1 \<and> \<not> NS_InUse (NotificationServices st1 ! svc)"
    by (auto simp: RegisterHandler_eq result_iffs split: if_splits)
  note keep = UpdateServiceInfo_keeps_others[OF inv svc u]
  have len: "svc < length (NotificationServices st1)" using svc keep(4) by simp
  have fresh: "take 8 ?U \<noteq> take 8 Uuid" if "\<not> NS_InUse (NotificationServices st1 ! svc)"
  proof
    assume "take 8 ?U = take 8 Uuid"
    then have "LocateService ?U False st = LocateService Uuid False st"
      using inv by (simp add: LocateService_abs)
    with old Some that keep(2) show False
      by (auto simp: registered_Some register_slot_def Let_def dest: LocateService_SomeD)
  qed
  have "LocateService Uuid False st' = LocateService Uuid False st"
  proof (rule LocateService_stable)
    fix k
    show "NS_InUse (NotificationServices st ! k) \<Longrightarrow> NS_InUse (NotificationServices st' ! k) \<and>
        NS_ServiceUuid (NotificationServices st' ! k) = NS_ServiceUuid (NotificationServices st ! k)"
      using st' by (cases "k = svc") (auto simp: rename_slot_nth[OF len] keep)
    show "\<not> NS_InUse (NotificationServices st ! k) \<Longrightarrow> NS_InUse (NotificationServices st' ! k) \<Longrightarrow>
        take 8 (NS_ServiceUuid (NotificationServices st' ! k)) \<noteq> take 8 Uuid"
      using st' fresh by (cases "k = svc") (auto simp: rename_slot_nth[OF len] keep)
  qed
  moreover have "abs_service (NotificationServices st' ! k) = abs_service (NotificationServices st1 ! k)" for k
    using st' by (auto simp: rename_slot_nth[OF len])
  ultimately show ?thesis using old s keep(1) by (auto simp: registered_Some)
qed

lemma message_keeps_others:
  assumes "notif_inv st" and "NotificationServiceHandle (Some req) (Some resp) st = Inr (resp', st')"
    and "registered st Uuid c = Some (i, v, s)" and "s \<noteq> SourceId req"
  shows "registered st' Uuid c = Some (i, v, s)"
  using assms RegisterHandler_keeps_others[OF assms(1)] UnregisterHandler_keeps_others[OF assms(1)]
  unfolding handle_eq by (auto simp: result_iffs split: if_splits)

text \<open>
  C6. No endpoint can remove, replace or divert another endpoint's notification: from any
  reachable table, whatever messages other endpoints send, in any number and order, a cookie
  that endpoint \<open>s\<close> registered with a service stays registered there with the same
  identifier and flag.
\<close>

theorem notif_endpoint_isolation:
  assumes "reachable (\<lambda>st. st = NotificationServiceInit) notif_step st"
    and "registered st Uuid c = Some (i, v, s)"
    and "\<forall>m \<in> set ms. SourceId (fst m) \<noteq> s"
    and "run_all notif_answer ms st = Inr (rs, st')"
  shows "registered st' Uuid c = Some (i, v, s)"
proof -
  let ?P = "\<lambda>t. notif_inv t \<and> registered t Uuid c = Some (i, v, s)"
  have "?P st'"
  proof (rule run_all_keeps[where P = ?P and Q = "\<lambda>m. SourceId (fst m) \<noteq> s", OF _ _ _ assms(4)])
    show "?P t'" if "?P t" "SourceId (fst m) \<noteq> s" "notif_answer m t = Inr (a, t')" for t m a t'
      using that message_keeps_others[of t "fst m" "snd m" a t' Uuid c i v s] NotificationServiceHandle_inv
      unfolding notif_answer_def by metis
  qed (use notif.invar_reachable[OF assms(1)] assms(2,3) in \<open>auto simp: list_all_iff\<close>)
  then show ?thesis by blast
qed

text \<open>
  Endpoint \<open>0x8002\<close> tries to take cookie 7 of the service away, and to register its identifier
  with a service of its own.
\<close>

definition ex_intruder :: "(DIRECT_MSG_ARGS_EX \<times> DIRECT_MSG_ARGS_EX) list" where
  "ex_intruder = [(ex_unregister\<lparr>SourceId := 0x8002\<rparr>, msg_zero), (ex_conflict, msg_zero)]"

theorem notif_endpoint_isolation_witness:
  "\<exists>rs st'. run_all notif_answer ex_intruder ex_state = Inr (rs, st') \<and> st' \<noteq> ex_state \<and>
     registered st' (NotificationServiceExtractUuid 0x1111 0x2222) 7 = Some (3, True, 0x8001)"
proof -
  have run: "(case run_all notif_answer ex_intruder ex_state of
      Inr (rs, st') \<Rightarrow> st' \<noteq> ex_state | Inl _ \<Rightarrow> False)" by code_simp
  then obtain rs st' where "run_all notif_answer ex_intruder ex_state = Inr (rs, st')" "st' \<noteq> ex_state"
    by (auto split: sum.splits)
  moreover have "registered ex_state (NotificationServiceExtractUuid 0x1111 0x2222) 7 = Some (3, True, 0x8001)"
    "\<forall>m \<in> set ex_intruder. SourceId (fst m) \<noteq> 0x8001" by code_simp+
  ultimately show ?thesis using notif_endpoint_isolation[OF ex_state_reachable] by blast
qed

end
