(* ===== verification/TestService.thy ===== *)
theory TestService
  imports NotificationProperties
begin

text \<open>
  \<^verbatim>\<open>TestServiceLib\<close>: a service that asks the notification service to raise a notification
  for a registered cookie. It keeps no state of its own; its effect is that of
  \<^verbatim>\<open>NotificationServiceIdSet\<close> on the FF-A library and the SPMC.
\<close>

section \<open>Definitions\<close>

type_synonym TestStatus = "32 word"

definition TEST_STATUS_SUCCESS :: TestStatus where "TEST_STATUS_SUCCESS = 0"
definition TEST_STATUS_INVALID_PARAMETER :: TestStatus where "TEST_STATUS_INVALID_PARAMETER = - 2"

definition DELAYED_SRI_BIT_POS :: nat where "DELAYED_SRI_BIT_POS = 1"

definition TEST_OPCODE_BASE :: UINTN where "TEST_OPCODE_BASE = 0xDEF0"
definition TEST_OPCODE_TEST_NOTIFICATION :: UINTN where
  "TEST_OPCODE_TEST_NOTIFICATION = TEST_OPCODE_BASE + 0x01"

text \<open>\<^verbatim>\<open>TestStatus\<close> is an \<^verbatim>\<open>INT32\<close>: storing it in a message word extends its sign.\<close>

definition TestNotificationHandler ::
  "'w ffa_env \<Rightarrow> DIRECT_MSG_ARGS_EX \<Rightarrow> DIRECT_MSG_ARGS_EX \<Rightarrow> notif_state \<Rightarrow> 'w ffa_state \<Rightarrow>
   (TestStatus \<times> DIRECT_MSG_ARGS_EX \<times> 'w ffa_state) result" where
  "TestNotificationHandler env Request Response st s =
     (let Uuid = NotificationServiceExtractUuid (Arg1 Request) (Arg2 Request);
          Flag = push_bit DELAYED_SRI_BIT_POS 1;
          Cookie = ucast (Arg3 Request)
      in bind_result (NotificationServiceIdSet env Cookie (Some Uuid) Flag st s)
           (\<lambda>(Status, s').
              (let ReturnVal = (if Status = NOTIFICATION_STATUS_SUCCESS then TEST_STATUS_SUCCESS
                                else TEST_STATUS_INVALID_PARAMETER)
               in Inr (ReturnVal, Response\<lparr>Arg0 := scast ReturnVal\<rparr>, s'))))"

definition TestServiceInit :: "notif_state \<Rightarrow> notif_state" where
  "TestServiceInit st = st"

definition TestServiceDeInit :: "notif_state \<Rightarrow> notif_state" where
  "TestServiceDeInit st = st"

definition TestServiceHandle ::
  "'w ffa_env \<Rightarrow> DIRECT_MSG_ARGS_EX option \<Rightarrow> DIRECT_MSG_ARGS_EX option \<Rightarrow> notif_state \<Rightarrow> 'w ffa_state \<Rightarrow>
   (DIRECT_MSG_ARGS_EX option \<times> 'w ffa_state) result" where
  "TestServiceHandle env Request Response st s =
     (case (Request, Response) of
        (Some req, Some resp) \<Rightarrow>
          (if Arg0 req = TEST_OPCODE_TEST_NOTIFICATION
           then bind_result (TestNotificationHandler env req resp st s)
                  (\<lambda>(_, resp', s'). Inr (Some resp', s'))
           else Inr (Some (resp\<lparr>Arg0 := scast TEST_STATUS_INVALID_PARAMETER\<rparr>), s))
      | _ \<Rightarrow> Inr (Response, s))"

section \<open>Behaviour\<close>

lemma scast_minus_2: "(scast (- 2 :: 32 word) :: 64 word) = 0xFFFFFFFFFFFFFFFE"
  by code_simp

lemma IdSet_no_fault:
  assumes inv: "notif_inv st"
  shows "\<exists>r s'. NotificationServiceIdSet env c u f st s = Inr (r, s') \<and>
     r \<in> {NOTIFICATION_STATUS_SUCCESS, NOTIFICATION_STATUS_INVALID_PARAMETER}"
proof -
  have bitok: "\<exists>b. int_bit (NI_Id (NS_ServiceInfo (NotificationServices st ! svc) ! j)) = Inr b"
    if "svc < NOTIFICATION_MAX_SERVICES" "j < NOTIFICATION_MAX_MAPPINGS" for svc j
  proof (rule int_bit_ok)
    let ?e = "NS_ServiceInfo (NotificationServices st ! svc) ! j"
    have "wf_service (NotificationServices st ! svc)" using inv that(1) by (simp add: notif_inv_def wf_table_def)
    then have "NI_InUse ?e \<or> NI_Id ?e = 0" using that(2) by (auto simp: wf_service_def)
    then show "unat (NI_Id ?e) < 32"
      using inv that by (auto simp: notif_inv_def ids_small_def used_def entry_def)
  qed
  show ?thesis
  proof (cases u)
    case (Some uuid)
    then show ?thesis
    proof (cases "LocateService uuid False st")
      case loc: (Some svc)
      note less = LocateService_SomeD(1)[OF loc]
      let ?P = "\<lambda>j. NI_Cookie (NS_ServiceInfo (NotificationServices st ! svc) ! j) = c"
      show ?thesis
      proof (cases "first_index ?P NOTIFICATION_MAX_MAPPINGS")
        case None
        then show ?thesis using Some loc by (simp add: NotificationServiceIdSet_def Let_def)
      next
        case (Some j)
        from bitok[OF less first_index_SomeD(1)[OF Some]] obtain b
          where "int_bit (NI_Id (NS_ServiceInfo (NotificationServices st ! svc) ! j)) = Inr b" by blast
        then show ?thesis
          using \<open>u = Some uuid\<close> loc Some by (simp add: NotificationServiceIdSet_def Let_def split: prod.split)
      qed
    qed (simp add: NotificationServiceIdSet_def)
  qed (simp add: NotificationServiceIdSet_def)
qed

text \<open>
  With a notification table that satisfies its invariant, every message to the test
  service is answered: only argument 0 of the response changes, and it is 0 or the
  sign-extended -2; an opcode other than the test notification is refused without any call
  to the SPMC.
\<close>

theorem TestServiceHandle_answers:
  assumes "notif_inv st"
  shows "\<exists>a s'. TestServiceHandle env (Some req) (Some resp) st s = Inr (Some (resp\<lparr>Arg0 := a\<rparr>), s') \<and>
     a \<in> {0, 0xFFFFFFFFFFFFFFFE} \<and>
     (Arg0 req = 0xDEF1 \<or> a = 0xFFFFFFFFFFFFFFFE \<and> s' = s)"
proof -
  obtain r s' where "NotificationServiceIdSet env (ucast (Arg3 req))
      (Some (NotificationServiceExtractUuid (Arg1 req) (Arg2 req))) (push_bit DELAYED_SRI_BIT_POS 1) st s =
      Inr (r, s')" using IdSet_no_fault[OF assms] by blast
  then have "TestServiceHandle env (Some req) (Some resp) st s =
      (if Arg0 req = 0xDEF1
       then Inr (Some (resp\<lparr>Arg0 := if r = NOTIFICATION_STATUS_SUCCESS then 0 else 0xFFFFFFFFFFFFFFFE\<rparr>), s')
       else Inr (Some (resp\<lparr>Arg0 := 0xFFFFFFFFFFFFFFFE\<rparr>), s))"
    by (simp add: TestServiceHandle_def TestNotificationHandler_def Let_def TEST_OPCODE_TEST_NOTIFICATION_def
        TEST_OPCODE_BASE_def TEST_STATUS_SUCCESS_def TEST_STATUS_INVALID_PARAMETER_def scast_minus_2)
  then show ?thesis
    by (cases "Arg0 req = 0xDEF1"; cases "r = NOTIFICATION_STATUS_SUCCESS") (simp_all, blast+)
qed

definition ex_test_request :: DIRECT_MSG_ARGS_EX where
  "ex_test_request = msg_zero\<lparr>Arg0 := 0xDEF1, Arg1 := 0x1111, Arg2 := 0x2222, Arg3 := 7\<rparr>"

theorem TestServiceHandle_answers_witness:
  "\<exists>a s'. TestServiceHandle ex_env (Some ex_test_request) (Some msg_zero) ex_state (ex_ffa []) =
       Inr (Some (msg_zero\<lparr>Arg0 := a\<rparr>), s') \<and> a \<in> {0, 0xFFFFFFFFFFFFFFFE} \<and>
     (Arg0 ex_test_request = 0xDEF1 \<or> a = 0xFFFFFFFFFFFFFFFE \<and> s' = ex_ffa [])"
  by (rule TestServiceHandle_answers[OF ex_state_inv])

end
