(* ===== verification/TpmStateTranslation.thy ===== *)
theory TpmStateTranslation
  imports Prelude
begin

text \<open>
  \<^verbatim>\<open>TpmServiceStateTranslationLib\<close>: the driver that carries the TPM service's requests to
  a TPM behind a CRB or a FIFO register interface. The TPM, the MMIO and timer primitives
  and the yield to the SPMC are outside this repository: they are the fields of \<open>tpm_env\<close>,
  over a device world \<open>'w\<close>; so are the register offsets, register bits and timeouts, which
  come from the TCG header. The polling loops are partial: whether they return depends on
  the timeout values.
\<close>

section \<open>Environment and state\<close>

datatype ptp_reg =
    Crb_LocalityControl
  | Crb_LocalityStatus
  | Crb_InterfaceId
  | Crb_CrbControlRequest
  | Crb_CrbControlStatus
  | Crb_CrbControlStart
  | Crb_CrbDataBuffer
  | Fifo_Access
  | Fifo_Status
  | Fifo_BurstCount
  | Fifo_DataFifo

datatype ptp_const =
    PTP_FIFO_STS_VALID
  | PTP_FIFO_STS_EXPECT
  | PTP_FIFO_STS_GO
  | PTP_FIFO_STS_DATA
  | PTP_FIFO_STS_READY
  | PTP_FIFO_ACC_RQUUSE
  | PTP_FIFO_ACC_ACTIVE
  | PTP_FIFO_VALID
  | PTP_CRB_CONTROL_START
  | PTP_CRB_CONTROL_AREA_REQUEST_GO_IDLE
  | PTP_CRB_CONTROL_AREA_REQUEST_COMMAND_READY
  | PTP_CRB_CONTROL_AREA_STATUS_TPM_IDLE
  | PTP_CRB_LOCALITY_CONTROL_REQUEST_ACCESS
  | PTP_CRB_LOCALITY_CONTROL_RELINQUISH
  | PTP_CRB_LOCALITY_STATUS_GRANTED
  | PTP_CRB_LOCALITY_STATE_ACTIVE_LOCALITY_0
  | PTP_CRB_LOCALITY_STATE_ACTIVE_LOCALITY_1
  | PTP_CRB_LOCALITY_STATE_ACTIVE_LOCALITY_2
  | PTP_CRB_LOCALITY_STATE_ACTIVE_LOCALITY_3
  | PTP_CRB_LOCALITY_STATE_ACTIVE_LOCALITY_4
  | PTP_CRB_LOCALITY_STATE_TPM_REG_VALID_STATUS
  | PTP_CRB_LOCALITY_STATE_LOCALITY_ASSIGNED
  | PTP_TIMEOUT_A
  | PTP_TIMEOUT_B
  | PTP_TIMEOUT_C
  | PTP_TIMEOUT_D

record 'w tpm_env =
  MmioRead8 :: "UINTN \<Rightarrow> 'w \<Rightarrow> UINT8 \<times> 'w"
  MmioRead32 :: "UINTN \<Rightarrow> 'w \<Rightarrow> UINT32 \<times> 'w"
  MmioWrite8 :: "UINTN \<Rightarrow> UINT8 \<Rightarrow> 'w \<Rightarrow> 'w"
  MmioWrite32 :: "UINTN \<Rightarrow> UINT32 \<Rightarrow> 'w \<Rightarrow> 'w"
  MicroSecondDelay :: "UINTN \<Rightarrow> 'w \<Rightarrow> 'w"
  ArmFfaLibYield :: "UINT64 \<Rightarrow> 'w \<Rightarrow> EFI_STATUS \<times> 'w"
  PcdTpmBaseAddress :: UINT64
  ptp_offset :: "ptp_reg \<Rightarrow> UINT64"
  ptp :: "ptp_const \<Rightarrow> UINT32"

record 'w sst_state =
  mIsCrbInterface :: bool
  mIsIdleBypassSupported :: bool
  dev :: 'w

definition INTERFACE_TYPE_MASK :: UINT32 where "INTERFACE_TYPE_MASK = 0x00F"
definition IDLE_BYPASS_MASK :: UINT32 where "IDLE_BYPASS_MASK = 0x200"
definition LOCALITY_OFFSET :: UINT64 where "LOCALITY_OFFSET = 0x1000"
definition DELAY_AMOUNT :: UINTN where "DELAY_AMOUNT = 30"
definition YIELD_AMOUNT :: UINT32 where "YIELD_AMOUNT = 10 * 1000"
definition PTP_TIMEOUT_MAX :: UINT32 where "PTP_TIMEOUT_MAX = 90000 * 1000"

text \<open>\<^verbatim>\<open>&External...->Register\<close> for the register block of a locality.\<close>

definition reg_addr :: "'w tpm_env \<Rightarrow> UINT8 \<Rightarrow> ptp_reg \<Rightarrow> UINT64" where
  "reg_addr env Locality r =
     PcdTpmBaseAddress env + ucast Locality * LOCALITY_OFFSET + ptp_offset env r"

section \<open>Debug output\<close>

text \<open>The bytes the two dump routines print; they read the buffer they are given.\<close>

definition DumpTpmInputBlock :: "UINT32 \<Rightarrow> UINT8 list \<Rightarrow> UINT8 list result" where
  "DumpTpmInputBlock InputBlockSize InputBlock =
     (let DebugSize = (if InputBlockSize > 0x100 then 0x40 else unat InputBlockSize);
          idx = [0..<DebugSize] @
                (if DebugSize \<noteq> unat InputBlockSize
                 then [unat InputBlockSize - 0x20..<unat InputBlockSize] else [])
      in if list_all (\<lambda>i. i < length InputBlock) idx then Inr (map ((!) InputBlock) idx)
         else Inl OutOfBounds)"

definition DumpTpmOutputBlock :: "UINT32 \<Rightarrow> UINT8 list \<Rightarrow> UINT8 list result" where
  "DumpTpmOutputBlock OutputBlockSize OutputBlock =
     (if unat OutputBlockSize \<le> length OutputBlock then Inr (take (unat OutputBlockSize) OutputBlock)
      else Inl OutOfBounds)"

section \<open>Polling\<close>

partial_function (option) burst_loop ::
  "'w tpm_env \<Rightarrow> UINT8 \<Rightarrow> UINT32 \<Rightarrow> 'w \<Rightarrow> (EFI_STATUS \<times> UINT16 \<times> 'w) option" where
  "burst_loop env Locality DelayAmount w =
     (let (DataByte0, w1) = MmioRead8 env (reg_addr env Locality Fifo_BurstCount) w;
          (DataByte1, w2) = MmioRead8 env (reg_addr env Locality Fifo_BurstCount + 1) w1;
          BurstCount = push_bit 8 (ucast DataByte1) + ucast DataByte0 :: UINT16
      in if BurstCount \<noteq> 0 then Some (EFI_SUCCESS, BurstCount, w2)
         else if DelayAmount \<ge> ptp env PTP_TIMEOUT_D then Some (EFI_TIMEOUT, BurstCount, w2)
         else (case ArmFfaLibYield env (ucast YIELD_AMOUNT) w2 of
                 (Status, w3) \<Rightarrow>
                   if EFI_ERROR Status then Some (Status, BurstCount, w3)
                   else burst_loop env Locality (DelayAmount + YIELD_AMOUNT) w3))"

definition FifoReadBurstCount ::
  "'w tpm_env \<Rightarrow> UINT8 \<Rightarrow> 'w \<Rightarrow> (EFI_STATUS \<times> UINT16 \<times> 'w) option" where
  "FifoReadBurstCount env Locality w = burst_loop env Locality 0 (MicroSecondDelay env DELAY_AMOUNT w)"

text \<open>One read of the polled register: 32 bits of a CRB, 8 bits of a FIFO.\<close>

definition poll_read :: "'w tpm_env \<Rightarrow> bool \<Rightarrow> UINT64 \<Rightarrow> 'w \<Rightarrow> UINT32 \<times> 'w" where
  "poll_read env crb Register w =
     (if crb then MmioRead32 env Register w
      else (case MmioRead8 env Register w of (b, w') \<Rightarrow> (ucast b, w')))"

definition bits_match :: "UINT32 \<Rightarrow> UINT32 \<Rightarrow> UINT32 \<Rightarrow> bool" where
  "bits_match BitSet BitClear RegRead \<longleftrightarrow> RegRead AND BitSet = BitSet \<and> RegRead AND BitClear = 0"

partial_function (option) wait_loop ::
  "'w tpm_env \<Rightarrow> bool \<Rightarrow> UINT64 \<Rightarrow> UINT32 \<Rightarrow> UINT32 \<Rightarrow> UINT32 \<Rightarrow> UINT32 \<Rightarrow> 'w \<Rightarrow> (EFI_STATUS \<times> 'w) option" where
  "wait_loop env crb Register BitSet BitClear Timeout DelayAmount w =
     (case poll_read env crb Register w of
        (RegRead, w1) \<Rightarrow>
          if bits_match BitSet BitClear RegRead then Some (EFI_SUCCESS, w1)
          else if DelayAmount \<ge> Timeout then Some (EFI_TIMEOUT, w1)
          else (case ArmFfaLibYield env (ucast YIELD_AMOUNT) w1 of
                  (Status, w2) \<Rightarrow>
                    if EFI_ERROR Status then Some (Status, w2)
                    else wait_loop env crb Register BitSet BitClear Timeout
                           (DelayAmount + YIELD_AMOUNT) w2))"

definition WaitRegisterBits ::
  "'w tpm_env \<Rightarrow> UINT64 \<Rightarrow> UINT32 \<Rightarrow> UINT32 \<Rightarrow> UINT32 \<Rightarrow> 'w sst_state \<Rightarrow> (EFI_STATUS \<times> 'w sst_state) option" where
  "WaitRegisterBits env Register BitSet BitClear Timeout s =
     (case wait_loop env (mIsCrbInterface s) Register BitSet BitClear Timeout 0
             (MicroSecondDelay env DELAY_AMOUNT (dev s)) of
        None \<Rightarrow> None
      | Some (Status, w) \<Rightarrow> Some (Status, s\<lparr>dev := w\<rparr>))"

section \<open>Moving the command and the response\<close>

text \<open>\<^verbatim>\<open>for (Index = 0; Index < CommandDataLen; Index++) MmioWrite8 (&CrbDataBuffer[Index], ...)\<close>\<close>

fun crb_send :: "'w tpm_env \<Rightarrow> UINT8 \<Rightarrow> UINT8 list \<Rightarrow> nat list \<Rightarrow> 'w \<Rightarrow> 'w result" where
  "crb_send env Locality buf [] w = Inr w"
| "crb_send env Locality buf (Index # is) w =
     (if Index < length buf
      then crb_send env Locality buf is
             (MmioWrite8 env (reg_addr env Locality Crb_CrbDataBuffer + of_nat Index) (buf ! Index) w)
      else Inl OutOfBounds)"

text \<open>\<^verbatim>\<open>while (BurstCount > 0 && Index < CommandDataLen)\<close>\<close>

fun fifo_send_burst ::
  "'w tpm_env \<Rightarrow> UINT8 \<Rightarrow> UINT8 list \<Rightarrow> nat \<Rightarrow> nat \<Rightarrow> nat \<Rightarrow> 'w \<Rightarrow> (nat \<times> 'w) result" where
  "fifo_send_burst env Locality buf n 0 Index w = Inr (Index, w)"
| "fifo_send_burst env Locality buf n (Suc BurstCount) Index w =
     (if Index < n
      then if Index < length buf
           then fifo_send_burst env Locality buf n BurstCount (Suc Index)
                  (MmioWrite8 env (reg_addr env Locality Fifo_DataFifo) (buf ! Index) w)
           else Inl OutOfBounds
      else Inr (Index, w))"

text \<open>
  \<^verbatim>\<open>while (Index < CommandDataLen)\<close>. A failing burst-count read only leaves the loop: its
  status is overwritten afterwards.
\<close>

partial_function (option) fifo_send ::
  "'w tpm_env \<Rightarrow> UINT8 \<Rightarrow> UINT8 list \<Rightarrow> nat \<Rightarrow> nat \<Rightarrow> 'w \<Rightarrow> (nat \<times> 'w) result option" where
  "fifo_send env Locality buf n Index w =
     (if Index < n
      then (case FifoReadBurstCount env Locality w of
              None \<Rightarrow> None
            | Some (Status, BurstCount, w1) \<Rightarrow>
                if EFI_ERROR Status then Some (Inr (Index, w1))
                else (case fifo_send_burst env Locality buf n (unat BurstCount) Index w1 of
                        Inl e \<Rightarrow> Some (Inl e)
                      | Inr (Index', w2) \<Rightarrow> fifo_send env Locality buf n Index' w2))
      else Some (Inr (Index, w)))"

definition CopyCommandData ::
  "'w tpm_env \<Rightarrow> UINT8 \<Rightarrow> UINT8 list \<Rightarrow> UINT32 \<Rightarrow> 'w sst_state \<Rightarrow> (EFI_STATUS \<times> 'w sst_state) comp" where
  "CopyCommandData env Locality TpmCommandBuffer CommandDataLen s =
     (if mIsCrbInterface s
      then Some (bind_result (crb_send env Locality TpmCommandBuffer [0..<unat CommandDataLen] (dev s))
                   (\<lambda>w. Inr (EFI_SUCCESS, s\<lparr>dev := w\<rparr>)))
      else bind_comp (fifo_send env Locality TpmCommandBuffer (unat CommandDataLen) 0 (dev s))
             (\<lambda>(_, w). map_option Inr
                (WaitRegisterBits env (reg_addr env Locality Fifo_Status)
                   (ptp env PTP_FIFO_STS_VALID) (ptp env PTP_FIFO_STS_EXPECT) (ptp env PTP_TIMEOUT_C)
                   (s\<lparr>dev := w\<rparr>))))"

definition StartCommand ::
  "'w tpm_env \<Rightarrow> UINT8 \<Rightarrow> 'w sst_state \<Rightarrow> (EFI_STATUS \<times> 'w sst_state) option" where
  "StartCommand env Locality s =
     (if mIsCrbInterface s
      then WaitRegisterBits env (reg_addr env Locality Crb_CrbControlStart)
             0 (ptp env PTP_CRB_CONTROL_START) PTP_TIMEOUT_MAX
             (s\<lparr>dev := MmioWrite32 env (reg_addr env Locality Crb_CrbControlStart)
                         (ptp env PTP_CRB_CONTROL_START) (dev s)\<rparr>)
      else WaitRegisterBits env (reg_addr env Locality Fifo_Status)
             (ptp env PTP_FIFO_STS_VALID OR ptp env PTP_FIFO_STS_DATA) 0 PTP_TIMEOUT_MAX
             (s\<lparr>dev := MmioWrite8 env (reg_addr env Locality Fifo_Status)
                         (ucast (ptp env PTP_FIFO_STS_GO)) (dev s)\<rparr>))"

fun crb_receive ::
  "'w tpm_env \<Rightarrow> UINT8 \<Rightarrow> nat list \<Rightarrow> UINT8 list \<Rightarrow> 'w \<Rightarrow> (UINT8 list \<times> 'w) result" where
  "crb_receive env Locality [] buf w = Inr (buf, w)"
| "crb_receive env Locality (Index # is) buf w =
     (case MmioRead8 env (reg_addr env Locality Crb_CrbDataBuffer + of_nat Index) w of
        (b, w') \<Rightarrow> if Index < length buf then crb_receive env Locality is (buf[Index := b]) w'
                   else Inl OutOfBounds)"

text \<open>\<^verbatim>\<open>while (BurstCount > 0)\<close>, left early when the response is complete.\<close>

fun fifo_receive_burst ::
  "'w tpm_env \<Rightarrow> UINT8 \<Rightarrow> nat \<Rightarrow> nat \<Rightarrow> nat \<Rightarrow> UINT8 list \<Rightarrow> 'w \<Rightarrow> (nat \<times> UINT8 list \<times> 'w) result" where
  "fifo_receive_burst env Locality n 0 Index buf w = Inr (Index, buf, w)"
| "fifo_receive_burst env Locality n (Suc BurstCount) Index buf w =
     (case MmioRead8 env (reg_addr env Locality Fifo_DataFifo) w of
        (b, w') \<Rightarrow>
          if Index < length buf
          then if Suc Index = n then Inr (Suc Index, buf[Index := b], w')
               else fifo_receive_burst env Locality n BurstCount (Suc Index) (buf[Index := b]) w'
          else Inl OutOfBounds)"

text \<open>The status is \<open>None\<close> until the loop body has assigned it.\<close>

partial_function (option) fifo_receive ::
  "'w tpm_env \<Rightarrow> UINT8 \<Rightarrow> nat \<Rightarrow> EFI_STATUS option \<Rightarrow> nat \<Rightarrow> UINT8 list \<Rightarrow> 'w \<Rightarrow>
   (EFI_STATUS option \<times> UINT8 list \<times> 'w) result option" where
  "fifo_receive env Locality n Status Index buf w =
     (if Index < n
      then (case FifoReadBurstCount env Locality w of
              None \<Rightarrow> None
            | Some (Status', BurstCount, w1) \<Rightarrow>
                if EFI_ERROR Status' then Some (Inr (Some Status', buf, w1))
                else (case fifo_receive_burst env Locality n (unat BurstCount) Index buf w1 of
                        Inl e \<Rightarrow> Some (Inl e)
                      | Inr (Index', buf', w2) \<Rightarrow>
                          fifo_receive env Locality n
                            (Some (if Index' = n then EFI_SUCCESS else Status')) Index' buf' w2))
      else Some (Inr (Status, buf, w)))"

definition CopyResponseData ::
  "'w tpm_env \<Rightarrow> UINT8 \<Rightarrow> UINT8 list \<Rightarrow> UINT32 \<Rightarrow> 'w sst_state \<Rightarrow>
   (EFI_STATUS \<times> UINT8 list \<times> 'w sst_state) comp" where
  "CopyResponseData env Locality TpmCommandBuffer ResponseDataLen s =
     (if mIsCrbInterface s
      then Some (bind_result (crb_receive env Locality [0..<unat ResponseDataLen] TpmCommandBuffer (dev s))
                   (\<lambda>(buf, w). Inr (EFI_SUCCESS, buf, s\<lparr>dev := w\<rparr>)))
      else bind_comp (fifo_receive env Locality (unat ResponseDataLen) None 0 TpmCommandBuffer (dev s))
             (\<lambda>(Status, buf, w).
                Some (case Status of
                        None \<Rightarrow> Inl UninitialisedRead
                      | Some st \<Rightarrow> Inr (st, buf, s\<lparr>dev := w\<rparr>))))"

section \<open>The operations the service calls\<close>

definition TpmSstGoIdle ::
  "'w tpm_env \<Rightarrow> UINT8 \<Rightarrow> 'w sst_state \<Rightarrow> (EFI_STATUS \<times> 'w sst_state) option" where
  "TpmSstGoIdle env Locality s =
     (if mIsCrbInterface s
      then (case WaitRegisterBits env (reg_addr env Locality Crb_CrbControlRequest)
                   0 (ptp env PTP_CRB_CONTROL_AREA_REQUEST_GO_IDLE) (ptp env PTP_TIMEOUT_C)
                   (s\<lparr>dev := MmioWrite32 env (reg_addr env Locality Crb_CrbControlRequest)
                               (ptp env PTP_CRB_CONTROL_AREA_REQUEST_GO_IDLE) (dev s)\<rparr>) of
              None \<Rightarrow> None
            | Some (Status, s1) \<Rightarrow>
                if Status = EFI_SUCCESS
                then WaitRegisterBits env (reg_addr env Locality Crb_CrbControlStatus)
                       (ptp env PTP_CRB_CONTROL_AREA_STATUS_TPM_IDLE) 0 (ptp env PTP_TIMEOUT_C) s1
                else Some (Status, s1))
      else WaitRegisterBits env (reg_addr env Locality Fifo_Status)
             (ptp env PTP_FIFO_STS_READY) 0 (ptp env PTP_TIMEOUT_B)
             (s\<lparr>dev := MmioWrite8 env (reg_addr env Locality Fifo_Status)
                         (ucast (ptp env PTP_FIFO_STS_READY)) (dev s)\<rparr>))"

definition TpmSstCmdReady ::
  "'w tpm_env \<Rightarrow> UINT8 \<Rightarrow> 'w sst_state \<Rightarrow> (EFI_STATUS \<times> 'w sst_state) option" where
  "TpmSstCmdReady env Locality s =
     (if mIsCrbInterface s
      then (case WaitRegisterBits env (reg_addr env Locality Crb_CrbControlRequest)
                   0 (ptp env PTP_CRB_CONTROL_AREA_REQUEST_COMMAND_READY) (ptp env PTP_TIMEOUT_C)
                   (s\<lparr>dev := MmioWrite32 env (reg_addr env Locality Crb_CrbControlRequest)
                               (ptp env PTP_CRB_CONTROL_AREA_REQUEST_COMMAND_READY) (dev s)\<rparr>) of
              None \<Rightarrow> None
            | Some (Status, s1) \<Rightarrow>
                if Status = EFI_SUCCESS
                then WaitRegisterBits env (reg_addr env Locality Crb_CrbControlStatus)
                       0 (ptp env PTP_CRB_CONTROL_AREA_STATUS_TPM_IDLE) (ptp env PTP_TIMEOUT_C) s1
                else Some (Status, s1))
      else WaitRegisterBits env (reg_addr env Locality Fifo_Status)
             (ptp env PTP_FIFO_STS_READY) 0 (ptp env PTP_TIMEOUT_B)
             (s\<lparr>dev := MmioWrite8 env (reg_addr env Locality Fifo_Status)
                         (ucast (ptp env PTP_FIFO_STS_READY)) (dev s)\<rparr>))"

text \<open>
  \<^verbatim>\<open>TpmSstStart\<close> on the fields of the internal CRB it reads and writes: the two sizes and
  the data buffer. Both sizes come from memory the normal world can write; the local buffer
  has the size of the data buffer.
\<close>

definition TpmSstStart ::
  "'w tpm_env \<Rightarrow> UINT8 \<Rightarrow> UINT32 \<Rightarrow> UINT32 \<Rightarrow> UINT8 list \<Rightarrow> 'w sst_state \<Rightarrow>
   (EFI_STATUS \<times> UINT8 list \<times> 'w sst_state) comp" where
  "TpmSstStart env Locality CommandDataLen ResponseDataLen CrbDataBuffer s =
     (let finish = (\<lambda>Status data buf s'. Some
            (bind_result (DumpTpmOutputBlock ResponseDataLen buf) (\<lambda>_. Inr (Status, data, s'))))
      in if length CrbDataBuffer < unat CommandDataLen then Some (Inl OutOfBounds)
         else let TpmCommandBuffer = take (unat CommandDataLen) CrbDataBuffer @
                                     replicate (length CrbDataBuffer - unat CommandDataLen) 0
              in bind_comp (Some (DumpTpmInputBlock CommandDataLen TpmCommandBuffer)) (\<lambda>_.
                 bind_comp (CopyCommandData env Locality TpmCommandBuffer CommandDataLen s) (\<lambda>(Status, s1).
                   if EFI_ERROR Status then finish Status CrbDataBuffer TpmCommandBuffer s1
                   else (case StartCommand env Locality s1 of
                     None \<Rightarrow> None
                   | Some (Status, s2) \<Rightarrow>
                       if EFI_ERROR Status then finish Status CrbDataBuffer TpmCommandBuffer s2
                       else bind_comp (CopyResponseData env Locality TpmCommandBuffer ResponseDataLen s2)
                              (\<lambda>(Status, buf, s3).
                                 if EFI_ERROR Status then finish Status CrbDataBuffer buf s3
                                 else finish Status
                                        (take (unat ResponseDataLen) buf @ drop (unat ResponseDataLen) CrbDataBuffer)
                                        buf s3)))))"

definition TpmSstLocalityRequest ::
  "'w tpm_env \<Rightarrow> UINT8 \<Rightarrow> 'w sst_state \<Rightarrow> (EFI_STATUS \<times> 'w sst_state) option" where
  "TpmSstLocalityRequest env Locality s =
     (if mIsCrbInterface s
      then WaitRegisterBits env (reg_addr env Locality Crb_LocalityStatus)
             (ptp env PTP_CRB_LOCALITY_STATUS_GRANTED) 0 (ptp env PTP_TIMEOUT_A)
             (s\<lparr>dev := MmioWrite32 env (reg_addr env Locality Crb_LocalityControl)
                         (ptp env PTP_CRB_LOCALITY_CONTROL_REQUEST_ACCESS) (dev s)\<rparr>)
      else WaitRegisterBits env (reg_addr env Locality Fifo_Access)
             (ptp env PTP_FIFO_ACC_ACTIVE OR ptp env PTP_FIFO_VALID) 0 (ptp env PTP_TIMEOUT_A)
             (s\<lparr>dev := MmioWrite8 env (reg_addr env Locality Fifo_Access)
                         (ucast (ptp env PTP_FIFO_ACC_RQUUSE)) (dev s)\<rparr>))"

definition TpmSstLocalityRelinquish ::
  "'w tpm_env \<Rightarrow> UINT8 \<Rightarrow> 'w sst_state \<Rightarrow> (EFI_STATUS \<times> 'w sst_state) option" where
  "TpmSstLocalityRelinquish env Locality s =
     (if mIsCrbInterface s
      then WaitRegisterBits env (reg_addr env Locality Crb_LocalityStatus)
             0 (ptp env PTP_CRB_LOCALITY_STATUS_GRANTED) (ptp env PTP_TIMEOUT_A)
             (s\<lparr>dev := MmioWrite32 env (reg_addr env Locality Crb_LocalityControl)
                         (ptp env PTP_CRB_LOCALITY_CONTROL_RELINQUISH) (dev s)\<rparr>)
      else WaitRegisterBits env (reg_addr env Locality Fifo_Access)
             (ptp env PTP_FIFO_VALID) (ptp env PTP_FIFO_ACC_ACTIVE) (ptp env PTP_TIMEOUT_A)
             (s\<lparr>dev := MmioWrite8 env (reg_addr env Locality Fifo_Access)
                         (ucast (ptp env PTP_FIFO_ACC_ACTIVE)) (dev s)\<rparr>))"

definition TpmSstIsIdleBypassSupported :: "'w sst_state \<Rightarrow> bool" where
  "TpmSstIsIdleBypassSupported s = mIsIdleBypassSupported s"

text \<open>Two loads of the interface identifier of locality 0.\<close>

definition TpmSstInit :: "'w tpm_env \<Rightarrow> 'w sst_state \<Rightarrow> 'w sst_state" where
  "TpmSstInit env s =
     (let (InterfaceId, w1) = MmioRead32 env (PcdTpmBaseAddress env + ptp_offset env Crb_InterfaceId) (dev s);
          (InterfaceId', w2) = MmioRead32 env (PcdTpmBaseAddress env + ptp_offset env Crb_InterfaceId) w1
      in s\<lparr>mIsCrbInterface := (InterfaceId AND INTERFACE_TYPE_MASK = 1),
           mIsIdleBypassSupported := (InterfaceId' AND IDLE_BYPASS_MASK \<noteq> 0), dev := w2\<rparr>)"

declare burst_loop.simps [code] wait_loop.simps [code] fifo_send.simps [code] fifo_receive.simps [code]

end
