(* ===== verification/TpmSstProperties.thy ===== *)
theory TpmSstProperties
  imports TpmStateTranslation
begin

text \<open>
  The state translation library: its polling loops return for every timeout that leaves
  room for one more yield below \<open>2 ^ 32\<close> and report exactly whether the register matched
  in time; the four one-register operations and \<^verbatim>\<open>TpmSstStart\<close> share a contract, stated as
  the locale \<open>sst_operation\<close>; command and response bytes are moved completely and in
  order.
\<close>

section \<open>Polling\<close>

lemma wait_loop_unfold:
  "wait_loop env crb Register BitSet BitClear Timeout DelayAmount w =
     (let (RegRead, w1) = poll_read env crb Register w;
          (Status, w2) = ArmFfaLibYield env (ucast YIELD_AMOUNT) w1
      in if bits_match BitSet BitClear RegRead then Some (EFI_SUCCESS, w1)
         else if Timeout \<le> DelayAmount then Some (EFI_TIMEOUT, w1)
         else if EFI_ERROR Status then Some (Status, w2)
         else wait_loop env crb Register BitSet BitClear Timeout (DelayAmount + YIELD_AMOUNT) w2)"
  by (subst wait_loop.simps) (simp add: Let_def split: prod.split)

text \<open>A timeout for which the delay counter cannot wrap.\<close>

definition timeout_ok :: "UINT32 \<Rightarrow> bool" where
  "timeout_ok t \<longleftrightarrow> unat t + unat YIELD_AMOUNT < 2 ^ 32"

lemma unat_YIELD [simp]: "unat YIELD_AMOUNT = 10000"
  by (simp add: YIELD_AMOUNT_def)

lemma delay_no_wrap:
  assumes "timeout_ok t" and "\<not> t \<le> d"
  shows "unat (d + YIELD_AMOUNT) = unat d + 10000"
proof -
  have "unat d + 10000 < 2 ^ 32" using assms by (simp add: timeout_ok_def word_le_nat_alt)
  then show ?thesis by (simp add: unat_word_ariths)
qed

lemma wait_loop_returns:
  assumes "timeout_ok t"
  shows "wait_loop env crb r S C t d w \<noteq> None"
proof (induction "unat t - unat d" arbitrary: d w rule: less_induct)
  case less
  have "wait_loop env crb r S C t (d + YIELD_AMOUNT) w' \<noteq> None" if "\<not> t \<le> d" for w'
  proof (rule less)
    show "unat t - unat (d + YIELD_AMOUNT) < unat t - unat d"
      using that delay_no_wrap[OF assms that] by (simp add: word_le_nat_alt)
  qed
  then show ?case by (subst wait_loop_unfold) (auto simp: Let_def split: prod.split)
qed

lemma burst_loop_unfold:
  "burst_loop env l d w =
     (let (b0, w1) = MmioRead8 env (reg_addr env l Fifo_BurstCount) w;
          (b1, w2) = MmioRead8 env (reg_addr env l Fifo_BurstCount + 1) w1;
          bc = push_bit 8 (ucast b1) + ucast b0 :: UINT16;
          (Status, w3) = ArmFfaLibYield env (ucast YIELD_AMOUNT) w2
      in if bc \<noteq> 0 then Some (EFI_SUCCESS, bc, w2)
         else if ptp env PTP_TIMEOUT_D \<le> d then Some (EFI_TIMEOUT, bc, w2)
         else if EFI_ERROR Status then Some (Status, bc, w3)
         else burst_loop env l (d + YIELD_AMOUNT) w3)"
  by (subst burst_loop.simps) (simp add: Let_def split: prod.split)

lemma burst_loop_returns:
  assumes "timeout_ok (ptp env PTP_TIMEOUT_D)"
  shows "burst_loop env l d w \<noteq> None"
proof (induction "unat (ptp env PTP_TIMEOUT_D) - unat d" arbitrary: d w rule: less_induct)
  case less
  let ?t = "ptp env PTP_TIMEOUT_D"
  have "burst_loop env l (d + YIELD_AMOUNT) w' \<noteq> None" if "\<not> ?t \<le> d" for w'
  proof (rule less)
    show "unat ?t - unat (d + YIELD_AMOUNT) < unat ?t - unat d"
      using that delay_no_wrap[OF assms that] by (simp add: word_le_nat_alt)
  qed
  then show ?case by (subst burst_loop_unfold) (auto simp: Let_def split: prod.split)
qed

text \<open>A burst count reported without error is not zero.\<close>

lemma burst_loop_positive:
  assumes "burst_loop env l d w = Some (st, bc, w')"
  shows "EFI_ERROR st \<or> bc \<noteq> 0 \<and> st = EFI_SUCCESS"
proof -
  have "\<forall>st bc w'. x = (st, bc, w') \<longrightarrow> EFI_ERROR st \<or> bc \<noteq> 0 \<and> st = EFI_SUCCESS"
    if "burst_loop env l d w = Some x" for x
    by (rule burst_loop.raw_induct[of "\<lambda>env l d w x. \<forall>st bc w'. x = (st, bc, w') \<longrightarrow>
          EFI_ERROR st \<or> bc \<noteq> 0 \<and> st = EFI_SUCCESS", OF _ that])
      (auto simp: Let_def split: prod.splits if_splits)
  with assms show ?thesis by blast
qed

text \<open>The device after \<open>k\<close> failed polls and the yields that follow them.\<close>

primrec poll_world :: "'w tpm_env \<Rightarrow> bool \<Rightarrow> UINT64 \<Rightarrow> nat \<Rightarrow> 'w \<Rightarrow> 'w" where
  "poll_world env crb r 0 w = w"
| "poll_world env crb r (Suc k) w =
     snd (ArmFfaLibYield env (ucast YIELD_AMOUNT) (snd (poll_read env crb r (poll_world env crb r k w))))"

definition poll_at :: "'w tpm_env \<Rightarrow> bool \<Rightarrow> UINT64 \<Rightarrow> nat \<Rightarrow> 'w \<Rightarrow> UINT32 \<times> 'w" where
  "poll_at env crb r k w = poll_read env crb r (poll_world env crb r k w)"

text \<open>The yield that follows poll \<open>k\<close>.\<close>

definition yield_at :: "'w tpm_env \<Rightarrow> bool \<Rightarrow> UINT64 \<Rightarrow> nat \<Rightarrow> 'w \<Rightarrow> EFI_STATUS \<times> 'w" where
  "yield_at env crb r k w = ArmFfaLibYield env (ucast YIELD_AMOUNT) (snd (poll_at env crb r k w))"

definition max_yields :: "UINT32 \<Rightarrow> nat" where
  "max_yields t = (unat t + 9999) div 10000"

lemma unat_of_nat32: "n < 2 ^ 32 \<Longrightarrow> unat (of_nat n :: UINT32) = n"
  by (simp add: unat_of_nat take_bit_eq_mod)

text \<open>
  What ends the loop at poll \<open>k\<close>, and with which result: a match, the last poll, or a yield
  that fails.
\<close>

definition wait_ends :: "'w tpm_env \<Rightarrow> bool \<Rightarrow> UINT64 \<Rightarrow> UINT32 \<Rightarrow> UINT32 \<Rightarrow> UINT32 \<Rightarrow> 'w \<Rightarrow> nat \<Rightarrow> bool" where
  "wait_ends env crb r S C t w k \<longleftrightarrow>
     bits_match S C (fst (poll_at env crb r k w)) \<or> k = max_yields t \<or> EFI_ERROR (fst (yield_at env crb r k w))"

definition wait_result :: "'w tpm_env \<Rightarrow> bool \<Rightarrow> UINT64 \<Rightarrow> UINT32 \<Rightarrow> UINT32 \<Rightarrow> UINT32 \<Rightarrow> 'w \<Rightarrow> nat \<Rightarrow> EFI_STATUS \<times> 'w" where
  "wait_result env crb r S C t w k =
     (if bits_match S C (fst (poll_at env crb r k w)) then (EFI_SUCCESS, snd (poll_at env crb r k w))
      else if k = max_yields t then (EFI_TIMEOUT, snd (poll_at env crb r k w))
      else yield_at env crb r k w)"

text \<open>At poll \<open>k\<close> the counter has not wrapped, and has reached the timeout exactly at the last one.\<close>

lemma wait_counter:
  assumes "timeout_ok t" and "k \<le> max_yields t"
  shows "t \<le> of_nat (10000 * k) \<longleftrightarrow> k = max_yields t"
proof -
  have "unat t + 9999 < 2 ^ 32" using assms(1) by (simp add: timeout_ok_def)
  moreover have "10000 * k \<le> unat t + 9999"
    using assms(2) unfolding max_yields_def by linarith
  ultimately have "unat (of_nat (10000 * k) :: UINT32) = 10000 * k" by (intro unat_of_nat32) linarith
  then have "t \<le> of_nat (10000 * k) \<longleftrightarrow> unat t \<le> 10000 * k" by (simp add: word_le_nat_alt)
  also have "\<dots> \<longleftrightarrow> k = max_yields t" using assms(2) unfolding max_yields_def by linarith
  finally show ?thesis .
qed

lemma wait_loop_step:
  assumes "timeout_ok t" and "k \<le> max_yields t"
  shows "wait_loop env crb r S C t (of_nat (10000 * k)) (poll_world env crb r k w) =
     (if wait_ends env crb r S C t w k then Some (wait_result env crb r S C t w k)
      else wait_loop env crb r S C t (of_nat (10000 * Suc k)) (poll_world env crb r (Suc k) w))"
proof -
  have step: "10000 * of_nat k + YIELD_AMOUNT = (10000 + 10000 * of_nat k :: UINT32)"
    by (simp add: YIELD_AMOUNT_def)
  show ?thesis
    using wait_counter[OF assms]
    by (subst wait_loop_unfold)
      (auto simp: Let_def case_prod_unfold wait_ends_def wait_result_def poll_at_def yield_at_def step)
qed

lemma wait_loop_from:
  assumes t: "timeout_ok t" and "k \<le> max_yields t"
  shows "wait_loop env crb r S C t (of_nat (10000 * k)) (poll_world env crb r k w) =
     map_option (wait_result env crb r S C t w) (find (wait_ends env crb r S C t w) [k..<Suc (max_yields t)])"
  using assms(2)
proof (induction "max_yields t - k" arbitrary: k)
  case 0
  then have "k = max_yields t" by simp
  then show ?case using wait_loop_step[OF t order_refl] by (simp add: wait_ends_def)
next
  case (Suc d)
  then have upt: "[k..<Suc (max_yields t)] = k # [Suc k..<Suc (max_yields t)]" by (simp add: upt_conv_Cons)
  have "d = max_yields t - Suc k" "Suc k \<le> max_yields t" using Suc.hyps(2) by linarith+
  note IH = Suc.hyps(1)[OF this]
  show ?case
    unfolding wait_loop_step[OF t Suc.prems] IH upt
    by (cases "wait_ends env crb r S C t w k") (simp_all del: upt_Suc)
qed

lemma WaitRegisterBits_polls:
  assumes "timeout_ok t"
  shows "WaitRegisterBits env r S C t s =
     (let w = MicroSecondDelay env DELAY_AMOUNT (dev s); crb = mIsCrbInterface s
      in map_option (\<lambda>k. apsnd (\<lambda>w'. s\<lparr>dev := w'\<rparr>) (wait_result env crb r S C t w k))
           (first_index (wait_ends env crb r S C t w) (Suc (max_yields t))))"
proof -
  let ?w = "MicroSecondDelay env DELAY_AMOUNT (dev s)" and ?c = "mIsCrbInterface s"
  have loop: "wait_loop env ?c r S C t 0 ?w =
      map_option (wait_result env ?c r S C t ?w) (first_index (wait_ends env ?c r S C t ?w) (Suc (max_yields t)))"
    using wait_loop_from[OF assms, of 0 env ?c r S C ?w] by (simp add: first_index_def del: upt_Suc)
  show ?thesis
    unfolding WaitRegisterBits_def loop Let_def
    by (cases "first_index (wait_ends env ?c r S C t ?w) (Suc (max_yields t))")
      (simp_all add: apsnd_def map_prod_def case_prod_unfold)
qed

text \<open>When no yield fails the loop ends at the first poll that matches.\<close>

lemma WaitRegisterBits_first:
  assumes t: "timeout_ok t"
    and y: "\<And>u. \<not> EFI_ERROR (fst (ArmFfaLibYield env (ucast YIELD_AMOUNT) u))"
  shows "WaitRegisterBits env r S C t s =
     (let w = MicroSecondDelay env DELAY_AMOUNT (dev s);
          poll = (\<lambda>k. poll_at env (mIsCrbInterface s) r k w)
      in case first_index (\<lambda>k. bits_match S C (fst (poll k))) (Suc (max_yields t)) of
           Some k \<Rightarrow> Some (EFI_SUCCESS, s\<lparr>dev := snd (poll k)\<rparr>)
         | None \<Rightarrow> Some (EFI_TIMEOUT, s\<lparr>dev := snd (poll (max_yields t))\<rparr>))"
proof -
  let ?n = "max_yields t"
  have first: "first_index (\<lambda>k. P k \<or> k = n) (Suc n) = Some (case first_index P (Suc n) of Some k \<Rightarrow> k | None \<Rightarrow> n)"
    for P and n :: nat
  proof (cases "first_index P (Suc n)")
    case None
    then have "first_index (\<lambda>k. P k \<or> k = n) (Suc n) = Some n"
      by (intro first_index_eq_SomeI) (auto simp: first_index_None_iff)
    with None show ?thesis by simp
  next
    case (Some k)
    then show ?thesis by (auto intro!: first_index_eq_SomeI dest: first_index_SomeD)
  qed
  have "wait_ends env crb r S C t w = (\<lambda>k. bits_match S C (fst (poll_at env crb r k w)) \<or> k = ?n)" for crb w
    using y by (simp add: fun_eq_iff wait_ends_def yield_at_def)
  then show ?thesis
    unfolding WaitRegisterBits_polls[OF t] Let_def
    by (auto simp: first wait_result_def split: option.split dest: first_index_SomeD first_index_NoneD)
qed

text \<open>
  C30. With a timeout that leaves room for one more yield below \<open>2 ^ 32\<close>, \<^verbatim>\<open>WaitRegisterBits\<close> always
  returns, and reads the register at most once more than the timeout has 10 ms yields in it. It stops
  at the first read that matches, that is followed by a failing yield, or that is the last one the
  timeout allows, and returns success in the first case whatever the yield would do, the status
  of the yield in the second, and a timeout in the third.
\<close>

theorem WaitRegisterBits_exact:
  assumes "timeout_ok t"
  shows "\<exists>k \<le> max_yields t. let w = MicroSecondDelay env DELAY_AMOUNT (dev s); crb = mIsCrbInterface s;
       reads = (\<lambda>j. fst (poll_at env crb r j w))
     in (\<forall>j<k. \<not> bits_match S C (reads j) \<and> \<not> EFI_ERROR (fst (yield_at env crb r j w))) \<and>
        WaitRegisterBits env r S C t s =
          (if bits_match S C (reads k) then Some (EFI_SUCCESS, s\<lparr>dev := snd (poll_at env crb r k w)\<rparr>)
           else if k = max_yields t then Some (EFI_TIMEOUT, s\<lparr>dev := snd (poll_at env crb r k w)\<rparr>)
           else Some (fst (yield_at env crb r k w), s\<lparr>dev := snd (yield_at env crb r k w)\<rparr>)) \<and>
        (bits_match S C (reads k) \<or> k = max_yields t \<or> EFI_ERROR (fst (yield_at env crb r k w)))"
proof -
  let ?w = "MicroSecondDelay env DELAY_AMOUNT (dev s)" and ?c = "mIsCrbInterface s"
  have "first_index (wait_ends env ?c r S C t ?w) (Suc (max_yields t)) \<noteq> None"
    by (auto simp: first_index_None_iff wait_ends_def)
  then obtain k where k: "first_index (wait_ends env ?c r S C t ?w) (Suc (max_yields t)) = Some k" by blast
  note D = first_index_SomeD[OF k]
  have "WaitRegisterBits env r S C t s = Some (apsnd (\<lambda>w'. s\<lparr>dev := w'\<rparr>) (wait_result env ?c r S C t ?w k))"
    by (simp add: WaitRegisterBits_polls[OF assms] Let_def k)
  with D show ?thesis
    by (intro exI[of _ k]) (auto simp: Let_def wait_ends_def wait_result_def apsnd_def map_prod_def case_prod_unfold)
qed

section \<open>A concrete device\<close>

text \<open>Offsets, bits and timeouts of the TCG PTP header.\<close>

fun ex_offset :: "ptp_reg \<Rightarrow> UINT64" where
  "ex_offset Crb_LocalityControl = 0x08"
| "ex_offset Crb_LocalityStatus = 0x0C"
| "ex_offset Crb_InterfaceId = 0x30"
| "ex_offset Crb_CrbControlRequest = 0x40"
| "ex_offset Crb_CrbControlStatus = 0x44"
| "ex_offset Crb_CrbControlStart = 0x4C"
| "ex_offset Crb_CrbDataBuffer = 0x80"
| "ex_offset Fifo_Access = 0x00"
| "ex_offset Fifo_Status = 0x18"
| "ex_offset Fifo_BurstCount = 0x19"
| "ex_offset Fifo_DataFifo = 0x24"

fun ex_ptp :: "ptp_const \<Rightarrow> UINT32" where
  "ex_ptp PTP_FIFO_STS_VALID = 0x80"
| "ex_ptp PTP_FIFO_STS_EXPECT = 0x08"
| "ex_ptp PTP_FIFO_STS_GO = 0x20"
| "ex_ptp PTP_FIFO_STS_DATA = 0x10"
| "ex_ptp PTP_FIFO_STS_READY = 0x40"
| "ex_ptp PTP_FIFO_ACC_RQUUSE = 0x02"
| "ex_ptp PTP_FIFO_ACC_ACTIVE = 0x20"
| "ex_ptp PTP_FIFO_VALID = 0x80"
| "ex_ptp PTP_CRB_CONTROL_START = 0x01"
| "ex_ptp PTP_CRB_CONTROL_AREA_REQUEST_GO_IDLE = 0x02"
| "ex_ptp PTP_CRB_CONTROL_AREA_REQUEST_COMMAND_READY = 0x01"
| "ex_ptp PTP_CRB_CONTROL_AREA_STATUS_TPM_IDLE = 0x02"
| "ex_ptp PTP_CRB_LOCALITY_CONTROL_REQUEST_ACCESS = 0x01"
| "ex_ptp PTP_CRB_LOCALITY_CONTROL_RELINQUISH = 0x02"
| "ex_ptp PTP_CRB_LOCALITY_STATUS_GRANTED = 0x01"
| "ex_ptp PTP_CRB_LOCALITY_STATE_ACTIVE_LOCALITY_0 = 0x00"
| "ex_ptp PTP_CRB_LOCALITY_STATE_ACTIVE_LOCALITY_1 = 0x04"
| "ex_ptp PTP_CRB_LOCALITY_STATE_ACTIVE_LOCALITY_2 = 0x08"
| "ex_ptp PTP_CRB_LOCALITY_STATE_ACTIVE_LOCALITY_3 = 0x0C"
| "ex_ptp PTP_CRB_LOCALITY_STATE_ACTIVE_LOCALITY_4 = 0x10"
| "ex_ptp PTP_CRB_LOCALITY_STATE_TPM_REG_VALID_STATUS = 0x80"
| "ex_ptp PTP_CRB_LOCALITY_STATE_LOCALITY_ASSIGNED = 0x02"
| "ex_ptp PTP_TIMEOUT_A = 750000"
| "ex_ptp PTP_TIMEOUT_B = 2000000"
| "ex_ptp PTP_TIMEOUT_C = 200000"
| "ex_ptp PTP_TIMEOUT_D = 30000"

text \<open>
  The device answers reads from a script (an exhausted script reads as zero) and logs the
  bytes and words written.
\<close>

type_synonym tpm_script = "UINT32 list \<times> (UINT64 \<times> UINT32) list"

definition ex_read :: "UINT64 \<Rightarrow> tpm_script \<Rightarrow> UINT32 \<times> tpm_script" where
  "ex_read a w = (case w of ([], out) \<Rightarrow> (0, [], out) | (v # vs, out) \<Rightarrow> (v, vs, out))"

definition ex_write :: "UINT64 \<Rightarrow> UINT32 \<Rightarrow> tpm_script \<Rightarrow> tpm_script" where
  "ex_write a v w = (fst w, snd w @ [(a, v)])"

definition ex_tpm :: "tpm_script tpm_env" where
  "ex_tpm = \<lparr> MmioRead8 = (\<lambda>a w. (ucast (fst (ex_read a w)), snd (ex_read a w))), MmioRead32 = ex_read,
     MmioWrite8 = (\<lambda>a v. ex_write a (ucast v)), MmioWrite32 = ex_write, MicroSecondDelay = (\<lambda>_ w. w),
     ArmFfaLibYield = (\<lambda>_ w. (EFI_SUCCESS, w)), PcdTpmBaseAddress = 0x60120000,
     ptp_offset = ex_offset, ptp = ex_ptp \<rparr>"

definition ex_sst :: "bool \<Rightarrow> UINT32 list \<Rightarrow> tpm_script sst_state" where
  "ex_sst crb reads = \<lparr> mIsCrbInterface = crb, mIsIdleBypassSupported = True, dev = (reads, []) \<rparr>"

text \<open>A device on which every yield fails: the first read does not match, and the status of the yield is returned.\<close>

definition ex_no_yield :: "tpm_script tpm_env" where
  "ex_no_yield = ex_tpm\<lparr>ArmFfaLibYield := (\<lambda>_ w. (EFI_DEVICE_ERROR, w))\<rparr>"

theorem WaitRegisterBits_exact_witness:
  "\<exists>st s'. WaitRegisterBits ex_no_yield 0x6012000C 1 0 750000 (ex_sst True [0, 1]) = Some (st, s') \<and>
     st = EFI_DEVICE_ERROR"
proof -
  have t: "timeout_ok 750000" by (simp add: timeout_ok_def)
  have y: "fst (yield_at ex_no_yield c r k w) = EFI_DEVICE_ERROR" for c r k w
    by (simp add: yield_at_def ex_no_yield_def)
  have e: "EFI_ERROR EFI_DEVICE_ERROR" by code_simp
  have z: "max_yields 750000 \<noteq> 0" by (simp add: max_yields_def)
  have m: "\<not> bits_match 1 0 (fst (poll_at ex_no_yield (mIsCrbInterface (ex_sst True [0, 1])) 0x6012000C 0
      (MicroSecondDelay ex_no_yield DELAY_AMOUNT (dev (ex_sst True [0, 1])))))" by code_simp
  from WaitRegisterBits_exact[OF t, of ex_no_yield "ex_sst True [0, 1]" "0x6012000C" 1 0] obtain k where
    k: "\<forall>j<k. \<not> EFI_ERROR EFI_DEVICE_ERROR"
      "WaitRegisterBits ex_no_yield 0x6012000C 1 0 750000 (ex_sst True [0, 1]) =
        (let w = MicroSecondDelay ex_no_yield DELAY_AMOUNT (dev (ex_sst True [0, 1])); c = mIsCrbInterface (ex_sst True [0, 1]) in
         if bits_match 1 0 (fst (poll_at ex_no_yield c 0x6012000C k w))
         then Some (EFI_SUCCESS, (ex_sst True [0, 1])\<lparr>dev := snd (poll_at ex_no_yield c 0x6012000C k w)\<rparr>)
         else if k = max_yields 750000
         then Some (EFI_TIMEOUT, (ex_sst True [0, 1])\<lparr>dev := snd (poll_at ex_no_yield c 0x6012000C k w)\<rparr>)
         else Some (EFI_DEVICE_ERROR, (ex_sst True [0, 1])\<lparr>dev := snd (yield_at ex_no_yield c 0x6012000C k w)\<rparr>))"
    by (auto simp: Let_def y)
  from k(1) e have "k = 0" by blast
  with k(2) m z show ?thesis by (simp add: Let_def)
qed

section \<open>The contract of the operations\<close>

definition sst_frame :: "'w sst_state \<Rightarrow> 'w sst_state \<Rightarrow> bool" where
  "sst_frame s s' \<longleftrightarrow> mIsCrbInterface s' = mIsCrbInterface s \<and>
     mIsIdleBypassSupported s' = mIsIdleBypassSupported s"

lemma sst_frame_refl [simp]: "sst_frame s s" "sst_frame s (s\<lparr>dev := w\<rparr>)"
  by (simp_all add: sst_frame_def)

lemma sst_frame_dev [simp]: "sst_frame (s\<lparr>dev := w\<rparr>) s' = sst_frame s s'"
  by (simp add: sst_frame_def)

lemma sst_frame_trans: "sst_frame s s' \<Longrightarrow> sst_frame s' s'' \<Longrightarrow> sst_frame s s''"
  by (simp add: sst_frame_def)

definition timeouts_ok :: "'w tpm_env \<Rightarrow> bool" where
  "timeouts_ok env \<longleftrightarrow> timeout_ok (ptp env PTP_TIMEOUT_A) \<and> timeout_ok (ptp env PTP_TIMEOUT_B) \<and>
     timeout_ok (ptp env PTP_TIMEOUT_C) \<and> timeout_ok (ptp env PTP_TIMEOUT_D)"

lemma timeout_max_ok [simp]: "timeout_ok PTP_TIMEOUT_MAX"
  by (simp add: timeout_ok_def PTP_TIMEOUT_MAX_def)

lemma WaitRegisterBits_returns:
  "timeout_ok t \<Longrightarrow> \<exists>st s'. WaitRegisterBits env r S C t s = Some (st, s')"
  using wait_loop_returns by (auto simp: WaitRegisterBits_def split: option.split)

lemma WaitRegisterBits_returns_unless:
  "timeout_ok t \<Longrightarrow> WaitRegisterBits env r S C t s = None \<longleftrightarrow> False"
  using WaitRegisterBits_returns[of t env r S C s] by auto

lemma WaitRegisterBits_frame:
  "WaitRegisterBits env r S C t s = Some (st, s') \<Longrightarrow> sst_frame s s'"
  by (auto simp: WaitRegisterBits_def split: option.splits)

text \<open>
  The contract every operation without data offers the service: when the timeouts are in
  range it returns, whatever the TPM does, and it leaves the interface flags alone.
\<close>

locale sst_operation =
  fixes ok :: bool
    and sst_op :: "UINT8 \<Rightarrow> 'w sst_state \<Rightarrow> (EFI_STATUS \<times> 'w sst_state) option"
  assumes op_returns: "ok \<Longrightarrow> \<exists>st s'. sst_op l s = Some (st, s')"
    and op_frame: "sst_op l s = Some (st, s') \<Longrightarrow> sst_frame s s'"
begin

lemma op_total:
  assumes ok
  obtains st s' where "sst_op l s = Some (st, s')" and "sst_frame s s'"
  using op_returns[OF assms, of l s] op_frame[of l s] by fastforce

lemma op_bypass:
  "sst_op l s = Some (st, s') \<Longrightarrow> TpmSstIsIdleBypassSupported s' = TpmSstIsIdleBypassSupported s"
  using op_frame by (simp add: sst_frame_def TpmSstIsIdleBypassSupported_def)

end

lemmas sst_op_simps = WaitRegisterBits_returns timeouts_ok_def

interpretation go_idle: sst_operation "timeouts_ok env" "TpmSstGoIdle env" for env
  by unfold_locales
    (auto simp: TpmSstGoIdle_def sst_op_simps WaitRegisterBits_returns_unless split: if_splits option.splits
      dest!: WaitRegisterBits_frame intro: sst_frame_trans)

interpretation cmd_ready: sst_operation "timeouts_ok env" "TpmSstCmdReady env" for env
  by unfold_locales
    (auto simp: TpmSstCmdReady_def sst_op_simps WaitRegisterBits_returns_unless split: if_splits option.splits
      dest!: WaitRegisterBits_frame intro: sst_frame_trans)

interpretation loc_request: sst_operation "timeouts_ok env" "TpmSstLocalityRequest env" for env
  by unfold_locales
    (auto simp: TpmSstLocalityRequest_def sst_op_simps split: if_splits dest!: WaitRegisterBits_frame)

interpretation loc_relinquish: sst_operation "timeouts_ok env" "TpmSstLocalityRelinquish env" for env
  by unfold_locales
    (auto simp: TpmSstLocalityRelinquish_def sst_op_simps split: if_splits dest!: WaitRegisterBits_frame)

interpretation start_cmd: sst_operation "timeouts_ok env" "StartCommand env" for env
  by unfold_locales
    (auto simp: StartCommand_def sst_op_simps split: if_splits dest!: WaitRegisterBits_frame)

section \<open>Moving bytes\<close>

lemma crb_send_ok:
  "(\<forall>i \<in> set is. i < length buf) \<Longrightarrow> \<exists>w'. crb_send env l buf is w = Inr w'"
  by (induction "is" arbitrary: w) auto

lemma crb_receive_ok:
  "(\<forall>i \<in> set is. i < length buf) \<Longrightarrow>
   \<exists>buf' w'. crb_receive env l is buf w = Inr (buf', w') \<and> length buf' = length buf"
proof (induction "is" arbitrary: buf w)
  case (Cons i "is")
  obtain b w1 where "MmioRead8 env (reg_addr env l Crb_CrbDataBuffer + of_nat i) w = (b, w1)" by fastforce
  with Cons.prems Cons.IH[of "buf[i := b]" w1] show ?case by simp
qed simp

text \<open>A burst writes the next bytes of the command, as many as it has room for.\<close>

lemma fifo_send_burst_eq:
  "i < n \<Longrightarrow> n \<le> length buf \<Longrightarrow>
   fifo_send_burst env l buf n b i w =
     Inr (min n (i + b), fold (MmioWrite8 env (reg_addr env l Fifo_DataFifo)) (drop i (take (i + b) (take n buf))) w)"
proof (induction b arbitrary: i w)
  case 0
  then show ?case by simp
next
  case (Suc b)
  have d: "drop i (take (i + Suc b) (take n buf)) = buf ! i # drop (Suc i) (take (Suc i + b) (take n buf))"
    using Suc.prems by (simp add: Cons_nth_drop_Suc[symmetric])
  show ?case
  proof (cases "Suc i < n")
    case True
    with Suc show ?thesis unfolding d by simp
  next
    case False
    with Suc.prems have e: "Suc i = n" by simp
    have "fifo_send_burst env l buf n b n w' = Inr (n, w')" for w' by (cases b) simp_all
    with Suc.prems e show ?thesis unfolding d by simp
  qed
qed

lemma fifo_receive_burst_ok:
  "i < n \<Longrightarrow> n \<le> length buf \<Longrightarrow>
   \<exists>buf' w'. fifo_receive_burst env l n b i buf w = Inr (min n (i + b), buf', w') \<and> length buf' = length buf"
proof (induction b arbitrary: i buf w)
  case 0
  then show ?case by simp
next
  case (Suc b)
  obtain x w1 where r: "MmioRead8 env (reg_addr env l Fifo_DataFifo) w = (x, w1)" by fastforce
  show ?case
  proof (cases "Suc i = n")
    case True
    with Suc.prems r show ?thesis by simp
  next
    case False
    with Suc.prems Suc.IH[of "Suc i" "buf[i := x]" w1] r show ?thesis by simp
  qed
qed

lemma FifoReadBurstCount_cases:
  assumes "timeouts_ok env"
  obtains (Error) st bc w' where "FifoReadBurstCount env l w = Some (st, bc, w')" "EFI_ERROR st"
  | (Burst) bc w' where "FifoReadBurstCount env l w = Some (EFI_SUCCESS, bc, w')" "0 < unat bc"
proof -
  have "burst_loop env l 0 (MicroSecondDelay env DELAY_AMOUNT w) \<noteq> None"
    using assms by (intro burst_loop_returns) (simp add: timeouts_ok_def)
  then obtain st bc w' where r: "FifoReadBurstCount env l w = Some (st, bc, w')"
    by (auto simp: FifoReadBurstCount_def)
  then have "EFI_ERROR st \<or> bc \<noteq> 0 \<and> st = EFI_SUCCESS"
    by (intro burst_loop_positive) (simp add: FifoReadBurstCount_def)
  with r show ?thesis using Error Burst by (auto simp: unat_gt_0)
qed

lemma fifo_send_ok:
  assumes "timeouts_ok env" and "n \<le> length buf"
  shows "\<exists>i w'. fifo_send env l buf n i0 w = Some (Inr (i, w'))"
proof (induction "n - i0" arbitrary: i0 w rule: less_induct)
  case less
  show ?case
  proof (cases "i0 < n")
    case False
    then show ?thesis by (subst fifo_send.simps) simp
  next
    case True
    from assms(1) show ?thesis
    proof (cases rule: FifoReadBurstCount_cases[of env l w])
      case (Error st bc w')
      with True show ?thesis by (subst fifo_send.simps) simp
    next
      case (Burst bc w1)
      have "n - min n (i0 + unat bc) < n - i0" using True Burst(2) by linarith
      from less[OF this] True Burst(1) assms(2) show ?thesis
        by (subst fifo_send.simps) (simp add: fifo_send_burst_eq)
    qed
  qed
qed

lemma fifo_receive_ok:
  assumes "timeouts_ok env" and "n \<le> length buf" and "st0 = None \<longrightarrow> i0 < n"
  shows "\<exists>st buf' w'. fifo_receive env l n st0 i0 buf w = Some (Inr (Some st, buf', w')) \<and>
           length buf' = length buf"
  using assms(2,3)
proof (induction "n - i0" arbitrary: i0 st0 buf w rule: less_induct)
  case less
  show ?case
  proof (cases "i0 < n")
    case False
    with less.prems show ?thesis by (subst fifo_receive.simps) auto
  next
    case True
    from assms(1) show ?thesis
    proof (cases rule: FifoReadBurstCount_cases[of env l w])
      case (Error st bc w')
      with True show ?thesis by (subst fifo_receive.simps) simp
    next
      case (Burst bc w1)
      obtain buf' w2 where b: "fifo_receive_burst env l n (unat bc) i0 buf w1 =
          Inr (min n (i0 + unat bc), buf', w2)" "length buf' = length buf"
        using fifo_receive_burst_ok[OF True less.prems(1), of env l "unat bc" w1] by blast
      have "n - min n (i0 + unat bc) < n - i0" using True Burst(2) by linarith
      from less(1)[OF this, of buf' "Some EFI_SUCCESS" w2] less.prems(1) True Burst(1) b show ?thesis
        by (subst fifo_receive.simps) simp
    qed
  qed
qed

section \<open>The data path\<close>

lemma CopyCommandData_ok:
  assumes "timeouts_ok env" and "unat n \<le> length buf"
  shows "\<exists>st s'. CopyCommandData env l buf n s = Some (Inr (st, s')) \<and> sst_frame s s'"
proof (cases "mIsCrbInterface s")
  case True
  then show ?thesis
    using crb_send_ok[of "[0..<unat n]" buf env l "dev s"] assms(2) by (auto simp: CopyCommandData_def)
next
  case False
  obtain i w where "fifo_send env l buf (unat n) 0 (dev s) = Some (Inr (i, w))"
    using fifo_send_ok[OF assms] by blast
  moreover obtain st s' where wait: "WaitRegisterBits env (reg_addr env l Fifo_Status)
      (ptp env PTP_FIFO_STS_VALID) (ptp env PTP_FIFO_STS_EXPECT) (ptp env PTP_TIMEOUT_C) (s\<lparr>dev := w\<rparr>) = Some (st, s')"
    using WaitRegisterBits_returns assms(1) unfolding timeouts_ok_def by metis
  moreover have "sst_frame s s'" using WaitRegisterBits_frame[OF wait] by simp
  ultimately show ?thesis using False by (simp add: CopyCommandData_def)
qed

lemma CopyResponseData_ok:
  assumes "timeouts_ok env" and "unat n \<le> length buf" and "mIsCrbInterface s \<or> n \<noteq> 0"
  shows "\<exists>st buf' s'. CopyResponseData env l buf n s = Some (Inr (st, buf', s')) \<and>
     length buf' = length buf \<and> sst_frame s s'"
proof (cases "mIsCrbInterface s")
  case True
  then show ?thesis
    using crb_receive_ok[of "[0..<unat n]" buf env l "dev s"] assms(2) by (auto simp: CopyResponseData_def)
next
  case False
  with assms(3) have "0 < unat n" by (simp add: unat_gt_0)
  then show ?thesis
    using fifo_receive_ok[OF assms(1,2), of None 0 l "dev s"] False by (auto simp: CopyResponseData_def)
qed

lemma DumpTpmInputBlock_ok: "unat n \<le> length buf \<Longrightarrow> \<exists>x. DumpTpmInputBlock n buf = Inr x"
  by (auto simp: DumpTpmInputBlock_def Let_def list_all_iff word_less_nat_alt not_less)

text \<open>What holds of every normal return, whatever the sizes and timeouts are.\<close>

lemma crb_receive_length:
  "crb_receive env l is buf w = Inr (buf', w') \<Longrightarrow> length buf' = length buf"
  by (induction "is" arbitrary: buf w) (auto split: prod.splits if_splits)

lemma fifo_receive_burst_length:
  "fifo_receive_burst env l n b i buf w = Inr (i', buf', w') \<Longrightarrow> length buf' = length buf"
  by (induction b arbitrary: i buf w) (auto split: prod.splits if_splits)

lemma fifo_receive_length:
  assumes "fifo_receive env l n st i buf w = Some x" and "x = Inr (st', buf', w')"
  shows "length buf' = length buf"
proof -
  have "\<forall>st' buf' w'. x = Inr (st', buf', w') \<longrightarrow> length buf' = length buf"
  proof (rule fifo_receive.raw_induct[of "\<lambda>env l n st i buf w x. \<forall>st' buf' w'.
          x = Inr (st', buf', w') \<longrightarrow> length buf' = length buf", OF _ assms(1)], intro allI impI)
    fix loop and env :: "'a tpm_env" and l n st i buf w x st' buf' w'
    assume IH: "\<And>env l n st i buf w x. loop env l n st i buf w = Some x \<Longrightarrow>
        \<forall>st' buf' w'. x = Inr (st', buf', w') \<longrightarrow> length buf' = length buf"
      and run: "(if i < n then (case FifoReadBurstCount env l w of None \<Rightarrow> None
          | Some (st', bc, w1) \<Rightarrow>
              if EFI_ERROR st' then Some (Inr (Some st', buf, w1))
              else (case fifo_receive_burst env l n (unat bc) i buf w1 of
                      Inl e \<Rightarrow> Some (Inl e)
                    | Inr (i', buf', w2) \<Rightarrow>
                        loop env l n (Some (if i' = n then EFI_SUCCESS else st')) i' buf' w2))
        else Some (Inr (st, buf, w))) = Some x"
      and x: "x = Inr (st', buf', w')"
    have "length buf' = length buf"
      if "fifo_receive_burst env l n b i buf w1 = Inr (i', b', w2)" "loop env l n s i' b' w2 = Some x"
      for b w1 i' b' w2 s
      using IH[OF that(2)] fifo_receive_burst_length[OF that(1)] x by simp
    with run x show "length buf' = length buf"
      by (auto split: if_splits option.splits sum.splits prod.splits)
  qed
  with assms(2) show ?thesis by blast
qed

lemma CopyResponseData_InrD:
  assumes "CopyResponseData env l buf n s = Some (Inr (st, buf', s'))"
  shows "length buf' = length buf \<and> sst_frame s s'"
proof (cases "mIsCrbInterface s")
  case True
  with assms show ?thesis by (auto simp: CopyResponseData_def bind_result_Inr_iff dest: crb_receive_length)
next
  case False
  with assms have "bind_comp (fifo_receive env l (unat n) None 0 buf (dev s)) (\<lambda>(Status, buf, w).
      Some (case Status of None \<Rightarrow> Inl UninitialisedRead | Some st \<Rightarrow> Inr (st, buf, s\<lparr>dev := w\<rparr>))) =
      Some (Inr (st, buf', s'))"
    by (simp only: CopyResponseData_def if_False)
  then obtain x where f: "fifo_receive env l (unat n) None 0 buf (dev s) = Some (Inr x)"
    unfolding bind_comp_Inr_iff by blast
  obtain st0 b0 w0 where x: "x = (st0, b0, w0)" by (cases x) auto
  have "length b0 = length buf" by (rule fifo_receive_length[OF f]) (simp add: x)
  with assms False f x show ?thesis by (auto simp: CopyResponseData_def split: option.splits)
qed

lemma CopyCommandData_InrD:
  assumes "CopyCommandData env l buf n s = Some (Inr (st, s'))"
  shows "sst_frame s s'"
proof (cases "mIsCrbInterface s")
  case True
  with assms show ?thesis by (auto simp: CopyCommandData_def bind_result_Inr_iff)
next
  case False
  with assms obtain i w where "WaitRegisterBits env (reg_addr env l Fifo_Status)
      (ptp env PTP_FIFO_STS_VALID) (ptp env PTP_FIFO_STS_EXPECT) (ptp env PTP_TIMEOUT_C) (s\<lparr>dev := w\<rparr>) = Some (st, s')"
    by (auto simp: CopyCommandData_def bind_comp_Inr_iff)
  from WaitRegisterBits_frame[OF this] show ?thesis by simp
qed

lemma TpmSstStart_InrD:
  assumes run: "TpmSstStart env l cmd rsp data s = Some (Inr (st, data', s'))"
  shows "unat cmd \<le> length data" and "unat rsp \<le> length data"
    and "length data' = length data" and "sst_frame s s'"
proof -
  let ?buf = "take (unat cmd) data @ replicate (length data - unat cmd) 0"
  show cmd: "unat cmd \<le> length data" using run by (auto simp: TpmSstStart_def Let_def split: if_splits)
  then have len: "length ?buf = length data" by simp
  obtain x where dump: "DumpTpmInputBlock cmd ?buf = Inr x"
    using DumpTpmInputBlock_ok[of cmd ?buf] cmd len by auto
  have fin: "unat rsp \<le> length data"
    if "DumpTpmOutputBlock rsp b = Inr y" "length b = length data" for b y
    using that by (auto simp: DumpTpmOutputBlock_def split: if_splits)
  from run obtain st1 s1 where c: "CopyCommandData env l ?buf cmd s = Some (Inr (st1, s1))"
    using cmd dump by (auto simp: TpmSstStart_def Let_def bind_comp_Inr_iff)
  note fr1 = CopyCommandData_InrD[OF c]
  have "unat rsp \<le> length data \<and> length data' = length data \<and> sst_frame s s'"
  proof (cases "EFI_ERROR st1")
    case True
    with run cmd dump c fr1 len fin show ?thesis by (auto simp: TpmSstStart_def Let_def bind_result_Inr_iff)
  next
    case ok1: False
    with run cmd dump c obtain st2 s2 where d: "StartCommand env l s1 = Some (st2, s2)"
      by (auto simp: TpmSstStart_def Let_def split: option.splits)
    note fr2 = sst_frame_trans[OF fr1 start_cmd.op_frame[OF d]]
    show ?thesis
    proof (cases "EFI_ERROR st2")
      case True
      with run cmd dump c ok1 d fr2 len fin show ?thesis by (auto simp: TpmSstStart_def Let_def bind_result_Inr_iff)
    next
      case ok2: False
      with run cmd dump c ok1 d obtain st3 b3 s3 where r: "CopyResponseData env l ?buf rsp s2 = Some (Inr (st3, b3, s3))"
        by (auto simp: TpmSstStart_def Let_def bind_comp_Inr_iff)
      have l3: "length b3 = length data" and fr3: "sst_frame s s3"
        using CopyResponseData_InrD[OF r] sst_frame_trans[OF fr2] len by auto
      show ?thesis
        using run cmd dump c ok1 d ok2 r l3 fr3 fin
        by (cases "EFI_ERROR st3") (auto simp: TpmSstStart_def Let_def bind_result_Inr_iff)
    qed
  qed
  then show "unat rsp \<le> length data" "length data' = length data" "sst_frame s s'" by auto
qed

lemma tpm_start_safe:
  assumes "timeouts_ok env" and "unat cmd \<le> length data" and "unat rsp \<le> length data"
    and "mIsCrbInterface s \<or> rsp \<noteq> 0"
  shows "\<exists>st data' s'. TpmSstStart env l cmd rsp data s = Some (Inr (st, data', s')) \<and>
     length data' = length data \<and> drop (unat rsp) data' = drop (unat rsp) data \<and>
     (data' = data \<or> \<not> EFI_ERROR st) \<and> sst_frame s s'"
proof -
  let ?buf = "take (unat cmd) data @ replicate (length data - unat cmd) 0"
  have len: "length ?buf = length data" using assms(2) by simp
  have out: "DumpTpmOutputBlock rsp buf = Inr (take (unat rsp) buf)" if "length buf = length data" for buf
    using that assms(3) by (simp add: DumpTpmOutputBlock_def)
  obtain x where dump: "DumpTpmInputBlock cmd ?buf = Inr x"
    using DumpTpmInputBlock_ok[of cmd ?buf] assms(2) len by auto
  obtain st1 s1 where c: "CopyCommandData env l ?buf cmd s = Some (Inr (st1, s1))" "sst_frame s s1"
    using CopyCommandData_ok[OF assms(1), of cmd ?buf] assms(2) len by metis
  obtain st2 s2 where b: "StartCommand env l s1 = Some (st2, s2)" "sst_frame s1 s2"
    using start_cmd.op_total[OF assms(1)] .
  have "mIsCrbInterface s2 \<or> rsp \<noteq> 0" using assms(4) c(2) b(2) by (simp add: sst_frame_def)
  then obtain st3 buf s3 where r: "CopyResponseData env l ?buf rsp s2 = Some (Inr (st3, buf, s3))"
      "length buf = length data" "sst_frame s2 s3"
    using CopyResponseData_ok[OF assms(1), of rsp ?buf s2 l] assms(3) len by auto
  have fr: "sst_frame s s2" "sst_frame s s3"
    using c(2) b(2) r(3) by (blast intro: sst_frame_trans)+
  show ?thesis
    using assms(2,3) c b r fr len
    by (simp add: TpmSstStart_def Let_def dump out)
qed

text \<open>
  C29. With sizes that fit the data buffer (and, on a FIFO, a response of at least one byte)
  \<^verbatim>\<open>TpmSstStart\<close> always returns, even when the TPM never answers, reads and writes only
  inside the two buffers, keeps the interface flags, and on an error leaves the data buffer
  as it was; bytes beyond the response size are never changed.
\<close>

theorem TpmSstStart_safe:
  assumes "timeouts_ok env" and "unat cmd \<le> length data" and "unat rsp \<le> length data"
    and "mIsCrbInterface s \<or> rsp \<noteq> 0"
  shows "\<exists>st data' s'. TpmSstStart env l cmd rsp data s = Some (Inr (st, data', s')) \<and>
     length data' = length data \<and> drop (unat rsp) data' = drop (unat rsp) data \<and>
     (data' = data \<or> \<not> EFI_ERROR st) \<and> sst_frame s s'"
  using assms by (rule tpm_start_safe)

theorem TpmSstStart_safe_witness:
  "\<exists>st data' s'. TpmSstStart ex_tpm 0 2 3 [1, 2, 0, 9] (ex_sst True []) = Some (Inr (st, data', s')) \<and>
     length data' = length [1 :: UINT8, 2, 0, 9] \<and>
     drop (unat (3 :: UINT32)) data' = drop (unat (3 :: UINT32)) [1, 2, 0, 9] \<and>
     (data' = [1, 2, 0, 9] \<or> \<not> EFI_ERROR st) \<and> sst_frame (ex_sst True []) s'"
  by (rule TpmSstStart_safe) (simp_all add: timeouts_ok_def timeout_ok_def ex_tpm_def ex_sst_def)

text \<open>
  A command size above the data buffer, which the normal world can write into the
  internal CRB, makes \<^verbatim>\<open>TpmSstStart\<close> copy past the end of its local buffer.
\<close>

lemma TpmSstStart_overflow:
  assumes "length data < unat cmd"
  shows "TpmSstStart env l cmd rsp data s = Some (Inl OutOfBounds)"
  using assms by (simp add: TpmSstStart_def)

text \<open>
  On a FIFO, when the TPM never offers a burst count but reports a valid status without
  the expect bit, the timeout of the burst-count read is overwritten: the command copy
  reports success although not a single byte was sent.
\<close>

lemma CopyCommandData_timeout_lost:
  "FifoReadBurstCount ex_tpm 0 (replicate 8 0 @ [0x80], []) = Some (EFI_TIMEOUT, 0, [0x80], []) \<and>
   CopyCommandData ex_tpm 0 [1, 2] 2 (ex_sst False (replicate 8 0 @ [0x80])) =
     Some (Inr (EFI_SUCCESS, ex_sst False []))"
  by (intro conjI; code_simp)

section \<open>The FIFO as a stream\<close>

text \<open>Facts about the device that reading the burst count leaves alone.\<close>

definition burst_keeps :: "'w tpm_env \<Rightarrow> UINT8 \<Rightarrow> ('w \<Rightarrow> bool) \<Rightarrow> bool" where
  "burst_keeps env l I \<longleftrightarrow> (\<forall>w. I w \<longrightarrow>
     I (snd (MmioRead8 env (reg_addr env l Fifo_BurstCount) w)) \<and>
     I (snd (MmioRead8 env (reg_addr env l Fifo_BurstCount + 1) w)) \<and>
     I (snd (ArmFfaLibYield env (ucast YIELD_AMOUNT) w)) \<and>
     I (MicroSecondDelay env DELAY_AMOUNT w))"

lemma burst_loop_keeps:
  assumes "burst_loop env l d w = Some x" and "I w" and "burst_keeps env l I"
  shows "I (snd (snd x))"
proof -
  have "\<forall>I. I w \<longrightarrow> burst_keeps env l I \<longrightarrow> I (snd (snd x))"
  proof (rule burst_loop.raw_induct[of "\<lambda>env l d w x. \<forall>I. I w \<longrightarrow> burst_keeps env l I \<longrightarrow> I (snd (snd x))",
        OF _ assms(1)], intro allI impI)
    fix loop and env :: "'a tpm_env" and l d w I and x :: "EFI_STATUS \<times> UINT16 \<times> 'a"
    let ?r1 = "MmioRead8 env (reg_addr env l Fifo_BurstCount) w"
    let ?r2 = "MmioRead8 env (reg_addr env l Fifo_BurstCount + 1) (snd ?r1)"
    let ?y = "ArmFfaLibYield env (ucast YIELD_AMOUNT) (snd ?r2)"
    assume IH: "\<And>env l d w x. loop env l d w = Some x \<Longrightarrow> \<forall>I. I w \<longrightarrow> burst_keeps env l I \<longrightarrow> I (snd (snd x))"
      and run: "(let (b0, w1) = ?r1; (b1, w2) = MmioRead8 env (reg_addr env l Fifo_BurstCount + 1) w1;
          bc = push_bit 8 (ucast b1) + ucast b0 :: UINT16
        in if bc \<noteq> 0 then Some (EFI_SUCCESS, bc, w2)
           else if ptp env PTP_TIMEOUT_D \<le> d then Some (EFI_TIMEOUT, bc, w2)
           else (case ArmFfaLibYield env (ucast YIELD_AMOUNT) w2 of
                   (st, w3) \<Rightarrow> if EFI_ERROR st then Some (st, bc, w3) else loop env l (d + YIELD_AMOUNT) w3)) = Some x"
      and I: "I w" "burst_keeps env l I"
    have k: "I (snd ?r2)" "I (snd ?y)" using I by (simp_all add: burst_keeps_def)
    have "I (snd (snd x))" if "loop env l (d + YIELD_AMOUNT) (snd ?y) = Some x"
      using IH[OF that] k I(2) by blast
    with run k show "I (snd (snd x))" unfolding Let_def case_prod_unfold by (auto split: if_splits)
  qed
  with assms(2,3) show ?thesis by blast
qed

lemma FifoReadBurstCount_keeps:
  assumes "FifoReadBurstCount env l w = Some (st, bc, w')" and "I w" and "burst_keeps env l I"
  shows "I w'"
  using burst_loop_keeps[of env l 0 "MicroSecondDelay env DELAY_AMOUNT w" "(st, bc, w')" I] assms
  by (simp add: FifoReadBurstCount_def burst_keeps_def)

text \<open>No read of the burst count fails: the TPM always offers one in time, and no yield fails.\<close>

definition burst_flows :: "'w tpm_env \<Rightarrow> UINT8 \<Rightarrow> bool" where
  "burst_flows env l \<longleftrightarrow> (\<forall>w st bc w'. FifoReadBurstCount env l w = Some (st, bc, w') \<longrightarrow> \<not> EFI_ERROR st)"

text \<open>
  \<open>Q bs\<close> says that the device has received \<open>bs\<close>: each data write appends a byte. The send loop
  delivers a prefix of the command, and all of it unless a burst count fails to arrive.
\<close>

definition fifo_collects :: "'w tpm_env \<Rightarrow> UINT8 \<Rightarrow> (UINT8 list \<Rightarrow> 'w \<Rightarrow> bool) \<Rightarrow> bool" where
  "fifo_collects env l Q \<longleftrightarrow>
     (\<forall>bs b w. Q bs w \<longrightarrow> Q (bs @ [b]) (MmioWrite8 env (reg_addr env l Fifo_DataFifo) b w)) \<and>
     (\<forall>bs. burst_keeps env l (Q bs))"

lemma fifo_collects_fold:
  assumes "fifo_collects env l Q" and "Q bs w"
  shows "Q (bs @ cs) (fold (MmioWrite8 env (reg_addr env l Fifo_DataFifo)) cs w)"
  using assms(2)
proof (induction cs arbitrary: bs w)
  case (Cons c cs)
  then show ?case using Cons.IH[of "bs @ [c]"] assms(1) by (simp add: fifo_collects_def)
qed simp

lemma fifo_send_collects:
  assumes Q: "fifo_collects env l Q" and ok: "timeouts_ok env" and len: "n \<le> length buf"
    and "Q bs w" "i0 \<le> n"
  shows "\<exists>i w'. fifo_send env l buf n i0 w = Some (Inr (i, w')) \<and> i0 \<le> i \<and> i \<le> n \<and>
     Q (bs @ drop i0 (take i buf)) w' \<and> (burst_flows env l \<longrightarrow> i = n)"
  using assms(4,5)
proof (induction "n - i0" arbitrary: i0 bs w rule: less_induct)
  case less
  show ?case
  proof (cases "i0 < n")
    case False
    with less.prems show ?thesis by (subst fifo_send.simps) simp
  next
    case True
    have keeps: "Q bs w'" if "FifoReadBurstCount env l w = Some (st, bc, w')" for st bc w'
      using FifoReadBurstCount_keeps[OF that, of "Q bs"] less.prems(1) Q by (simp add: fifo_collects_def)
    from ok show ?thesis
    proof (cases rule: FifoReadBurstCount_cases[of env l w])
      case (Error st bc w')
      with True keeps[OF Error(1)] show ?thesis by (subst fifo_send.simps) (auto simp: burst_flows_def)
    next
      case (Burst bc w1)
      let ?k = "min n (i0 + unat bc)"
      let ?w2 = "fold (MmioWrite8 env (reg_addr env l Fifo_DataFifo)) (drop i0 (take ?k buf)) w1"
      have "Q (bs @ drop i0 (take ?k buf)) ?w2" by (rule fifo_collects_fold[OF Q keeps[OF Burst(1)]])
      moreover have "n - ?k < n - i0" "?k \<le> n" using True Burst(2) by linarith+
      ultimately obtain i w' where r: "fifo_send env l buf n ?k ?w2 = Some (Inr (i, w'))" "?k \<le> i" "i \<le> n"
        "Q ((bs @ drop i0 (take ?k buf)) @ drop ?k (take i buf)) w'" "burst_flows env l \<longrightarrow> i = n"
        using less(1) by blast
      have "fifo_send env l buf n i0 w = fifo_send env l buf n ?k ?w2"
        using True Burst(1) len by (subst fifo_send.simps) (simp add: fifo_send_burst_eq min.commute)
      moreover have "drop i0 (take ?k buf) @ drop ?k (take i buf) = drop i0 (take i buf)"
        using r(2) True by (intro drop_take_append) simp_all
      ultimately show ?thesis using r True by (auto simp del: drop_take)
    qed
  qed
qed

text \<open>
  \<open>R xs\<close> says that the device still has \<open>xs\<close> to deliver: each data read takes the first byte. The
  receive loop stores the bytes in order, or reports the error of the burst count.
\<close>

definition fifo_supplies :: "'w tpm_env \<Rightarrow> UINT8 \<Rightarrow> (UINT8 list \<Rightarrow> 'w \<Rightarrow> bool) \<Rightarrow> bool" where
  "fifo_supplies env l R \<longleftrightarrow>
     (\<forall>x xs w. R (x # xs) w \<longrightarrow> fst (MmioRead8 env (reg_addr env l Fifo_DataFifo) w) = x \<and>
        R xs (snd (MmioRead8 env (reg_addr env l Fifo_DataFifo) w))) \<and>
     (\<forall>xs. burst_keeps env l (R xs))"

lemma fifo_receive_burst_supplies:
  assumes R: "fifo_supplies env l R"
  shows "i < n \<Longrightarrow> n \<le> length buf \<Longrightarrow> n - i \<le> length xs \<Longrightarrow> R xs w \<Longrightarrow>
     \<exists>w'. fifo_receive_burst env l n b i buf w =
        Inr (min n (i + b), take i buf @ take (min n (i + b) - i) xs @ drop (min n (i + b)) buf, w') \<and>
      R (drop (min n (i + b) - i) xs) w'"
proof (induction b arbitrary: i buf xs w)
  case 0
  then show ?case by simp
next
  case (Suc b)
  from Suc.prems obtain x ys where xs: "xs = x # ys" by (cases xs) auto
  obtain w1 where r: "MmioRead8 env (reg_addr env l Fifo_DataFifo) w = (x, w1)" "R ys w1"
    using R Suc.prems(4) unfolding xs fifo_supplies_def by (metis prod.collapse)
  show ?case
  proof (cases "Suc i = n")
    case True
    then have "n - i = 1" by simp
    with True Suc.prems r show ?thesis by (simp add: xs take_Suc_conv_app_nth upd_conv_take_nth_drop)
  next
    case False
    let ?k = "min n (Suc i + b)"
    have "Suc i < n" "n \<le> length (buf[i := x])" "n - Suc i \<le> length ys" using False Suc.prems by (simp_all add: xs)
    from Suc.IH[OF this r(2)] obtain w' where
      b: "fifo_receive_burst env l n b (Suc i) (buf[i := x]) w1 =
        Inr (?k, take (Suc i) (buf[i := x]) @ take (?k - Suc i) ys @ drop ?k (buf[i := x]), w')"
        "R (drop (?k - Suc i) ys) w'" by blast
    have k: "min n (i + Suc b) = ?k" "i < ?k" "?k - i = Suc (?k - Suc i)" using False Suc.prems by auto
    have "fifo_receive_burst env l n (Suc b) i buf w =
        Inr (?k, take i buf @ (x # take (?k - Suc i) ys) @ drop ?k buf, w')"
      using b(1) r False Suc.prems k(2) by (simp only: take_update_drop) simp
    with b(2) show ?thesis unfolding k(1) xs k(3) by simp
  qed
qed

lemma fifo_receive_supplies:
  assumes R: "fifo_supplies env l R" and ok: "timeouts_ok env"
    and "R xs w" "i \<le> n" "n \<le> length buf" "n - i \<le> length xs" "st0 = (if i < n then st0 else Some EFI_SUCCESS)"
  shows "\<exists>st buf' w'. fifo_receive env l n st0 i buf w = Some (Inr (Some st, buf', w')) \<and>
     (if st = EFI_SUCCESS then buf' = take i buf @ take (n - i) xs @ drop n buf \<and> R (drop (n - i) xs) w'
      else EFI_ERROR st \<and> \<not> burst_flows env l)"
  using assms(3-)
proof (induction "n - i" arbitrary: i st0 buf xs w rule: less_induct)
  case less
  show ?case
  proof (cases "i < n")
    case False
    with less.prems show ?thesis by (subst fifo_receive.simps) simp
  next
    case True
    have keeps: "R xs w'" if "FifoReadBurstCount env l w = Some (st, bc, w')" for st bc w'
      using FifoReadBurstCount_keeps[OF that, of "R xs"] less.prems(1) R by (simp add: fifo_supplies_def)
    from ok show ?thesis
    proof (cases rule: FifoReadBurstCount_cases[of env l w])
      case (Error st bc w')
      with True show ?thesis by (subst fifo_receive.simps) (auto simp: burst_flows_def)
    next
      case (Burst bc w1)
      let ?k = "min n (i + unat bc)"
      let ?b = "take i buf @ take (?k - i) xs @ drop ?k buf"
      let ?xs = "drop (?k - i) xs"
      obtain w2 where b: "fifo_receive_burst env l n (unat bc) i buf w1 = Inr (?k, ?b, w2)" "R ?xs w2"
        using fifo_receive_burst_supplies[OF R True less.prems(3,4) keeps[OF Burst(1)], of "unat bc"] by blast
      have m: "n - ?k < n - i" "?k \<le> n" "i < ?k" using True Burst(2) by linarith+
      have len: "n \<le> length ?b" "n - ?k \<le> length ?xs" using less.prems True m by auto
      have "Some EFI_SUCCESS = (if ?k < n then Some EFI_SUCCESS else Some EFI_SUCCESS)" by simp
      from less(1)[OF m(1) b(2) m(2) len this] obtain st buf' w' where
        r: "fifo_receive env l n (Some EFI_SUCCESS) ?k ?b w2 = Some (Inr (Some st, buf', w'))"
        "if st = EFI_SUCCESS then buf' = take ?k ?b @ take (n - ?k) ?xs @ drop n ?b \<and> R (drop (n - ?k) ?xs) w'
         else EFI_ERROR st \<and> \<not> burst_flows env l"
        by blast
      have e1: "take ?k ?b @ take (n - ?k) ?xs @ drop n ?b = take i buf @ take (n - i) xs @ drop n buf"
        using m less.prems by (intro splice_splice) auto
      have e2: "drop (n - ?k) ?xs = drop (n - i) xs" using m by simp
      have e3: "fifo_receive env l n st0 i buf w = fifo_receive env l n (Some EFI_SUCCESS) ?k ?b w2"
        using True Burst(1) b(1) by (subst fifo_receive.simps) simp
      show ?thesis using r unfolding e1 e2 e3 by blast
    qed
  qed
qed

text \<open>
  The bytes a device has received on its FIFO: an observation that each data write
  extends and that nothing else the loop does changes.
\<close>

definition fifo_observation :: "'w tpm_env \<Rightarrow> UINT8 \<Rightarrow> ('w \<Rightarrow> UINT8 list) \<Rightarrow> bool" where
  "fifo_observation env l sent \<longleftrightarrow>
     (\<forall>b w. sent (MmioWrite8 env (reg_addr env l Fifo_DataFifo) b w) = sent w @ [b]) \<and>
     (\<forall>a w. sent (snd (MmioRead8 env a w)) = sent w) \<and>
     (\<forall>t w. sent (snd (ArmFfaLibYield env t w)) = sent w) \<and>
     (\<forall>t w. sent (MicroSecondDelay env t w) = sent w)"

lemma fifo_observation_collects:
  "fifo_observation env l sent \<Longrightarrow> fifo_collects env l (\<lambda>bs w. sent w = bs)"
  by (auto simp: fifo_observation_def fifo_collects_def burst_keeps_def)

text \<open>
  Whatever burst counts the TPM offers, the FIFO receives the command bytes in order
  and without gaps or repetitions: when the send loop ends after \<open>i\<close> bytes, exactly the
  first \<open>i\<close> bytes of the command have been written.
\<close>

lemma fifo_send_in_order:
  assumes obs: "fifo_observation env l sent" and ok: "timeouts_ok env" and len: "n \<le> length buf"
  shows "\<exists>i w'. fifo_send env l buf n 0 w = Some (Inr (i, w')) \<and> i \<le> n \<and> sent w' = sent w @ take i buf"
  using fifo_send_collects[OF fifo_observation_collects[OF obs] ok len, where bs = "sent w" and w = w and ?i0.0 = 0] by auto

definition ex_sent :: "tpm_script \<Rightarrow> UINT8 list" where
  "ex_sent w = map (\<lambda>x. ucast (snd x)) (filter (\<lambda>x. fst x = 0x60120024) (snd w))"

lemma fifo_send_in_order_witness:
  "\<exists>i w'. fifo_send ex_tpm 0 [1, 2, 3] 3 0 ([2, 0, 9], []) = Some (Inr (i, w')) \<and> i \<le> 3 \<and>
     ex_sent w' = ex_sent ([2, 0, 9], []) @ take i [1, 2, 3]"
proof (rule fifo_send_in_order)
  have u: "(ucast (ucast (b :: UINT8) :: UINT32) :: UINT8) = b" for b
    by (rule bit_word_eqI) (auto simp: bit_ucast_iff)
  have r: "ex_sent (snd (ex_read a w)) = ex_sent w" for a w
    by (cases w; cases "fst w") (simp_all add: ex_read_def ex_sent_def)
  show "fifo_observation ex_tpm 0 ex_sent"
    using r by (simp add: fifo_observation_def ex_tpm_def reg_addr_def LOCALITY_OFFSET_def)
      (simp add: ex_sent_def ex_write_def u)
  show "timeouts_ok ex_tpm" by (simp add: timeouts_ok_def timeout_ok_def ex_tpm_def)
  show "3 \<le> length [1 :: UINT8, 2, 3]" by simp
qed

end
