(* ===== verification/TpmService.thy ===== *)
theory TpmService
  imports FfaMessages TpmSstProperties
begin

text \<open>
  \<^verbatim>\<open>TpmServiceLib\<close>: the service that offers a TPM to the normal world through a command
  response buffer (CRB) per locality in shared memory. The normal world writes the CRBs
  between calls; every call is one direct message. The numeric values of the interface
  (\<^verbatim>\<open>TPM2_FFA_*\<close>, the number of localities, the layout of the interface identifier, the size
  of the data buffer) come from headers outside this repository and are fields of
  \<open>tpm_cfg\<close>.
\<close>

section \<open>Configuration and state\<close>

datatype tpm2_ffa =
    TPM2_FFA_SUCCESS_OK
  | TPM2_FFA_SUCCESS_OK_RESULTS_RETURNED
  | TPM2_FFA_ERROR_NOFUNC
  | TPM2_FFA_ERROR_NOTSUP
  | TPM2_FFA_ERROR_INVARG
  | TPM2_FFA_ERROR_DENIED
  | TPM2_FFA_ERROR_NOMEM
  | TPM2_FFA_GET_INTERFACE_VERSION
  | TPM2_FFA_GET_FEATURE_INFO
  | TPM2_FFA_START
  | TPM2_FFA_REGISTER_FOR_NOTIFICATION
  | TPM2_FFA_UNREGISTER_FROM_NOTIFICATION
  | TPM2_FFA_FINISH_NOTIFIED
  | TPM2_FFA_MANAGE_LOCALITY
  | TPM2_FFA_START_FUNC_QUALIFIER_COMMAND
  | TPM2_FFA_START_FUNC_QUALIFIER_LOCALITY
  | TPM2_FFA_MANAGE_LOCALITY_OPEN
  | TPM2_FFA_MANAGE_LOCALITY_CLOSE

record 'w tpm_cfg =
  sst_env :: "'w tpm_env"
  PcdTpmInternalBaseAddress :: UINT64
  NUM_LOCALITIES :: UINT8
  CrbDataBufferSize :: nat   \<comment> \<open>\<^verbatim>\<open>sizeof (InternalTpmCrb->CrbDataBuffer)\<close>\<close>
  interface_id :: "UINT32 \<Rightarrow> UINT32 \<Rightarrow> UINT32 \<Rightarrow> UINT32 \<Rightarrow> UINT32"
    \<comment> \<open>\<^verbatim>\<open>PTP_CRB_INTERFACE_IDENTIFIER\<close> from \<^verbatim>\<open>InterfaceType\<close>, \<^verbatim>\<open>InterfaceVersion\<close>, \<^verbatim>\<open>CapLocality\<close>, \<^verbatim>\<open>CapCRB\<close>\<close>
  tpm2 :: "tpm2_ffa \<Rightarrow> UINT64"

abbreviation cptp :: "'w tpm_cfg \<Rightarrow> ptp_const \<Rightarrow> UINT32" where
  "cptp cfg \<equiv> ptp (sst_env cfg)"

datatype TpmState = TPM_STATE_IDLE | TPM_STATE_READY | TPM_STATE_COMPLETE | NUM_TPM_STATES

datatype TpmLocalityState = TPM_LOCALITY_CLOSED | TPM_LOCALITY_OPEN | NUM_LOCALITY_STATES

type_synonym TpmStatus = UINTN

text \<open>The registers of a CRB the source names; the bytes of all others are kept together.\<close>

record PTP_CRB_REGISTERS =
  LocalityState :: UINT32
  LocalityControl :: UINT32
  LocalityStatus :: UINT32
  InterfaceId :: UINT32
  CrbControlExtension :: UINT64
  CrbControlRequest :: UINT32
  CrbControlStatus :: UINT32
  CrbControlCancel :: UINT32
  CrbControlStart :: UINT32
  CrbInterruptEnable :: UINT32
  CrbInterruptStatus :: UINT32
  CrbControlCommandSize :: UINT32
  CrbControlCommandAddressLow :: UINT32
  CrbControlCommandAddressHigh :: UINT32
  CrbControlResponseSize :: UINT32
  CrbControlResponseAddrss :: UINT64
  CrbDataBuffer :: "UINT8 list"
  CrbUnnamed :: "UINT8 list"

record 'w tpm_state =
  mCurrentState :: TpmState
  mActiveLocality :: UINT8
  mInterfaceIdDefault :: UINT32
  mLocalityStates :: "TpmLocalityState list"
  InternalCrb :: "PTP_CRB_REGISTERS list"
  sst :: "'w sst_state"

definition TPM_MAJOR_VER :: UINTN where "TPM_MAJOR_VER = 0x1"
definition TPM_MINOR_VER :: UINTN where "TPM_MINOR_VER = 0x0"
definition TPM_LOCALITY_OFFSET :: UINT64 where "TPM_LOCALITY_OFFSET = 0x1000"

definition NO_ACTIVE_LOCALITY :: "'w tpm_cfg \<Rightarrow> UINT8" where
  "NO_ACTIVE_LOCALITY cfg = NUM_LOCALITIES cfg"

definition ConvertEfiToTpmStatus :: "'w tpm_cfg \<Rightarrow> EFI_STATUS \<Rightarrow> TpmStatus" where
  "ConvertEfiToTpmStatus cfg Status =
     (case Status of
        EFI_SUCCESS \<Rightarrow> tpm2 cfg TPM2_FFA_SUCCESS_OK
      | EFI_DEVICE_ERROR \<Rightarrow> tpm2 cfg TPM2_FFA_ERROR_DENIED
      | EFI_BUFFER_TOO_SMALL \<Rightarrow> tpm2 cfg TPM2_FFA_ERROR_NOMEM
      | _ \<Rightarrow> tpm2 cfg TPM2_FFA_ERROR_DENIED)"

section \<open>The internal CRB\<close>

text \<open>\<^verbatim>\<open>(UINTN)InternalTpmCrb->CrbDataBuffer\<close>\<close>

definition data_addr :: "'w tpm_cfg \<Rightarrow> UINT8 \<Rightarrow> UINT64" where
  "data_addr cfg Locality = PcdTpmInternalBaseAddress cfg + ucast Locality * TPM_LOCALITY_OFFSET +
     ptp_offset (sst_env cfg) Crb_CrbDataBuffer"

text \<open>The buffer address and size registers, set the same way by both routines below.\<close>

definition set_buffer_regs :: "'w tpm_cfg \<Rightarrow> UINT8 \<Rightarrow> PTP_CRB_REGISTERS \<Rightarrow> PTP_CRB_REGISTERS" where
  "set_buffer_regs cfg Locality crb = crb\<lparr>
     CrbControlCommandAddressHigh := ucast (drop_bit 32 (data_addr cfg Locality)),
     CrbControlCommandAddressLow := ucast (data_addr cfg Locality),
     CrbControlCommandSize := of_nat (CrbDataBufferSize cfg),
     CrbControlResponseAddrss := data_addr cfg Locality,
     CrbControlResponseSize := of_nat (CrbDataBufferSize cfg)\<rparr>"

definition crb_zero :: "PTP_CRB_REGISTERS \<Rightarrow> PTP_CRB_REGISTERS" where
  "crb_zero crb = \<lparr> LocalityState = 0, LocalityControl = 0, LocalityStatus = 0, InterfaceId = 0,
     CrbControlExtension = 0, CrbControlRequest = 0, CrbControlStatus = 0, CrbControlCancel = 0,
     CrbControlStart = 0, CrbInterruptEnable = 0, CrbInterruptStatus = 0, CrbControlCommandSize = 0,
     CrbControlCommandAddressLow = 0, CrbControlCommandAddressHigh = 0, CrbControlResponseSize = 0,
     CrbControlResponseAddrss = 0, CrbDataBuffer = map (\<lambda>_. 0) (CrbDataBuffer crb),
     CrbUnnamed = map (\<lambda>_. 0) (CrbUnnamed crb) \<rparr>"

definition init_crb :: "'w tpm_cfg \<Rightarrow> UINT32 \<Rightarrow> UINT8 \<Rightarrow> PTP_CRB_REGISTERS \<Rightarrow> PTP_CRB_REGISTERS" where
  "init_crb cfg iid Locality crb = set_buffer_regs cfg Locality
     ((crb_zero crb)\<lparr> InterfaceId := iid,
        CrbControlStatus := cptp cfg PTP_CRB_CONTROL_AREA_STATUS_TPM_IDLE \<rparr>)"

definition InitInternalCrb :: "'w tpm_cfg \<Rightarrow> UINT8 \<Rightarrow> 'w tpm_state \<Rightarrow> 'w tpm_state result" where
  "InitInternalCrb cfg Locality st =
     (if unat Locality < length (InternalCrb st)
      then Inr (st\<lparr>InternalCrb := (InternalCrb st)[unat Locality :=
                     init_crb cfg (mInterfaceIdDefault st) Locality (InternalCrb st ! unat Locality)]\<rparr>)
      else Inl OutOfBounds)"

definition active_bits :: "'w tpm_cfg \<Rightarrow> UINT8 \<Rightarrow> UINT32" where
  "active_bits cfg l =
     (if l = 0 then cptp cfg PTP_CRB_LOCALITY_STATE_ACTIVE_LOCALITY_0
      else if l = 1 then cptp cfg PTP_CRB_LOCALITY_STATE_ACTIVE_LOCALITY_1
      else if l = 2 then cptp cfg PTP_CRB_LOCALITY_STATE_ACTIVE_LOCALITY_2
      else if l = 3 then cptp cfg PTP_CRB_LOCALITY_STATE_ACTIVE_LOCALITY_3
      else if l = 4 then cptp cfg PTP_CRB_LOCALITY_STATE_ACTIVE_LOCALITY_4
      else 0)"

definition clean_crb ::
  "'w tpm_cfg \<Rightarrow> UINT32 \<Rightarrow> TpmState \<Rightarrow> UINT8 \<Rightarrow> PTP_CRB_REGISTERS \<Rightarrow> PTP_CRB_REGISTERS" where
  "clean_crb cfg iid cur Locality crb = set_buffer_regs cfg Locality
     (crb\<lparr> LocalityState := LocalityState crb OR active_bits cfg Locality OR
             cptp cfg PTP_CRB_LOCALITY_STATE_TPM_REG_VALID_STATUS OR
             cptp cfg PTP_CRB_LOCALITY_STATE_LOCALITY_ASSIGNED,
           LocalityStatus := LocalityStatus crb OR cptp cfg PTP_CRB_LOCALITY_STATUS_GRANTED,
           LocalityControl := 0, InterfaceId := iid, CrbControlExtension := 0,
           CrbControlRequest := 0, CrbControlCancel := 0, CrbControlStart := 0,
           CrbInterruptEnable := 0, CrbInterruptStatus := 0,
           CrbControlStatus := (if cur = TPM_STATE_IDLE
              then cptp cfg PTP_CRB_CONTROL_AREA_STATUS_TPM_IDLE else 0) \<rparr>)"

definition CleanInternalCrb :: "'w tpm_cfg \<Rightarrow> 'w tpm_state \<Rightarrow> 'w tpm_state result" where
  "CleanInternalCrb cfg st =
     (let l = mActiveLocality st
      in if l = NO_ACTIVE_LOCALITY cfg then Inr st
         else if unat l < length (InternalCrb st)
         then Inr (st\<lparr>InternalCrb := (InternalCrb st)[unat l :=
                clean_crb cfg (mInterfaceIdDefault st) (mCurrentState st) l (InternalCrb st ! unat l)]\<rparr>)
         else Inl OutOfBounds)"

section \<open>Commands\<close>

text \<open>
  The idiom \<^verbatim>\<open>Status = TpmSst... (mActiveLocality); if (Status == EFI_SUCCESS) { mCurrentState = ...; }\<close>,
  with the clearing of the data buffer where the source has it.
\<close>

definition sst_transition ::
  "(UINT8 \<Rightarrow> 'w sst_state \<Rightarrow> (EFI_STATUS \<times> 'w sst_state) option) \<Rightarrow> TpmState \<Rightarrow> bool \<Rightarrow>
   'w tpm_state \<Rightarrow> (EFI_STATUS \<times> 'w tpm_state) comp" where
  "sst_transition sst_op target clear st =
     (case sst_op (mActiveLocality st) (sst st) of
        None \<Rightarrow> None
      | Some (Status, s') \<Rightarrow>
          (let st1 = st\<lparr>sst := s'\<rparr>; l = unat (mActiveLocality st);
               crb = InternalCrb st ! l
           in Some (Inr (Status,
                if Status = EFI_SUCCESS
                then st1\<lparr>mCurrentState := target,
                         InternalCrb := (if clear
                           then (InternalCrb st)[l := crb\<lparr>CrbDataBuffer := map (\<lambda>_. 0) (CrbDataBuffer crb)\<rparr>]
                           else InternalCrb st)\<rparr>
                else st1))))"

definition sst_start ::
  "'w tpm_cfg \<Rightarrow> 'w tpm_state \<Rightarrow> (EFI_STATUS \<times> 'w tpm_state) comp" where
  "sst_start cfg st =
     (let l = unat (mActiveLocality st); crb = InternalCrb st ! l
      in bind_comp (TpmSstStart (sst_env cfg) (mActiveLocality st) (CrbControlCommandSize crb)
                      (CrbControlResponseSize crb) (CrbDataBuffer crb) (sst st))
           (\<lambda>(Status, data, s').
              Some (Inr (Status, st\<lparr>sst := s',
                InternalCrb := (InternalCrb st)[l := crb\<lparr>CrbDataBuffer := data\<rparr>],
                mCurrentState := (if Status = EFI_SUCCESS then TPM_STATE_COMPLETE else mCurrentState st)\<rparr>))))"

definition HandleCommand :: "'w tpm_cfg \<Rightarrow> 'w tpm_state \<Rightarrow> (TpmStatus \<times> 'w tpm_state) comp" where
  "HandleCommand cfg st =
     (let crb = InternalCrb st ! unat (mActiveLocality st);
          goIdle = (CrbControlRequest crb AND cptp cfg PTP_CRB_CONTROL_AREA_REQUEST_GO_IDLE \<noteq> 0);
          cmdReady = (CrbControlRequest crb AND cptp cfg PTP_CRB_CONTROL_AREA_REQUEST_COMMAND_READY \<noteq> 0);
          start = (CrbControlStart crb AND cptp cfg PTP_CRB_CONTROL_START \<noteq> 0);
          GoIdle = TpmSstGoIdle (sst_env cfg); CmdReady = TpmSstCmdReady (sst_env cfg);
          denied = Some (Inr (EFI_ACCESS_DENIED, st))
      in if length (InternalCrb st) \<le> unat (mActiveLocality st) then Some (Inl OutOfBounds)
         else bind_comp
           (case mCurrentState st of
              TPM_STATE_IDLE \<Rightarrow>
                if cmdReady then sst_transition CmdReady TPM_STATE_READY False st else denied
            | TPM_STATE_READY \<Rightarrow>
                if goIdle then sst_transition GoIdle TPM_STATE_IDLE False st
                else if cmdReady then sst_transition CmdReady (mCurrentState st) False st
                else if start then sst_start cfg st
                else denied
            | TPM_STATE_COMPLETE \<Rightarrow>
                if goIdle then sst_transition GoIdle TPM_STATE_IDLE True st
                else if cmdReady
                then (if TpmSstIsIdleBypassSupported (sst st)
                      then sst_transition CmdReady TPM_STATE_READY True st else denied)
                else if start
                then (if TpmSstIsIdleBypassSupported (sst st) then sst_start cfg st else denied)
                else denied
            | NUM_TPM_STATES \<Rightarrow> sst_transition GoIdle TPM_STATE_IDLE True st)
           (\<lambda>(Status, st'). Some (Inr (ConvertEfiToTpmStatus cfg Status, st'))))"

text \<open>
  In \<open>sst_start\<close> the state becomes COMPLETE on success; from COMPLETE the source assigns
  nothing, which is the same value.
\<close>

definition HandleLocalityRequest ::
  "'w tpm_cfg \<Rightarrow> UINT8 \<Rightarrow> 'w tpm_state \<Rightarrow> (TpmStatus \<times> 'w tpm_state) comp" where
  "HandleLocalityRequest cfg Locality st =
     (let crb = InternalCrb st ! unat Locality;
          finish = (\<lambda>ActiveLocality sst_op.
            case sst_op Locality (sst st) of
              None \<Rightarrow> None
            | Some (Status, s') \<Rightarrow>
                if Status = EFI_SUCCESS
                then Some (bind_result (InitInternalCrb cfg Locality (st\<lparr>sst := s'\<rparr>))
                       (\<lambda>st'. Inr (ConvertEfiToTpmStatus cfg Status, st'\<lparr>mActiveLocality := ActiveLocality\<rparr>)))
                else Some (Inr (ConvertEfiToTpmStatus cfg Status, st\<lparr>sst := s'\<rparr>)))
      in if length (InternalCrb st) \<le> unat Locality then Some (Inl OutOfBounds)
         else if LocalityControl crb AND cptp cfg PTP_CRB_LOCALITY_CONTROL_RELINQUISH \<noteq> 0
         then (if Locality \<noteq> mActiveLocality st
               then Some (Inr (tpm2 cfg TPM2_FFA_ERROR_DENIED, st))
               else finish (NO_ACTIVE_LOCALITY cfg) (TpmSstLocalityRelinquish (sst_env cfg)))
         else if LocalityControl crb AND cptp cfg PTP_CRB_LOCALITY_CONTROL_REQUEST_ACCESS \<noteq> 0
         then (if mActiveLocality st \<noteq> NO_ACTIVE_LOCALITY cfg \<and> mActiveLocality st \<noteq> Locality
               then Some (Inr (tpm2 cfg TPM2_FFA_ERROR_DENIED, st))
               else finish Locality (TpmSstLocalityRequest (sst_env cfg)))
         else Some (Inr (tpm2 cfg TPM2_FFA_ERROR_DENIED, st)))"

section \<open>Message handlers\<close>

definition GetInterfaceVersionHandler ::
  "'w tpm_cfg \<Rightarrow> DIRECT_MSG_ARGS_EX \<Rightarrow> DIRECT_MSG_ARGS_EX \<Rightarrow> TpmStatus \<times> DIRECT_MSG_ARGS_EX" where
  "GetInterfaceVersionHandler cfg Request Response =
     (tpm2 cfg TPM2_FFA_SUCCESS_OK,
      Response\<lparr> Arg0 := tpm2 cfg TPM2_FFA_SUCCESS_OK_RESULTS_RETURNED,
                Arg1 := push_bit 16 TPM_MAJOR_VER OR TPM_MINOR_VER \<rparr>)"

definition GetFeatureInfoHandler ::
  "'w tpm_cfg \<Rightarrow> DIRECT_MSG_ARGS_EX \<Rightarrow> DIRECT_MSG_ARGS_EX \<Rightarrow> TpmStatus \<times> DIRECT_MSG_ARGS_EX" where
  "GetFeatureInfoHandler cfg Request Response =
     (tpm2 cfg TPM2_FFA_SUCCESS_OK, Response\<lparr>Arg0 := tpm2 cfg TPM2_FFA_ERROR_NOTSUP\<rparr>)"

definition StartHandler ::
  "'w tpm_cfg \<Rightarrow> DIRECT_MSG_ARGS_EX \<Rightarrow> DIRECT_MSG_ARGS_EX \<Rightarrow> 'w tpm_state \<Rightarrow>
   (TpmStatus \<times> DIRECT_MSG_ARGS_EX \<times> 'w tpm_state) comp" where
  "StartHandler cfg Request Response st =
     (let Function = ucast (Arg1 Request) :: UINT16;
          Locality = ucast (Arg2 Request) :: UINT8
      in bind_comp
           (if Locality \<ge> NUM_LOCALITIES cfg then Some (Inr (tpm2 cfg TPM2_FFA_ERROR_INVARG, st))
            else if mLocalityStates st ! unat Locality = TPM_LOCALITY_CLOSED
            then Some (Inr (tpm2 cfg TPM2_FFA_ERROR_DENIED, st))
            else if ucast Function = tpm2 cfg TPM2_FFA_START_FUNC_QUALIFIER_COMMAND
            then (if Locality = mActiveLocality st then HandleCommand cfg st
                  else Some (Inr (tpm2 cfg TPM2_FFA_ERROR_INVARG, st)))
            else if ucast Function = tpm2 cfg TPM2_FFA_START_FUNC_QUALIFIER_LOCALITY
            then HandleLocalityRequest cfg Locality st
            else Some (Inr (tpm2 cfg TPM2_FFA_ERROR_INVARG, st)))
           (\<lambda>(ReturnVal, st1).
              Some (bind_result (CleanInternalCrb cfg st1)
                (\<lambda>st2. Inr (ReturnVal, Response\<lparr>Arg0 := ReturnVal\<rparr>, st2)))))"

text \<open>The three notification handlers of this service (\<^verbatim>\<open>RegisterHandler\<close>, \<^verbatim>\<open>UnregisterHandler\<close>, \<^verbatim>\<open>FinishHandler\<close>).\<close>

definition TpmRegisterHandler ::
  "'w tpm_cfg \<Rightarrow> DIRECT_MSG_ARGS_EX \<Rightarrow> DIRECT_MSG_ARGS_EX \<Rightarrow> TpmStatus \<times> DIRECT_MSG_ARGS_EX" where
  "TpmRegisterHandler cfg Request Response =
     (tpm2 cfg TPM2_FFA_SUCCESS_OK, Response\<lparr>Arg0 := tpm2 cfg TPM2_FFA_ERROR_NOTSUP\<rparr>)"

definition TpmUnregisterHandler ::
  "'w tpm_cfg \<Rightarrow> DIRECT_MSG_ARGS_EX \<Rightarrow> DIRECT_MSG_ARGS_EX \<Rightarrow> TpmStatus \<times> DIRECT_MSG_ARGS_EX" where
  "TpmUnregisterHandler cfg Request Response =
     (tpm2 cfg TPM2_FFA_SUCCESS_OK, Response\<lparr>Arg0 := tpm2 cfg TPM2_FFA_ERROR_NOTSUP\<rparr>)"

definition FinishHandler ::
  "'w tpm_cfg \<Rightarrow> DIRECT_MSG_ARGS_EX \<Rightarrow> DIRECT_MSG_ARGS_EX \<Rightarrow> TpmStatus \<times> DIRECT_MSG_ARGS_EX" where
  "FinishHandler cfg Request Response =
     (tpm2 cfg TPM2_FFA_SUCCESS_OK, Response\<lparr>Arg0 := tpm2 cfg TPM2_FFA_ERROR_NOTSUP\<rparr>)"

definition ManageLocalityHandler ::
  "'w tpm_cfg \<Rightarrow> DIRECT_MSG_ARGS_EX \<Rightarrow> DIRECT_MSG_ARGS_EX \<Rightarrow> 'w tpm_state \<Rightarrow>
   TpmStatus \<times> DIRECT_MSG_ARGS_EX \<times> 'w tpm_state" where
  "ManageLocalityHandler cfg Request Response st =
     (let LocalityOperation = ucast (Arg1 Request) :: UINT16;
          Locality = ucast (Arg2 Request) :: UINT8;
          set = (\<lambda>x. st\<lparr>mLocalityStates := (mLocalityStates st)[unat Locality := x]\<rparr>);
          (ReturnVal, st') =
            (if SourceId Request AND 0xFF00 \<noteq> 0xFF00 then (tpm2 cfg TPM2_FFA_ERROR_DENIED, st)
             else if Locality \<ge> NUM_LOCALITIES cfg then (tpm2 cfg TPM2_FFA_ERROR_INVARG, st)
             else if ucast LocalityOperation = tpm2 cfg TPM2_FFA_MANAGE_LOCALITY_OPEN
             then (tpm2 cfg TPM2_FFA_SUCCESS_OK, set TPM_LOCALITY_OPEN)
             else if ucast LocalityOperation = tpm2 cfg TPM2_FFA_MANAGE_LOCALITY_CLOSE
             then (tpm2 cfg TPM2_FFA_SUCCESS_OK, set TPM_LOCALITY_CLOSED)
             else (tpm2 cfg TPM2_FFA_ERROR_INVARG, st))
      in (ReturnVal, Response\<lparr>Arg0 := ReturnVal\<rparr>, st'))"

text \<open>\<^verbatim>\<open>for (Locality = 0; Locality < NUM_LOCALITIES; Locality++) InitInternalCrb (Locality);\<close>\<close>

fun init_crbs :: "'w tpm_cfg \<Rightarrow> nat list \<Rightarrow> 'w tpm_state \<Rightarrow> 'w tpm_state result" where
  "init_crbs cfg [] st = Inr st"
| "init_crbs cfg (l # ls) st = bind_result (InitInternalCrb cfg (of_nat l) st) (init_crbs cfg ls)"

definition TpmServiceInit :: "'w tpm_cfg \<Rightarrow> 'w tpm_state \<Rightarrow> 'w tpm_state result" where
  "TpmServiceInit cfg st =
     bind_result (init_crbs cfg [0..<unat (NUM_LOCALITIES cfg)]
                    (st\<lparr>mInterfaceIdDefault := interface_id cfg 1 1 1 1\<rparr>))
       (\<lambda>st1. Inr (st1\<lparr> sst := TpmSstInit (sst_env cfg) (sst st1),
                       mCurrentState := TPM_STATE_IDLE,
                       mActiveLocality := NO_ACTIVE_LOCALITY cfg \<rparr>))"

definition TpmServiceDeInit :: "'w tpm_state \<Rightarrow> 'w tpm_state" where
  "TpmServiceDeInit st = st"

definition TpmServiceHandle ::
  "'w tpm_cfg \<Rightarrow> DIRECT_MSG_ARGS_EX option \<Rightarrow> DIRECT_MSG_ARGS_EX option \<Rightarrow> 'w tpm_state \<Rightarrow>
   (DIRECT_MSG_ARGS_EX option \<times> 'w tpm_state) comp" where
  "TpmServiceHandle cfg Request Response st =
     (case (Request, Response) of
        (Some req, Some resp) \<Rightarrow>
          (let Opcode = Arg0 req;
               quiet = (\<lambda>r. Some (Inr (Some (snd r), st)))
           in if Opcode = tpm2 cfg TPM2_FFA_GET_INTERFACE_VERSION
              then quiet (GetInterfaceVersionHandler cfg req resp)
              else if Opcode = tpm2 cfg TPM2_FFA_GET_FEATURE_INFO
              then quiet (GetFeatureInfoHandler cfg req resp)
              else if Opcode = tpm2 cfg TPM2_FFA_START
              then bind_comp (StartHandler cfg req resp st) (\<lambda>(_, resp', st'). Some (Inr (Some resp', st')))
              else if Opcode = tpm2 cfg TPM2_FFA_REGISTER_FOR_NOTIFICATION
              then quiet (TpmRegisterHandler cfg req resp)
              else if Opcode = tpm2 cfg TPM2_FFA_UNREGISTER_FROM_NOTIFICATION
              then quiet (TpmUnregisterHandler cfg req resp)
              else if Opcode = tpm2 cfg TPM2_FFA_FINISH_NOTIFIED
              then quiet (FinishHandler cfg req resp)
              else if Opcode = tpm2 cfg TPM2_FFA_MANAGE_LOCALITY
              then (case ManageLocalityHandler cfg req resp st of
                      (_, resp', st') \<Rightarrow> Some (Inr (Some resp', st')))
              else Some (Inr (Some (resp\<lparr>Arg0 := tpm2 cfg TPM2_FFA_ERROR_NOFUNC\<rparr>), st)))
      | _ \<Rightarrow> Some (Inr (Response, st)))"

end
