(* ===== verification/TpmProperties.thy ===== *)
theory TpmProperties
  imports TpmService
begin

text \<open>
  Correctness of the TPM service: an invariant of every reachable state, a refinement of
  the abstract locality and command state machine of the PTP specification, the answers to
  every message, and the state of the internal CRB after each start request.
\<close>

section \<open>Invariant\<close>

definition tpm_inv :: "'w tpm_cfg \<Rightarrow> 'w tpm_state \<Rightarrow> bool" where
  "tpm_inv cfg st \<longleftrightarrow>
     length (InternalCrb st) = unat (NUM_LOCALITIES cfg) \<and>
     (\<forall>crb \<in> set (InternalCrb st). length (CrbDataBuffer crb) = CrbDataBufferSize cfg) \<and>
     length (mLocalityStates st) = unat (NUM_LOCALITIES cfg) \<and>
     mActiveLocality st \<le> NUM_LOCALITIES cfg \<and>
     mCurrentState st \<noteq> NUM_TPM_STATES"

lemma tpm_inv_lengths:
  "tpm_inv cfg st \<Longrightarrow> length (InternalCrb st) = unat (NUM_LOCALITIES cfg)"
  "tpm_inv cfg st \<Longrightarrow> length (mLocalityStates st) = unat (NUM_LOCALITIES cfg)"
  by (simp_all add: tpm_inv_def)

lemma crb_len:
  "tpm_inv cfg st \<Longrightarrow> i < unat (NUM_LOCALITIES cfg) \<Longrightarrow>
   length (CrbDataBuffer (InternalCrb st ! i)) = CrbDataBufferSize cfg"
  by (simp add: tpm_inv_def)

lemma ball_update: "\<forall>x \<in> set xs. P x \<Longrightarrow> P y \<Longrightarrow> \<forall>x \<in> set (xs[i := y]). P x"
  using set_update_subset_insert[of xs i y] by auto

lemma tpm_inv_put [wf_intro]:
  assumes "tpm_inv cfg st" and "length (CrbDataBuffer crb) = CrbDataBufferSize cfg"
  shows "tpm_inv cfg (st\<lparr>InternalCrb := (InternalCrb st)[i := crb]\<rparr>)"
proof -
  have "\<forall>c \<in> set ((InternalCrb st)[i := crb]). length (CrbDataBuffer c) = CrbDataBufferSize cfg"
    using assms by (intro ball_update) (simp_all add: tpm_inv_def)
  with assms(1) show ?thesis by (simp add: tpm_inv_def)
qed

lemma buffer_set_buffer_regs [simp]: "CrbDataBuffer (set_buffer_regs cfg l crb) = CrbDataBuffer crb"
  by (simp add: set_buffer_regs_def)

lemma buffer_clean_crb [simp]: "CrbDataBuffer (clean_crb cfg iid cur l crb) = CrbDataBuffer crb"
  by (simp add: clean_crb_def)

lemma buffer_init_crb [simp]: "CrbDataBuffer (init_crb cfg iid l crb) = map (\<lambda>_. 0) (CrbDataBuffer crb)"
  by (simp add: init_crb_def crb_zero_def)

lemma CleanInternalCrb_ok:
  assumes "tpm_inv cfg st"
  shows "\<exists>st'. CleanInternalCrb cfg st = Inr st' \<and> tpm_inv cfg st' \<and> mCurrentState st' = mCurrentState st \<and>
     mActiveLocality st' = mActiveLocality st \<and> mLocalityStates st' = mLocalityStates st \<and> sst st' = sst st"
proof (cases "mActiveLocality st = NO_ACTIVE_LOCALITY cfg")
  case True
  with assms show ?thesis by (simp add: CleanInternalCrb_def)
next
  case False
  then have l: "unat (mActiveLocality st) < unat (NUM_LOCALITIES cfg)"
    using assms by (simp add: tpm_inv_def NO_ACTIVE_LOCALITY_def word_le_nat_alt word_unat_eq_iff)
  show ?thesis
    using False l assms by (simp add: CleanInternalCrb_def Let_def tpm_inv_put crb_len tpm_inv_lengths)
qed

section \<open>Requests to the state translation library\<close>

text \<open>What a service step may do to the machine state while it keeps owner and localities.\<close>

definition keeps_owner :: "'w tpm_state \<Rightarrow> 'w tpm_state \<Rightarrow> bool" where
  "keeps_owner st st' \<longleftrightarrow> mActiveLocality st' = mActiveLocality st \<and>
     mLocalityStates st' = mLocalityStates st \<and> sst_frame (sst st) (sst st')"

lemma keeps_owner_refl [simp]: "keeps_owner st st"
  by (simp add: keeps_owner_def)

context sst_operation
begin

lemma sst_transition_result:
  assumes "sst_transition sst_op target clear st = Some (Inr (st0, st'))" and "tpm_inv cfg st"
    and "unat (mActiveLocality st) < unat (NUM_LOCALITIES cfg)" and "target \<noteq> NUM_TPM_STATES"
  shows "tpm_inv cfg st' \<and> keeps_owner st st' \<and>
     mCurrentState st' = (if st0 = EFI_SUCCESS then target else mCurrentState st)"
proof -
  obtain s' where op: "sst_op (mActiveLocality st) (sst st) = Some (st0, s')"
    and st': "st' = (if st0 = EFI_SUCCESS
       then st\<lparr>sst := s', mCurrentState := target, InternalCrb := (if clear
          then (InternalCrb st)[unat (mActiveLocality st) := (InternalCrb st ! unat (mActiveLocality st))\<lparr>CrbDataBuffer :=
             map (\<lambda>_. 0) (CrbDataBuffer (InternalCrb st ! unat (mActiveLocality st)))\<rparr>]
          else InternalCrb st)\<rparr>
       else st\<lparr>sst := s'\<rparr>)"
    using assms(1) by (auto simp: sst_transition_def Let_def split: option.splits)
  have inv: "tpm_inv cfg (st\<lparr>sst := s'\<rparr>)" "tpm_inv cfg (st\<lparr>sst := s', mCurrentState := target\<rparr>)"
    using assms(2,4) by (simp_all add: tpm_inv_def)
  have "tpm_inv cfg st'"
    unfolding st' using inv tpm_inv_put[OF inv(2)] assms(2,3)
    by (simp add: crb_len)
  with op_frame[OF op] show ?thesis by (simp add: st' keeps_owner_def)
qed

lemma sst_transition_total:
  assumes ok
  shows "\<exists>st0 st'. sst_transition sst_op target clear st = Some (Inr (st0, st'))"
  using op_returns[OF assms] by (auto simp: sst_transition_def Let_def split: option.split)

end

lemma sst_start_result:
  fixes st :: "'w tpm_state"
  assumes run: "sst_start cfg st = Some (Inr (st0, st'))" and inv: "tpm_inv cfg st"
    and l: "unat (mActiveLocality st) < unat (NUM_LOCALITIES cfg)"
  shows "tpm_inv cfg st' \<and> keeps_owner st st' \<and>
     mCurrentState st' = (if st0 = EFI_SUCCESS then TPM_STATE_COMPLETE else mCurrentState st)"
proof -
  let ?l = "unat (mActiveLocality st)"
  let ?crb = "InternalCrb st ! ?l"
  from run obtain x where t: "TpmSstStart (sst_env cfg) (mActiveLocality st) (CrbControlCommandSize ?crb)
        (CrbControlResponseSize ?crb) (CrbDataBuffer ?crb) (sst st) = Some (Inr x)"
      "(case x of (Status, data, s') \<Rightarrow> Some (Inr (Status, st\<lparr>sst := s',
                InternalCrb := (InternalCrb st)[?l := ?crb\<lparr>CrbDataBuffer := data\<rparr>],
                mCurrentState := (if Status = EFI_SUCCESS then TPM_STATE_COMPLETE else mCurrentState st)\<rparr>))) =
        Some (Inr (st0, st') :: (EFI_STATUS \<times> 'w tpm_state) result)"
    unfolding sst_start_def Let_def bind_comp_Inr_iff by (elim exE conjE) (rule that; assumption)
  obtain a data s' where x0: "x = (a, data, s')" by (rule prod_cases3)
  with t(2) have x: "x = (st0, data, s')" by simp
  have d: "length data = length (CrbDataBuffer ?crb)" and fr: "sst_frame (sst st) s'"
    using TpmSstStart_InrD(3,4)[OF t(1)[unfolded x]] by auto
  have st': "st' = st\<lparr>sst := s', InternalCrb := (InternalCrb st)[?l := ?crb\<lparr>CrbDataBuffer := data\<rparr>],
      mCurrentState := (if st0 = EFI_SUCCESS then TPM_STATE_COMPLETE else mCurrentState st)\<rparr>"
    using t(2) unfolding x by simp
  have "tpm_inv cfg (st\<lparr>InternalCrb := (InternalCrb st)[?l := ?crb\<lparr>CrbDataBuffer := data\<rparr>]\<rparr>)"
    by (rule tpm_inv_put[OF inv]) (simp add: d crb_len[OF inv l])
  then have "tpm_inv cfg st'" by (simp add: st' tpm_inv_def)
  then show ?thesis using fr by (simp add: st' keeps_owner_def)
qed

section \<open>The abstract machine\<close>

text \<open>
  The contract of the service as a function: at most one locality owns the TPM; a locality must
  be open to request or relinquish it and to have commands run; commands move along the state
  diagram of the PTP, where leaving COMPLETE other than to IDLE needs the idle bypass; and
  localities are opened and closed by the secure monitor. \<open>None\<close> is a refusal.
\<close>

record tpm_spec =
  owner :: "UINT8 option"
  phase :: TpmState
  open_locs :: "UINT8 set"

datatype tpm_request =
    Command UINT8 bool bool bool  \<comment> \<open>locality; go idle, command ready, start\<close>
  | Access UINT8
  | Relinquish UINT8
  | Open UINT8
  | Close UINT8
  | Other

definition command_next :: "bool \<Rightarrow> TpmState \<Rightarrow> bool \<Rightarrow> bool \<Rightarrow> bool \<Rightarrow> TpmState option" where
  "command_next bypass p idle ready start =
     (if p = TPM_STATE_IDLE then (if ready then Some TPM_STATE_READY else None)
      else if idle then Some TPM_STATE_IDLE
      else if p = TPM_STATE_COMPLETE \<and> \<not> bypass then None
      else if ready then Some TPM_STATE_READY
      else if start then Some TPM_STATE_COMPLETE
      else None)"

fun spec_next :: "bool \<Rightarrow> tpm_request \<Rightarrow> tpm_spec \<Rightarrow> tpm_spec option" where
  "spec_next bypass (Command l idle ready start) a =
     (if owner a = Some l \<and> l \<in> open_locs a
      then map_option (\<lambda>p. a\<lparr>phase := p\<rparr>) (command_next bypass (phase a) idle ready start) else None)"
| "spec_next bypass (Access l) a =
     (if owner a \<in> {None, Some l} \<and> l \<in> open_locs a then Some (a\<lparr>owner := Some l\<rparr>) else None)"
| "spec_next bypass (Relinquish l) a =
     (if owner a = Some l \<and> l \<in> open_locs a then Some (a\<lparr>owner := None\<rparr>) else None)"
| "spec_next bypass (Open l) a = Some (a\<lparr>open_locs := insert l (open_locs a)\<rparr>)"
| "spec_next bypass (Close l) a = Some (a\<lparr>open_locs := open_locs a - {l}\<rparr>)"
| "spec_next bypass Other a = None"

definition abs_tpm :: "'w tpm_cfg \<Rightarrow> 'w tpm_state \<Rightarrow> tpm_spec" where
  "abs_tpm cfg st = \<lparr>
     owner = (if mActiveLocality st = NO_ACTIVE_LOCALITY cfg then None else Some (mActiveLocality st)),
     phase = mCurrentState st,
     open_locs = {l. l < NUM_LOCALITIES cfg \<and> mLocalityStates st ! unat l \<noteq> TPM_LOCALITY_CLOSED} \<rparr>"

lemma abs_tpm_eqI:
  "mActiveLocality st' = mActiveLocality st \<Longrightarrow> mLocalityStates st' = mLocalityStates st \<Longrightarrow>
   abs_tpm cfg st' = (abs_tpm cfg st)\<lparr>phase := mCurrentState st'\<rparr>"
  by (simp add: abs_tpm_def)

text \<open>What a message asks for: its words, and the request registers of the locality's CRB.\<close>

definition command_bits :: "'w tpm_cfg \<Rightarrow> PTP_CRB_REGISTERS \<Rightarrow> bool \<times> bool \<times> bool" where
  "command_bits cfg crb =
     (CrbControlRequest crb AND cptp cfg PTP_CRB_CONTROL_AREA_REQUEST_GO_IDLE \<noteq> 0,
      CrbControlRequest crb AND cptp cfg PTP_CRB_CONTROL_AREA_REQUEST_COMMAND_READY \<noteq> 0,
      CrbControlStart crb AND cptp cfg PTP_CRB_CONTROL_START \<noteq> 0)"

definition start_request :: "'w tpm_cfg \<Rightarrow> UINT16 \<Rightarrow> UINT8 \<Rightarrow> 'w tpm_state \<Rightarrow> tpm_request" where
  "start_request cfg f l st =
     (let crb = InternalCrb st ! unat l
      in if l \<ge> NUM_LOCALITIES cfg then Other
         else if ucast f = tpm2 cfg TPM2_FFA_START_FUNC_QUALIFIER_COMMAND
         then (case command_bits cfg crb of (idle, ready, start) \<Rightarrow> Command l idle ready start)
         else if ucast f = tpm2 cfg TPM2_FFA_START_FUNC_QUALIFIER_LOCALITY
         then (if LocalityControl crb AND cptp cfg PTP_CRB_LOCALITY_CONTROL_RELINQUISH \<noteq> 0 then Relinquish l
               else if LocalityControl crb AND cptp cfg PTP_CRB_LOCALITY_CONTROL_REQUEST_ACCESS \<noteq> 0 then Access l
               else Other)
         else Other)"

definition manage_request :: "'w tpm_cfg \<Rightarrow> UINT16 \<Rightarrow> UINT16 \<Rightarrow> UINT8 \<Rightarrow> tpm_request" where
  "manage_request cfg src f l =
     (if src AND 0xFF00 \<noteq> 0xFF00 \<or> l \<ge> NUM_LOCALITIES cfg then Other
      else if ucast f = tpm2 cfg TPM2_FFA_MANAGE_LOCALITY_OPEN then Open l
      else if ucast f = tpm2 cfg TPM2_FFA_MANAGE_LOCALITY_CLOSE then Close l
      else Other)"

definition request_of :: "'w tpm_cfg \<Rightarrow> DIRECT_MSG_ARGS_EX \<Rightarrow> 'w tpm_state \<Rightarrow> tpm_request" where
  "request_of cfg req st =
     (if Arg0 req = tpm2 cfg TPM2_FFA_START then start_request cfg (ucast (Arg1 req)) (ucast (Arg2 req)) st
      else if Arg0 req = tpm2 cfg TPM2_FFA_MANAGE_LOCALITY
      then manage_request cfg (SourceId req) (ucast (Arg1 req)) (ucast (Arg2 req))
      else Other)"

text \<open>The codes of the interface are told apart by their values.\<close>

definition opcodes_distinct :: "'w tpm_cfg \<Rightarrow> bool" where
  "opcodes_distinct cfg \<longleftrightarrow> distinct (map (tpm2 cfg)
     [TPM2_FFA_GET_INTERFACE_VERSION, TPM2_FFA_GET_FEATURE_INFO, TPM2_FFA_START,
      TPM2_FFA_REGISTER_FOR_NOTIFICATION, TPM2_FFA_UNREGISTER_FROM_NOTIFICATION, TPM2_FFA_FINISH_NOTIFIED,
      TPM2_FFA_MANAGE_LOCALITY])"

definition success_distinct :: "'w tpm_cfg \<Rightarrow> bool" where
  "success_distinct cfg \<longleftrightarrow> list_all (\<lambda>c. tpm2 cfg c \<noteq> tpm2 cfg TPM2_FFA_SUCCESS_OK)
     [TPM2_FFA_SUCCESS_OK_RESULTS_RETURNED, TPM2_FFA_ERROR_NOFUNC, TPM2_FFA_ERROR_NOTSUP, TPM2_FFA_ERROR_INVARG,
      TPM2_FFA_ERROR_DENIED, TPM2_FFA_ERROR_NOMEM]"

lemma success_distinctD [simp]:
  assumes "success_distinct cfg"
  shows "tpm2 cfg TPM2_FFA_ERROR_DENIED \<noteq> tpm2 cfg TPM2_FFA_SUCCESS_OK"
    "tpm2 cfg TPM2_FFA_ERROR_INVARG \<noteq> tpm2 cfg TPM2_FFA_SUCCESS_OK"
    "tpm2 cfg TPM2_FFA_ERROR_NOTSUP \<noteq> tpm2 cfg TPM2_FFA_SUCCESS_OK"
    "tpm2 cfg TPM2_FFA_ERROR_NOFUNC \<noteq> tpm2 cfg TPM2_FFA_SUCCESS_OK"
    "tpm2 cfg TPM2_FFA_SUCCESS_OK_RESULTS_RETURNED \<noteq> tpm2 cfg TPM2_FFA_SUCCESS_OK"
    "ConvertEfiToTpmStatus cfg s = tpm2 cfg TPM2_FFA_SUCCESS_OK \<longleftrightarrow> s = EFI_SUCCESS"
  using assms by (auto simp: success_distinct_def ConvertEfiToTpmStatus_def split: EFI_STATUS.splits)

lemma HandleCommand_result:
  assumes run: "HandleCommand cfg st = Some (Inr (r, st'))" and inv: "tpm_inv cfg st"
    and l: "mActiveLocality st < NUM_LOCALITIES cfg"
    and bits: "command_bits cfg (InternalCrb st ! unat (mActiveLocality st)) = (idle, ready, start)"
  shows "tpm_inv cfg st' \<and> keeps_owner st st' \<and>
     (success_distinct cfg \<longrightarrow>
        (if r = tpm2 cfg TPM2_FFA_SUCCESS_OK
         then command_next (TpmSstIsIdleBypassSupported (sst st)) (mCurrentState st) idle ready start =
                Some (mCurrentState st')
         else mCurrentState st' = mCurrentState st))"
proof -
  have l': "unat (mActiveLocality st) < unat (NUM_LOCALITIES cfg)" using l by (simp add: word_less_nat_alt)
  then have len: "\<not> length (InternalCrb st) \<le> unat (mActiveLocality st)"
    using tpm_inv_lengths(1)[OF inv] by simp
  note res = go_idle.sst_transition_result[OF _ inv l'] cmd_ready.sst_transition_result[OF _ inv l']
    sst_start_result[OF _ inv l']
  have cur: "mCurrentState st \<noteq> NUM_TPM_STATES" using inv by (simp add: tpm_inv_def)
  note run' = run[unfolded HandleCommand_def Let_def] bits[unfolded command_bits_def prod.inject]
  show ?thesis
  proof (cases "mCurrentState st")
    case TPM_STATE_IDLE
    with run' len inv show ?thesis
      by (auto simp: bind_comp_Inr_iff command_next_def split: if_splits dest!: res)
  next
    case TPM_STATE_READY
    with run' len inv show ?thesis
      by (auto simp: bind_comp_Inr_iff command_next_def split: if_splits dest!: res)
  next
    case TPM_STATE_COMPLETE
    with run' len inv show ?thesis
      by (auto simp: bind_comp_Inr_iff command_next_def split: if_splits dest!: res)
  qed (use cur in simp)
qed

lemma InitInternalCrb_ok:
  assumes inv: "tpm_inv cfg st" and l: "unat l < unat (NUM_LOCALITIES cfg)"
  shows "\<exists>crbs. InitInternalCrb cfg l st = Inr (st\<lparr>InternalCrb := crbs\<rparr>) \<and> tpm_inv cfg (st\<lparr>InternalCrb := crbs\<rparr>)"
proof (intro exI conjI)
  let ?crb = "init_crb cfg (mInterfaceIdDefault st) l (InternalCrb st ! unat l)"
  show "InitInternalCrb cfg l st = Inr (st\<lparr>InternalCrb := (InternalCrb st)[unat l := ?crb]\<rparr>)"
    using inv l by (simp add: InitInternalCrb_def tpm_inv_lengths)
  show "tpm_inv cfg (st\<lparr>InternalCrb := (InternalCrb st)[unat l := ?crb]\<rparr>)"
    using inv l by (simp add: tpm_inv_put crb_len)
qed

text \<open>The common tail of a locality request.\<close>

definition locality_finish ::
  "'w tpm_cfg \<Rightarrow> UINT8 \<Rightarrow> UINT8 \<Rightarrow> (UINT8 \<Rightarrow> 'w sst_state \<Rightarrow> (EFI_STATUS \<times> 'w sst_state) option) \<Rightarrow>
   'w tpm_state \<Rightarrow> (TpmStatus \<times> 'w tpm_state) comp" where
  "locality_finish cfg Locality ActiveLocality sst_op st =
     (case sst_op Locality (sst st) of
        None \<Rightarrow> None
      | Some (Status, s') \<Rightarrow>
          if Status = EFI_SUCCESS
          then Some (bind_result (InitInternalCrb cfg Locality (st\<lparr>sst := s'\<rparr>))
                 (\<lambda>st'. Inr (ConvertEfiToTpmStatus cfg Status, st'\<lparr>mActiveLocality := ActiveLocality\<rparr>)))
          else Some (Inr (ConvertEfiToTpmStatus cfg Status, st\<lparr>sst := s'\<rparr>)))"

lemma HandleLocalityRequest_eq:
  "HandleLocalityRequest cfg Locality st =
     (let crb = InternalCrb st ! unat Locality
      in if length (InternalCrb st) \<le> unat Locality then Some (Inl OutOfBounds)
         else if LocalityControl crb AND cptp cfg PTP_CRB_LOCALITY_CONTROL_RELINQUISH \<noteq> 0
         then (if Locality \<noteq> mActiveLocality st
               then Some (Inr (tpm2 cfg TPM2_FFA_ERROR_DENIED, st))
               else locality_finish cfg Locality (NO_ACTIVE_LOCALITY cfg) (TpmSstLocalityRelinquish (sst_env cfg)) st)
         else if LocalityControl crb AND cptp cfg PTP_CRB_LOCALITY_CONTROL_REQUEST_ACCESS \<noteq> 0
         then (if mActiveLocality st \<noteq> NO_ACTIVE_LOCALITY cfg \<and> mActiveLocality st \<noteq> Locality
               then Some (Inr (tpm2 cfg TPM2_FFA_ERROR_DENIED, st))
               else locality_finish cfg Locality Locality (TpmSstLocalityRequest (sst_env cfg)) st)
         else Some (Inr (tpm2 cfg TPM2_FFA_ERROR_DENIED, st)))"
  by (simp only: HandleLocalityRequest_def locality_finish_def Let_def)

context sst_operation
begin

lemma locality_finish_result:
  assumes inv: "tpm_inv cfg st" and l: "unat l < unat (NUM_LOCALITIES cfg)" and a: "a \<le> NUM_LOCALITIES cfg"
    and run: "locality_finish cfg l a sst_op st = Some (Inr (r, st'))"
  shows "tpm_inv cfg st' \<and> mCurrentState st' = mCurrentState st \<and> mLocalityStates st' = mLocalityStates st \<and>
     sst_frame (sst st) (sst st') \<and>
     (success_distinct cfg \<longrightarrow>
        mActiveLocality st' = (if r = tpm2 cfg TPM2_FFA_SUCCESS_OK then a else mActiveLocality st))"
proof -
  from run obtain st0 s' where op: "sst_op l (sst st) = Some (st0, s')"
    by (auto simp: locality_finish_def split: option.splits)
  have inv': "tpm_inv cfg (st\<lparr>sst := s'\<rparr>)" using inv by (simp add: tpm_inv_def)
  obtain crbs where i: "InitInternalCrb cfg l (st\<lparr>sst := s'\<rparr>) = Inr (st\<lparr>sst := s', InternalCrb := crbs\<rparr>)"
    "tpm_inv cfg (st\<lparr>sst := s', InternalCrb := crbs\<rparr>)"
    using InitInternalCrb_ok[OF inv' l] by auto
  have "r = ConvertEfiToTpmStatus cfg st0 \<and>
      st' = (if st0 = EFI_SUCCESS then st\<lparr>sst := s', InternalCrb := crbs, mActiveLocality := a\<rparr> else st\<lparr>sst := s'\<rparr>)"
    using run op i(1) by (auto simp: locality_finish_def split: if_splits)
  moreover have "tpm_inv cfg (st\<lparr>sst := s', InternalCrb := crbs, mActiveLocality := a\<rparr>)"
    using i(2) a by (simp add: tpm_inv_def)
  ultimately show ?thesis using inv' op_frame[OF op] by simp
qed

lemma locality_finish_total:
  assumes inv: "tpm_inv cfg st" and l: "unat l < unat (NUM_LOCALITIES cfg)" and ok
  shows "\<exists>r st'. locality_finish cfg l a sst_op st = Some (Inr (r, st'))"
proof -
  obtain st0 s' where op: "sst_op l (sst st) = Some (st0, s')" using op_returns[OF \<open>ok\<close>] by blast
  have inv': "tpm_inv cfg (st\<lparr>sst := s'\<rparr>)" using inv by (simp add: tpm_inv_def)
  obtain st1 where "InitInternalCrb cfg l (st\<lparr>sst := s'\<rparr>) = Inr st1"
    using InitInternalCrb_ok[OF inv' l] by blast
  with op show ?thesis by (simp add: locality_finish_def)
qed

end

lemma HandleLocalityRequest_result:
  assumes inv: "tpm_inv cfg st" and l: "l < NUM_LOCALITIES cfg"
    and run: "HandleLocalityRequest cfg l st = Some (Inr (r, st'))"
  shows "tpm_inv cfg st' \<and> mCurrentState st' = mCurrentState st \<and> mLocalityStates st' = mLocalityStates st \<and>
     sst_frame (sst st) (sst st') \<and>
     (success_distinct cfg \<longrightarrow>
        (if r = tpm2 cfg TPM2_FFA_SUCCESS_OK
         then (if LocalityControl (InternalCrb st ! unat l) AND cptp cfg PTP_CRB_LOCALITY_CONTROL_RELINQUISH \<noteq> 0
               then mActiveLocality st = l \<and> mActiveLocality st' = NO_ACTIVE_LOCALITY cfg
               else LocalityControl (InternalCrb st ! unat l) AND cptp cfg PTP_CRB_LOCALITY_CONTROL_REQUEST_ACCESS \<noteq> 0 \<and>
                 mActiveLocality st \<in> {NO_ACTIVE_LOCALITY cfg, l} \<and> mActiveLocality st' = l)
         else mActiveLocality st' = mActiveLocality st))"
proof -
  let ?rel = "LocalityControl (InternalCrb st ! unat l) AND cptp cfg PTP_CRB_LOCALITY_CONTROL_RELINQUISH \<noteq> 0"
  let ?acc = "LocalityControl (InternalCrb st ! unat l) AND cptp cfg PTP_CRB_LOCALITY_CONTROL_REQUEST_ACCESS \<noteq> 0"
  have l': "unat l < unat (NUM_LOCALITIES cfg)" and le: "l \<le> NUM_LOCALITIES cfg"
    and na: "NO_ACTIVE_LOCALITY cfg \<le> NUM_LOCALITIES cfg"
    using l by (simp_all add: word_less_nat_alt word_le_nat_alt NO_ACTIVE_LOCALITY_def)
  have len: "\<not> length (InternalCrb st) \<le> unat l" using tpm_inv_lengths(1)[OF inv] l' by simp
  note res = loc_relinquish.locality_finish_result[OF inv l' na] loc_request.locality_finish_result[OF inv l' le]
  consider "st' = st" "r = tpm2 cfg TPM2_FFA_ERROR_DENIED"
    | ?rel "l = mActiveLocality st" "locality_finish cfg l (NO_ACTIVE_LOCALITY cfg)
        (TpmSstLocalityRelinquish (sst_env cfg)) st = Some (Inr (r, st'))"
    | "\<not> ?rel" ?acc "mActiveLocality st \<in> {NO_ACTIVE_LOCALITY cfg, l}"
      "locality_finish cfg l l (TpmSstLocalityRequest (sst_env cfg)) st = Some (Inr (r, st'))"
    using run len unfolding HandleLocalityRequest_eq Let_def by (auto split: if_splits)
  then show ?thesis
  proof cases
    case 1
    with inv show ?thesis by simp
  next
    case 2
    with res(1)[OF 2(3)] show ?thesis by auto
  next
    case 3
    with res(2)[OF 3(4)] show ?thesis by auto
  qed
qed

lemma StartHandler_split:
  assumes run: "StartHandler cfg req resp st = Some (Inr (r, resp', st'))"
  obtains st1 where "CleanInternalCrb cfg st1 = Inr st'" "resp' = resp\<lparr>Arg0 := r\<rparr>"
    "st1 = st \<and> r \<in> {tpm2 cfg TPM2_FFA_ERROR_INVARG, tpm2 cfg TPM2_FFA_ERROR_DENIED} \<or>
     (ucast (Arg2 req) < NUM_LOCALITIES cfg \<and>
      mLocalityStates st ! unat (ucast (Arg2 req) :: UINT8) \<noteq> TPM_LOCALITY_CLOSED \<and>
      (if ucast (ucast (Arg1 req) :: UINT16) = tpm2 cfg TPM2_FFA_START_FUNC_QUALIFIER_COMMAND
       then mActiveLocality st = ucast (Arg2 req) \<and> HandleCommand cfg st = Some (Inr (r, st1))
       else ucast (ucast (Arg1 req) :: UINT16) = tpm2 cfg TPM2_FFA_START_FUNC_QUALIFIER_LOCALITY \<and>
         HandleLocalityRequest cfg (ucast (Arg2 req)) st = Some (Inr (r, st1))))"
  using run
  by (auto simp: StartHandler_def Let_def bind_comp_Inr_iff bind_result_Inr_iff not_le split: if_splits)

section \<open>Refinement\<close>

text \<open>A reply and the new state agree with the specification.\<close>

definition agrees :: "'w tpm_cfg \<Rightarrow> 'w tpm_state \<Rightarrow> tpm_request \<Rightarrow> TpmStatus \<Rightarrow> 'w tpm_state \<Rightarrow> bool" where
  "agrees cfg st req r st' \<longleftrightarrow>
     (if r = tpm2 cfg TPM2_FFA_SUCCESS_OK
      then spec_next (TpmSstIsIdleBypassSupported (sst st)) req (abs_tpm cfg st) = Some (abs_tpm cfg st')
      else abs_tpm cfg st' = abs_tpm cfg st)"

lemma open_locs_abs: "l \<in> open_locs (abs_tpm cfg st) \<longleftrightarrow>
    l < NUM_LOCALITIES cfg \<and> mLocalityStates st ! unat l \<noteq> TPM_LOCALITY_CLOSED"
  by (simp add: abs_tpm_def)

lemma command_agrees:
  assumes inv: "tpm_inv cfg st" and ok: "success_distinct cfg" and l: "l \<in> open_locs (abs_tpm cfg st)"
    and a: "mActiveLocality st = l" and c: "HandleCommand cfg st = Some (Inr (r, st'))"
    and f: "ucast f = tpm2 cfg TPM2_FFA_START_FUNC_QUALIFIER_COMMAND"
  shows "agrees cfg st (start_request cfg f l st) r st'"
proof -
  obtain idle ready start where bits: "command_bits cfg (InternalCrb st ! unat l) = (idle, ready, start)"
    by (rule prod_cases3)
  have less: "mActiveLocality st < NUM_LOCALITIES cfg" using l a by (simp add: open_locs_abs)
  note res = HandleCommand_result[OF c inv less bits[folded a]]
  then have eq: "abs_tpm cfg st' = (abs_tpm cfg st)\<lparr>phase := mCurrentState st'\<rparr>"
    by (intro abs_tpm_eqI) (simp_all add: keeps_owner_def)
  have own: "owner (abs_tpm cfg st) = Some l" "phase (abs_tpm cfg st) = mCurrentState st"
    using less a by (auto simp: abs_tpm_def NO_ACTIVE_LOCALITY_def)
  have "start_request cfg f l st = Command l idle ready start"
    using l f bits by (auto simp: start_request_def open_locs_abs Let_def)
  moreover have "(abs_tpm cfg st)\<lparr>phase := mCurrentState st\<rparr> = abs_tpm cfg st" by (simp add: abs_tpm_def)
  ultimately show ?thesis using res ok l own eq by (auto simp: agrees_def)
qed

lemma locality_agrees:
  assumes inv: "tpm_inv cfg st" and ok: "success_distinct cfg" and l: "l \<in> open_locs (abs_tpm cfg st)"
    and c: "HandleLocalityRequest cfg l st = Some (Inr (r, st'))"
    and f: "ucast f \<noteq> tpm2 cfg TPM2_FFA_START_FUNC_QUALIFIER_COMMAND"
      "ucast f = tpm2 cfg TPM2_FFA_START_FUNC_QUALIFIER_LOCALITY"
  shows "agrees cfg st (start_request cfg f l st) r st'"
proof -
  have less: "l < NUM_LOCALITIES cfg" and na: "l \<noteq> NO_ACTIVE_LOCALITY cfg"
    using l by (auto simp: open_locs_abs NO_ACTIVE_LOCALITY_def)
  note res = HandleLocalityRequest_result[OF inv less c]
  have eq: "abs_tpm cfg st' = (abs_tpm cfg st)\<lparr>owner := owner (abs_tpm cfg st')\<rparr>"
    using res by (simp add: abs_tpm_def)
  show ?thesis
  proof (cases "r = tpm2 cfg TPM2_FFA_SUCCESS_OK")
    case False
    with res ok show ?thesis by (simp add: agrees_def abs_tpm_def)
  next
    case True
    have own: "owner (abs_tpm cfg x) = (if mActiveLocality x = NO_ACTIVE_LOCALITY cfg then None
        else Some (mActiveLocality x))" for x by (simp add: abs_tpm_def)
    show ?thesis
      using res True ok less f l na own[of st] own[of st']
      by (subst agrees_def, subst eq) (auto simp: start_request_def Let_def split: if_splits)
  qed
qed

lemma StartHandler_result:
  assumes inv: "tpm_inv cfg st" and run: "StartHandler cfg req resp st = Some (Inr (r, resp', st'))"
  shows "tpm_inv cfg st' \<and> sst_frame (sst st) (sst st') \<and> Arg0 resp' = r \<and>
     (success_distinct cfg \<longrightarrow> agrees cfg st (start_request cfg (ucast (Arg1 req)) (ucast (Arg2 req)) st) r st')"
proof -
  let ?l = "ucast (Arg2 req) :: UINT8"
  let ?f = "ucast (Arg1 req) :: UINT16"
  from run obtain st1 where clean: "CleanInternalCrb cfg st1 = Inr st'" and resp': "resp' = resp\<lparr>Arg0 := r\<rparr>"
    and st1: "st1 = st \<and> r \<in> {tpm2 cfg TPM2_FFA_ERROR_INVARG, tpm2 cfg TPM2_FFA_ERROR_DENIED} \<or>
     (?l < NUM_LOCALITIES cfg \<and> mLocalityStates st ! unat ?l \<noteq> TPM_LOCALITY_CLOSED \<and>
      (if ucast ?f = tpm2 cfg TPM2_FFA_START_FUNC_QUALIFIER_COMMAND
       then mActiveLocality st = ?l \<and> HandleCommand cfg st = Some (Inr (r, st1))
       else ucast ?f = tpm2 cfg TPM2_FFA_START_FUNC_QUALIFIER_LOCALITY \<and>
         HandleLocalityRequest cfg ?l st = Some (Inr (r, st1))))" by (rule StartHandler_split)
  have main: "tpm_inv cfg st1 \<and> sst_frame (sst st) (sst st1) \<and>
      (success_distinct cfg \<longrightarrow> agrees cfg st (start_request cfg ?f ?l st) r st1)"
  proof (cases "st1 = st \<and> r \<in> {tpm2 cfg TPM2_FFA_ERROR_INVARG, tpm2 cfg TPM2_FFA_ERROR_DENIED}")
    case True
    then have "success_distinct cfg \<Longrightarrow> r \<noteq> tpm2 cfg TPM2_FFA_SUCCESS_OK" 
      by (elim conjE insertE) simp_all
    with True inv show ?thesis by (simp add: agrees_def)
  next
    case False
    with st1 have l: "?l \<in> open_locs (abs_tpm cfg st)" "?l < NUM_LOCALITIES cfg" by (auto simp: open_locs_abs)
    obtain idle ready start where
      bits: "command_bits cfg (InternalCrb st ! unat (mActiveLocality st)) = (idle, ready, start)" by (rule prod_cases3)
    show ?thesis
    proof (cases "ucast ?f = tpm2 cfg TPM2_FFA_START_FUNC_QUALIFIER_COMMAND")
      case f: True
      with False st1 have c: "mActiveLocality st = ?l" "HandleCommand cfg st = Some (Inr (r, st1))" by auto
      with l(2) have "mActiveLocality st < NUM_LOCALITIES cfg" by simp
      from HandleCommand_result[OF c(2) inv this bits] command_agrees[OF inv _ l(1) c f] show ?thesis
        by (simp add: keeps_owner_def)
    next
      case f: False
      with False st1 have c: "ucast ?f = tpm2 cfg TPM2_FFA_START_FUNC_QUALIFIER_LOCALITY"
        "HandleLocalityRequest cfg ?l st = Some (Inr (r, st1))" by auto
      from HandleLocalityRequest_result[OF inv l(2) c(2)] locality_agrees[OF inv _ l(1) c(2) f c(1)] show ?thesis by simp
    qed
  qed
  from CleanInternalCrb_ok[of cfg st1] main clean have
    c: "tpm_inv cfg st'" "mCurrentState st' = mCurrentState st1" "mActiveLocality st' = mActiveLocality st1"
      "mLocalityStates st' = mLocalityStates st1" "sst st' = sst st1" by auto
  then have "abs_tpm cfg st' = abs_tpm cfg st1" by (simp add: abs_tpm_def)
  with c main resp' show ?thesis by (simp add: agrees_def)
qed

lemma ManageLocality_result:
  assumes inv: "tpm_inv cfg st" and run: "ManageLocalityHandler cfg req resp st = (r, resp', st')"
  shows "tpm_inv cfg st' \<and> sst st' = sst st \<and> Arg0 resp' = r \<and>
     (success_distinct cfg \<longrightarrow>
        agrees cfg st (manage_request cfg (SourceId req) (ucast (Arg1 req)) (ucast (Arg2 req))) r st')"
proof -
  let ?l = "ucast (Arg2 req) :: UINT8"
  have upd: "abs_tpm cfg (st\<lparr>mLocalityStates := (mLocalityStates st)[unat ?l := x]\<rparr>) =
      (abs_tpm cfg st)\<lparr>open_locs := (if x = TPM_LOCALITY_CLOSED then open_locs (abs_tpm cfg st) - {?l}
         else insert ?l (open_locs (abs_tpm cfg st)))\<rparr>" if "?l < NUM_LOCALITIES cfg" for x
  proof -
    have "(mLocalityStates st)[unat ?l := x] ! unat k = (if k = ?l then x else mLocalityStates st ! unat k)"
      if "k < NUM_LOCALITIES cfg" for k
      using that tpm_inv_lengths(2)[OF inv] \<open>?l < NUM_LOCALITIES cfg\<close>
      by (auto simp: nth_list_update word_less_nat_alt word_unat_eq_iff)
    then show ?thesis using that by (auto simp: abs_tpm_def split: if_splits)
  qed
  then show ?thesis
    using run inv
    by (auto simp: ManageLocalityHandler_def manage_request_def agrees_def tpm_inv_def Let_def not_le split: if_splits)
qed

lemma tpm_handle_result:
  assumes inv: "tpm_inv cfg st"
    and run: "TpmServiceHandle cfg (Some req) (Some resp) st = Some (Inr (resp', st'))"
  shows "tpm_inv cfg st' \<and> sst_frame (sst st) (sst st') \<and>
     (opcodes_distinct cfg \<longrightarrow> success_distinct cfg \<longrightarrow>
        (\<exists>p'. resp' = Some p' \<and> agrees cfg st (request_of cfg req st) (Arg0 p') st'))"
proof -
  consider (start) r p' where "Arg0 req = tpm2 cfg TPM2_FFA_START" "resp' = Some p'"
      "StartHandler cfg req resp st = Some (Inr (r, p', st'))"
    | (manage) r p' where "Arg0 req = tpm2 cfg TPM2_FFA_MANAGE_LOCALITY" "resp' = Some p'"
      "ManageLocalityHandler cfg req resp st = (r, p', st')"
    | (none) p' where "st' = st" "resp' = Some p'" "success_distinct cfg \<longrightarrow> Arg0 p' \<noteq> tpm2 cfg TPM2_FFA_SUCCESS_OK"
    using run
    by (auto simp: TpmServiceHandle_def Let_def bind_comp_Inr_iff GetInterfaceVersionHandler_def GetFeatureInfoHandler_def
        TpmRegisterHandler_def TpmUnregisterHandler_def FinishHandler_def split: if_splits prod.splits)
  then show ?thesis
  proof cases
    case start
    from StartHandler_result[OF inv start(3)] start(1,2) show ?thesis by (auto simp: request_of_def)
  next
    case manage
    from ManageLocality_result[OF inv manage(3)] manage(1,2) show ?thesis
      by (auto simp: request_of_def opcodes_distinct_def)
  next
    case none
    with inv show ?thesis by (auto simp: agrees_def)
  qed
qed

text \<open>
  C1. The service refines the abstract machine: on every state that satisfies the invariant, a
  message that is answered with success has exactly the effect the machine gives to what the
  message and the registers of the locality ask for, and one answered otherwise has no effect on
  the machine; the invariant is kept and the interface flags never change. In particular the TPM
  never passes from one locality to another without being relinquished in between, closed
  localities neither gain nor give up the TPM nor run commands, only the secure monitor
  opens and closes localities, and a command is started again from COMPLETE only under idle
  bypass.
\<close>

theorem TpmServiceHandle_refines:
  assumes "tpm_inv cfg st" and "opcodes_distinct cfg" and "success_distinct cfg"
    and "TpmServiceHandle cfg (Some req) (Some resp) st = Some (Inr (Some resp', st'))"
  shows "tpm_inv cfg st' \<and> sst_frame (sst st) (sst st') \<and>
     (if Arg0 resp' = tpm2 cfg TPM2_FFA_SUCCESS_OK
      then spec_next (TpmSstIsIdleBypassSupported (sst st)) (request_of cfg req st) (abs_tpm cfg st) =
             Some (abs_tpm cfg st')
      else abs_tpm cfg st' = abs_tpm cfg st)"
  using tpm_handle_result[OF assms(1,4)] assms(2,3) by (simp add: agrees_def)

section \<open>A concrete configuration\<close>

fun ex_tpm2 :: "tpm2_ffa \<Rightarrow> UINT64" where
  "ex_tpm2 TPM2_FFA_SUCCESS_OK = 0x05000001"
| "ex_tpm2 TPM2_FFA_SUCCESS_OK_RESULTS_RETURNED = 0x05000002"
| "ex_tpm2 TPM2_FFA_ERROR_NOFUNC = 0x8E000001"
| "ex_tpm2 TPM2_FFA_ERROR_NOTSUP = 0x8E000002"
| "ex_tpm2 TPM2_FFA_ERROR_INVARG = 0x8E000005"
| "ex_tpm2 TPM2_FFA_ERROR_DENIED = 0x8E00000A"
| "ex_tpm2 TPM2_FFA_ERROR_NOMEM = 0x8E00000B"
| "ex_tpm2 TPM2_FFA_GET_INTERFACE_VERSION = 0x0F000001"
| "ex_tpm2 TPM2_FFA_GET_FEATURE_INFO = 0x0F000101"
| "ex_tpm2 TPM2_FFA_START = 0x0F000201"
| "ex_tpm2 TPM2_FFA_REGISTER_FOR_NOTIFICATION = 0x0F000301"
| "ex_tpm2 TPM2_FFA_UNREGISTER_FROM_NOTIFICATION = 0x0F000401"
| "ex_tpm2 TPM2_FFA_FINISH_NOTIFIED = 0x0F000501"
| "ex_tpm2 TPM2_FFA_MANAGE_LOCALITY = 0x1F000001"
| "ex_tpm2 TPM2_FFA_START_FUNC_QUALIFIER_COMMAND = 0"
| "ex_tpm2 TPM2_FFA_START_FUNC_QUALIFIER_LOCALITY = 1"
| "ex_tpm2 TPM2_FFA_MANAGE_LOCALITY_OPEN = 0"
| "ex_tpm2 TPM2_FFA_MANAGE_LOCALITY_CLOSE = 1"

text \<open>The data buffer is kept to eight bytes so that states stay small.\<close>

definition ex_cfg :: "tpm_script tpm_cfg" where
  "ex_cfg = \<lparr> sst_env = ex_tpm, PcdTpmInternalBaseAddress = 0x100000000, NUM_LOCALITIES = 5,
     CrbDataBufferSize = 8,
     interface_id = (\<lambda>t v l c. t OR push_bit 4 v OR push_bit 8 l OR push_bit 14 c), tpm2 = ex_tpm2 \<rparr>"

definition ex_crb :: PTP_CRB_REGISTERS where
  "ex_crb = crb_zero \<lparr> LocalityState = 0, LocalityControl = 0, LocalityStatus = 0, InterfaceId = 0,
     CrbControlExtension = 0, CrbControlRequest = 0, CrbControlStatus = 0, CrbControlCancel = 0,
     CrbControlStart = 0, CrbInterruptEnable = 0, CrbInterruptStatus = 0, CrbControlCommandSize = 0,
     CrbControlCommandAddressLow = 0, CrbControlCommandAddressHigh = 0, CrbControlResponseSize = 0,
     CrbControlResponseAddrss = 0, CrbDataBuffer = replicate 8 0, CrbUnnamed = [] \<rparr>"

text \<open>The TPM's answers after power-up: a CRB interface with idle bypass, then zeros.\<close>

definition ex_boot :: "tpm_script tpm_state" where
  "ex_boot = \<lparr> mCurrentState = TPM_STATE_IDLE, mActiveLocality = 0, mInterfaceIdDefault = 0,
     mLocalityStates = replicate 5 TPM_LOCALITY_CLOSED, InternalCrb = replicate 5 ex_crb,
     sst = \<lparr> mIsCrbInterface = False, mIsIdleBypassSupported = False, dev = ([0x201, 0x201], []) \<rparr> \<rparr>"

definition run_ok :: "('a \<times> 'w tpm_state) comp \<Rightarrow> 'w tpm_state \<Rightarrow> 'w tpm_state" where
  "run_ok c d = (case c of Some (Inr (_, st)) \<Rightarrow> st | _ \<Rightarrow> d)"

definition ex_init :: "tpm_script tpm_state" where
  "ex_init = (case TpmServiceInit ex_cfg ex_boot of Inr st \<Rightarrow> st | Inl _ \<Rightarrow> ex_boot)"

definition ex_manage :: "UINT64 \<Rightarrow> UINT64 \<Rightarrow> DIRECT_MSG_ARGS_EX" where
  "ex_manage op l = msg_zero\<lparr>SourceId := 0xFF01, Arg0 := 0x1F000001, Arg1 := op, Arg2 := l\<rparr>"

definition ex_start :: "UINT64 \<Rightarrow> UINT64 \<Rightarrow> DIRECT_MSG_ARGS_EX" where
  "ex_start f l = msg_zero\<lparr>Arg0 := 0x0F000201, Arg1 := f, Arg2 := l\<rparr>"

definition ex_send :: "DIRECT_MSG_ARGS_EX \<Rightarrow> tpm_script tpm_state \<Rightarrow> tpm_script tpm_state" where
  "ex_send m st = run_ok (TpmServiceHandle ex_cfg (Some m) (Some msg_zero) st) st"

text \<open>The normal world writes a register of a CRB, and the TPM is set to answer a given script.\<close>

definition ex_poke :: "nat \<Rightarrow> (PTP_CRB_REGISTERS \<Rightarrow> PTP_CRB_REGISTERS) \<Rightarrow> UINT32 list \<Rightarrow> tpm_script tpm_state \<Rightarrow> tpm_script tpm_state" where
  "ex_poke l f reads st = st\<lparr>InternalCrb := (InternalCrb st)[l := f (InternalCrb st ! l)],
     sst := (sst st)\<lparr>dev := (reads, [])\<rparr>\<rparr>"

text \<open>Locality 0 open and requested; then ready; then a command completed.\<close>

definition ex_owned :: "tpm_script tpm_state" where
  "ex_owned = ex_send (ex_start 1 0)
     (ex_poke 0 (\<lambda>c. c\<lparr>LocalityControl := 1\<rparr>) [1] (ex_send (ex_manage 0 0) ex_init))"

definition ex_ready :: "tpm_script tpm_state" where
  "ex_ready = ex_send (ex_start 0 0) (ex_poke 0 (\<lambda>c. c\<lparr>CrbControlRequest := 1\<rparr>) [0, 0] ex_owned)"

definition ex_go :: "tpm_script tpm_state" where
  "ex_go = ex_poke 0 (\<lambda>c. c\<lparr>CrbControlStart := 1, CrbDataBuffer := [0x80, 1, 0, 0, 0, 0, 0, 0]\<rparr>)
     [0, 0x80, 2, 0, 0, 0, 0, 0, 7] ex_ready"

definition ex_complete :: "tpm_script tpm_state" where
  "ex_complete = ex_send (ex_start 0 0) ex_go"

lemma ex_states:
  "TpmServiceInit ex_cfg ex_boot = Inr ex_init"
  "mActiveLocality ex_owned = 0 \<and> mCurrentState ex_owned = TPM_STATE_IDLE"
  "mCurrentState ex_ready = TPM_STATE_READY"
  "mCurrentState ex_complete = TPM_STATE_COMPLETE"
  "CrbDataBuffer (InternalCrb ex_complete ! 0) = [0x80, 2, 0, 0, 0, 0, 0, 7]"
  by code_simp+

lemma ex_go_inv: "tpm_inv ex_cfg ex_go"
  by code_simp

lemma ex_codes: "opcodes_distinct ex_cfg" "success_distinct ex_cfg"
  by code_simp+

theorem TpmServiceHandle_refines_witness:
  "tpm_inv ex_cfg ex_complete \<and> sst_frame (sst ex_go) (sst ex_complete) \<and>
     spec_next (TpmSstIsIdleBypassSupported (sst ex_go)) (request_of ex_cfg (ex_start 0 0) ex_go)
       (abs_tpm ex_cfg ex_go) = Some (abs_tpm ex_cfg ex_complete)"
proof -
  have run: "TpmServiceHandle ex_cfg (Some (ex_start 0 0)) (Some msg_zero) ex_go =
      Some (Inr (Some (msg_zero\<lparr>Arg0 := 0x05000001\<rparr>), ex_complete))" by code_simp
  have "tpm2 ex_cfg TPM2_FFA_SUCCESS_OK = 0x05000001" by (simp add: ex_cfg_def)
  with TpmServiceHandle_refines[OF ex_go_inv ex_codes run] show ?thesis by simp
qed

section \<open>Reachable states\<close>

definition tpm_boot :: "'w tpm_cfg \<Rightarrow> 'w tpm_state \<Rightarrow> bool" where
  "tpm_boot cfg st \<longleftrightarrow>
     length (InternalCrb st) = unat (NUM_LOCALITIES cfg) \<and>
     (\<forall>crb \<in> set (InternalCrb st). length (CrbDataBuffer crb) = CrbDataBufferSize cfg) \<and>
     length (mLocalityStates st) = unat (NUM_LOCALITIES cfg)"

definition tpm_started :: "'w tpm_cfg \<Rightarrow> 'w tpm_state \<Rightarrow> bool" where
  "tpm_started cfg st \<longleftrightarrow> (\<exists>st0. tpm_boot cfg st0 \<and> TpmServiceInit cfg st0 = Inr st)"

text \<open>
  A step is a message, or the normal world writing anything it likes into the shared CRBs,
  or the TPM changing state on its own.
\<close>

definition tpm_step :: "'w tpm_cfg \<Rightarrow> 'w tpm_state \<Rightarrow> 'w tpm_state \<Rightarrow> bool" where
  "tpm_step cfg st st' \<longleftrightarrow>
     (\<exists>req resp resp'. TpmServiceHandle cfg req resp st = Some (Inr (resp', st'))) \<or>
     (\<exists>crbs. length crbs = length (InternalCrb st) \<and>
        (\<forall>crb \<in> set crbs. length (CrbDataBuffer crb) = CrbDataBufferSize cfg) \<and>
        st' = st\<lparr>InternalCrb := crbs\<rparr>) \<or>
     (\<exists>w. st' = st\<lparr>sst := (sst st)\<lparr>dev := w\<rparr>\<rparr>)"

lemma init_crbs_keeps:
  assumes "init_crbs cfg ls st = Inr st'"
  shows "length (InternalCrb st') = length (InternalCrb st) \<and> mLocalityStates st' = mLocalityStates st \<and>
     ((\<forall>crb \<in> set (InternalCrb st). length (CrbDataBuffer crb) = N) \<longrightarrow>
      (\<forall>crb \<in> set (InternalCrb st'). length (CrbDataBuffer crb) = N))"
  using assms
proof (induction ls arbitrary: st)
  case (Cons l ls)
  let ?l = "unat (of_nat l :: UINT8)"
  from Cons.prems obtain st1 where i: "InitInternalCrb cfg (of_nat l) st = Inr st1"
    and run: "init_crbs cfg ls st1 = Inr st'" unfolding init_crbs.simps bind_result_Inr_iff by (elim exE conjE)
  from i have l: "?l < length (InternalCrb st)"
    by (simp add: InitInternalCrb_def split: if_splits)
  from i l have st1: "st1 = st\<lparr>InternalCrb := (InternalCrb st)
      [?l := init_crb cfg (mInterfaceIdDefault st) (of_nat l) (InternalCrb st ! ?l)]\<rparr>"
    by (simp only: InitInternalCrb_def if_True sum.inject)
  have a: "length (InternalCrb st1) = length (InternalCrb st)" "mLocalityStates st1 = mLocalityStates st"
    by (simp_all add: st1)
  have b: "\<forall>crb \<in> set (InternalCrb st1). length (CrbDataBuffer crb) = N"
    if "\<forall>crb \<in> set (InternalCrb st). length (CrbDataBuffer crb) = N"
  proof -
    let ?new = "init_crb cfg (mInterfaceIdDefault st) (of_nat l) (InternalCrb st ! ?l)"
    have "length (CrbDataBuffer ?new) = N" using that nth_mem[OF l] by simp
    from ball_update[where P = "\<lambda>crb. length (CrbDataBuffer crb) = N", OF that this]
    show ?thesis unfolding st1 by simp
  qed
  from Cons.IH[OF run] b show ?case unfolding a by iprover
qed simp

lemma TpmServiceInit_inv: "tpm_started cfg st \<Longrightarrow> tpm_inv cfg st"
  by (auto simp: tpm_started_def tpm_boot_def TpmServiceInit_def bind_result_Inr_iff tpm_inv_def
      NO_ACTIVE_LOCALITY_def dest: init_crbs_keeps)

interpretation tpm: invariant_system "tpm_started cfg" "tpm_step cfg" "tpm_inv cfg" for cfg
proof
  show "tpm_started cfg st \<Longrightarrow> tpm_inv cfg st" for st by (rule TpmServiceInit_inv)
  show "tpm_inv cfg st'" if inv: "tpm_inv cfg st" and step: "tpm_step cfg st st'" for st st'
  proof -
    consider req resp resp' where "TpmServiceHandle cfg req resp st = Some (Inr (resp', st'))"
      | crbs where "length crbs = length (InternalCrb st)"
          "\<forall>crb \<in> set crbs. length (CrbDataBuffer crb) = CrbDataBufferSize cfg" "st' = st\<lparr>InternalCrb := crbs\<rparr>"
      | w where "st' = st\<lparr>sst := (sst st)\<lparr>dev := w\<rparr>\<rparr>"
      using step unfolding tpm_step_def by blast
    then show ?thesis
    proof cases
      case 1
      then show ?thesis
        using inv tpm_handle_result[OF inv]
        by (cases req; cases resp) (auto simp: TpmServiceHandle_def)
    qed (use inv in \<open>simp_all add: tpm_inv_def\<close>)
  qed
qed

text \<open>
  C25. In every state the service reaches, whatever messages arrive and whatever the normal
  world writes into the shared buffers, the active locality is a valid one or none, and a
  command is executed only for an open locality that owns the TPM: a start request for any
  other locality leaves owner, command state and the TPM untouched.
\<close>

theorem commands_only_for_owner:
  assumes "reachable (tpm_started cfg) (tpm_step cfg) st"
    and "ucast (ucast (Arg1 req) :: UINT16) = tpm2 cfg TPM2_FFA_START_FUNC_QUALIFIER_COMMAND"
    and "mActiveLocality st \<noteq> ucast (Arg2 req) \<or>
         mLocalityStates st ! unat (mActiveLocality st) = TPM_LOCALITY_CLOSED"
  shows "mActiveLocality st \<le> NUM_LOCALITIES cfg \<and>
     (\<exists>r resp' st'. StartHandler cfg req resp st = Some (Inr (r, resp', st')) \<and>
        sst st' = sst st \<and> mCurrentState st' = mCurrentState st \<and> mActiveLocality st' = mActiveLocality st \<and>
        r \<in> {tpm2 cfg TPM2_FFA_ERROR_INVARG, tpm2 cfg TPM2_FFA_ERROR_DENIED})"
proof -
  have inv: "tpm_inv cfg st" using assms(1) by (rule tpm.invar_reachable)
  obtain st' where c: "CleanInternalCrb cfg st = Inr st'" "mCurrentState st' = mCurrentState st"
    "mActiveLocality st' = mActiveLocality st" "sst st' = sst st" using CleanInternalCrb_ok[OF inv] by blast
  show ?thesis
    using inv assms(2,3) c by (auto simp: tpm_inv_def StartHandler_def Let_def)
qed

text \<open>The example states are reachable.\<close>

lemma ex_init_reachable: "reachable (tpm_started ex_cfg) (tpm_step ex_cfg) ex_init"
proof (rule reach_start)
  have "tpm_boot ex_cfg ex_boot" by code_simp
  with ex_states(1) show "tpm_started ex_cfg ex_init" unfolding tpm_started_def by blast
qed

theorem commands_only_for_owner_witness:
  "mActiveLocality ex_init \<le> NUM_LOCALITIES ex_cfg \<and>
     (\<exists>r resp' st'. StartHandler ex_cfg (ex_start 0 0) msg_zero ex_init = Some (Inr (r, resp', st')) \<and>
        sst st' = sst ex_init \<and> mCurrentState st' = mCurrentState ex_init \<and>
        mActiveLocality st' = mActiveLocality ex_init \<and>
        r \<in> {tpm2 ex_cfg TPM2_FFA_ERROR_INVARG, tpm2 ex_cfg TPM2_FFA_ERROR_DENIED})"
proof (rule commands_only_for_owner[OF ex_init_reachable])
  show "ucast (ucast (Arg1 (ex_start 0 0)) :: UINT16) = tpm2 ex_cfg TPM2_FFA_START_FUNC_QUALIFIER_COMMAND"
    by code_simp
  show "mActiveLocality ex_init \<noteq> ucast (Arg2 (ex_start 0 0)) \<or>
      mLocalityStates ex_init ! unat (mActiveLocality ex_init) = TPM_LOCALITY_CLOSED"
  proof
    show "mActiveLocality ex_init \<noteq> ucast (Arg2 (ex_start 0 0))" by code_simp
  qed
qed

section \<open>Every message is answered\<close>

definition sizes_ok :: "'w tpm_cfg \<Rightarrow> 'w tpm_state \<Rightarrow> bool" where
  "sizes_ok cfg st \<longleftrightarrow> list_all (\<lambda>crb. unat (CrbControlCommandSize crb) \<le> CrbDataBufferSize cfg \<and>
     unat (CrbControlResponseSize crb) \<le> CrbDataBufferSize cfg \<and> CrbControlResponseSize crb \<noteq> 0) (InternalCrb st)"

lemma sst_start_total:
  assumes inv: "tpm_inv cfg st" and l: "unat (mActiveLocality st) < unat (NUM_LOCALITIES cfg)"
    and ok: "timeouts_ok (sst_env cfg)" and sz: "sizes_ok cfg st"
  shows "\<exists>st0 st'. sst_start cfg st = Some (Inr (st0, st'))"
proof -
  let ?crb = "InternalCrb st ! unat (mActiveLocality st)"
  have "?crb \<in> set (InternalCrb st)" using l tpm_inv_lengths(1)[OF inv] by simp
  with sz have s: "unat (CrbControlCommandSize ?crb) \<le> CrbDataBufferSize cfg"
    "unat (CrbControlResponseSize ?crb) \<le> CrbDataBufferSize cfg" "CrbControlResponseSize ?crb \<noteq> 0"
    by (auto simp: sizes_ok_def list_all_iff)
  obtain st0 data s' where "TpmSstStart (sst_env cfg) (mActiveLocality st) (CrbControlCommandSize ?crb)
      (CrbControlResponseSize ?crb) (CrbDataBuffer ?crb) (sst st) = Some (Inr (st0, data, s'))"
    using tpm_start_safe[OF ok, of "CrbControlCommandSize ?crb" "CrbDataBuffer ?crb" "CrbControlResponseSize ?crb"
        "sst st" "mActiveLocality st"] s crb_len[OF inv l] by auto
  then show ?thesis by (simp add: sst_start_def Let_def)
qed

lemma HandleCommand_total:
  assumes inv: "tpm_inv cfg st" and l: "mActiveLocality st < NUM_LOCALITIES cfg"
    and ok: "timeouts_ok (sst_env cfg)" and sz: "sizes_ok cfg st"
  shows "\<exists>r st'. HandleCommand cfg st = Some (Inr (r, st'))"
proof -
  have l': "unat (mActiveLocality st) < unat (NUM_LOCALITIES cfg)" using l by (simp add: word_less_nat_alt)
  then have len: "\<not> length (InternalCrb st) \<le> unat (mActiveLocality st)"
    using tpm_inv_lengths(1)[OF inv] by simp
  have bind: "\<exists>r st'. bind_comp c (\<lambda>(Status, st'). Some (Inr (ConvertEfiToTpmStatus cfg Status, st'))) = Some (Inr (r, st'))"
    if "\<exists>x st1. c = Some (Inr (x, st1))" for c :: "(EFI_STATUS \<times> 'a tpm_state) comp"
    using that by auto
  note tot = go_idle.sst_transition_total[OF ok] cmd_ready.sst_transition_total[OF ok]
    sst_start_total[OF inv l' ok sz]
  show ?thesis
    unfolding HandleCommand_def Let_def if_not_P[OF len]
    by (rule bind, cases "mCurrentState st") (simp_all add: tot)
qed

lemma HandleLocalityRequest_total:
  assumes inv: "tpm_inv cfg st" and l: "l < NUM_LOCALITIES cfg" and ok: "timeouts_ok (sst_env cfg)"
  shows "\<exists>r st'. HandleLocalityRequest cfg l st = Some (Inr (r, st'))"
proof -
  have l': "unat l < unat (NUM_LOCALITIES cfg)" using l by (simp add: word_less_nat_alt)
  then have len: "\<not> length (InternalCrb st) \<le> unat l" using tpm_inv_lengths(1)[OF inv] by simp
  obtain r1 s1 where rel: "locality_finish cfg l (NO_ACTIVE_LOCALITY cfg)
      (TpmSstLocalityRelinquish (sst_env cfg)) st = Some (Inr (r1, s1))"
    using loc_relinquish.locality_finish_total[OF inv l' ok] by blast
  obtain r2 s2 where req: "locality_finish cfg l l (TpmSstLocalityRequest (sst_env cfg)) st = Some (Inr (r2, s2))"
    using loc_request.locality_finish_total[OF inv l' ok] by blast
  show ?thesis
    unfolding HandleLocalityRequest_eq Let_def if_not_P[OF len] rel req by simp
qed

lemma StartHandler_total:
  assumes inv: "tpm_inv cfg st" and ok: "timeouts_ok (sst_env cfg)" and sz: "sizes_ok cfg st"
  shows "\<exists>r st'. StartHandler cfg req resp st = Some (Inr (r, resp\<lparr>Arg0 := r\<rparr>, st'))"
proof -
  let ?l = "ucast (Arg2 req) :: UINT8"
  have fin: "\<exists>r st'. bind_comp c (\<lambda>(ReturnVal, st1). Some (bind_result (CleanInternalCrb cfg st1)
      (\<lambda>st2. Inr (ReturnVal, resp\<lparr>Arg0 := ReturnVal\<rparr>, st2)))) = Some (Inr (r, resp\<lparr>Arg0 := r\<rparr>, st'))"
    if "c = Some (Inr (r, st1))" "tpm_inv cfg st1" for c r st1
    using CleanInternalCrb_ok[OF that(2)] that(1) by auto
  have same: "\<exists>r st1. Some (Inr (x, st)) = Some (Inr (r, st1) :: (TpmStatus \<times> 'a tpm_state) result) \<and> tpm_inv cfg st1" for x
    using inv by simp
  have cmd: "\<exists>r st1. HandleCommand cfg st = Some (Inr (r, st1)) \<and> tpm_inv cfg st1"
    if "mActiveLocality st < NUM_LOCALITIES cfg"
    using HandleCommand_total[OF inv that ok sz] HandleCommand_result[OF _ inv that] by (meson prod_cases3)
  have loc: "\<exists>r st1. HandleLocalityRequest cfg ?l st = Some (Inr (r, st1)) \<and> tpm_inv cfg st1"
    if "?l < NUM_LOCALITIES cfg"
    using HandleLocalityRequest_total[OF inv that ok] HandleLocalityRequest_result[OF inv that] by blast
  define c where "c =
     (if ?l \<ge> NUM_LOCALITIES cfg then Some (Inr (tpm2 cfg TPM2_FFA_ERROR_INVARG, st))
      else if mLocalityStates st ! unat ?l = TPM_LOCALITY_CLOSED
      then Some (Inr (tpm2 cfg TPM2_FFA_ERROR_DENIED, st))
      else if ucast (ucast (Arg1 req) :: UINT16) = tpm2 cfg TPM2_FFA_START_FUNC_QUALIFIER_COMMAND
      then (if ?l = mActiveLocality st then HandleCommand cfg st
            else Some (Inr (tpm2 cfg TPM2_FFA_ERROR_INVARG, st)))
      else if ucast (ucast (Arg1 req) :: UINT16) = tpm2 cfg TPM2_FFA_START_FUNC_QUALIFIER_LOCALITY
      then HandleLocalityRequest cfg ?l st
      else Some (Inr (tpm2 cfg TPM2_FFA_ERROR_INVARG, st)))"
  have "\<exists>r st1. c = Some (Inr (r, st1)) \<and> tpm_inv cfg st1"
    unfolding c_def using same cmd loc by (auto simp: not_le)
  then obtain r st1 where "c = Some (Inr (r, st1))" "tpm_inv cfg st1" by blast
  from fin[OF this] show ?thesis unfolding StartHandler_def Let_def c_def .
qed

text \<open>
  C8. The service answers every message: with the invariant, timeouts in range and size
  registers within the data buffer, the handler returns without touching memory outside
  its buffers, even when the TPM never responds.
\<close>

theorem TpmServiceHandle_total:
  assumes "tpm_inv cfg st" and "timeouts_ok (sst_env cfg)" and "sizes_ok cfg st"
  shows "\<exists>resp' st'. TpmServiceHandle cfg (Some req) (Some resp) st = Some (Inr (Some resp', st'))"
proof -
  obtain r st1 where "StartHandler cfg req resp st = Some (Inr (r, resp\<lparr>Arg0 := r\<rparr>, st1))"
    using StartHandler_total[OF assms] by blast
  then show ?thesis by (simp add: TpmServiceHandle_def Let_def split: prod.split)
qed

theorem TpmServiceHandle_total_witness:
  "\<exists>resp' st'. TpmServiceHandle ex_cfg (Some (ex_start 0 0)) (Some msg_zero) ex_go = Some (Inr (Some resp', st'))"
proof (rule TpmServiceHandle_total[OF ex_go_inv])
  show "timeouts_ok (sst_env ex_cfg)"
    by (simp add: timeouts_ok_def timeout_ok_def ex_cfg_def ex_tpm_def)
  show "sizes_ok ex_cfg ex_go" by code_simp
qed

section \<open>The shared buffer after a start request\<close>

lemma set_buffer_regs_sel [simp]:
  "LocalityControl (set_buffer_regs cfg l crb) = LocalityControl crb"
  "LocalityStatus (set_buffer_regs cfg l crb) = LocalityStatus crb"
  "CrbControlRequest (set_buffer_regs cfg l crb) = CrbControlRequest crb"
  "CrbControlStart (set_buffer_regs cfg l crb) = CrbControlStart crb"
  "CrbControlStatus (set_buffer_regs cfg l crb) = CrbControlStatus crb"
  "CrbControlCommandSize (set_buffer_regs cfg l crb) = of_nat (CrbDataBufferSize cfg)"
  "CrbControlResponseSize (set_buffer_regs cfg l crb) = of_nat (CrbDataBufferSize cfg)"
  "CrbControlResponseAddrss (set_buffer_regs cfg l crb) = data_addr cfg l"
  by (simp_all add: set_buffer_regs_def)



section \<open>Confidentiality and authority\<close>

lemma sst_transition_clears:
  assumes run: "sst_transition sst_op target True st = Some (Inr (st0, st'))"
    and diff: "mCurrentState st' \<noteq> mCurrentState st" and l: "unat (mActiveLocality st) < length (InternalCrb st)"
  shows "list_all (\<lambda>b. b = 0) (CrbDataBuffer (InternalCrb st' ! unat (mActiveLocality st)))"
proof -
  obtain a s' where op: "sst_op (mActiveLocality st) (sst st) = Some (a, s')"
    using run by (auto simp: sst_transition_def split: option.splits)
  with run diff have "a = EFI_SUCCESS"
    by (auto simp: sst_transition_def Let_def split: if_splits)
  with run op l show ?thesis by (auto simp: sst_transition_def Let_def list_all_iff)
qed

text \<open>
  C26. When the TPM leaves the COMPLETE state, the response it had delivered is gone: every
  byte of the owner's data buffer is zero.
\<close>

theorem leaving_complete_clears_response:
  assumes inv: "tpm_inv cfg st" and l: "mActiveLocality st < NUM_LOCALITIES cfg"
    and complete: "mCurrentState st = TPM_STATE_COMPLETE"
    and run: "HandleCommand cfg st = Some (Inr (r, st'))"
    and left: "mCurrentState st' \<noteq> TPM_STATE_COMPLETE"
  shows "list_all (\<lambda>b. b = 0) (CrbDataBuffer (InternalCrb st' ! unat (mActiveLocality st)))"
proof -
  have l': "unat (mActiveLocality st) < unat (NUM_LOCALITIES cfg)" using l by (simp add: word_less_nat_alt)
  have len: "unat (mActiveLocality st) < length (InternalCrb st)" using tpm_inv_lengths(1)[OF inv] l' by simp
  have start: False if "sst_start cfg st = Some (Inr (x, st'))" for x
    using sst_start_result[OF that inv l'] complete left by (auto split: if_splits)
  have diff: "mCurrentState st' \<noteq> mCurrentState st" using complete left by simp
  have denied: "st' \<noteq> st" using diff by auto
  show ?thesis
    using run len complete denied start sst_transition_clears[OF _ diff len]
    by (auto simp: HandleCommand_def Let_def bind_comp_Inr_iff split: if_splits)
qed

theorem leaving_complete_clears_response_witness:
  "list_all (\<lambda>b. b = 0) (CrbDataBuffer (InternalCrb (run_ok (HandleCommand ex_cfg
       (ex_poke 0 (\<lambda>c. c\<lparr>CrbControlRequest := 2\<rparr>) [0, 2] ex_complete)) ex_complete) !
     unat (mActiveLocality (ex_poke 0 (\<lambda>c. c\<lparr>CrbControlRequest := 2\<rparr>) [0, 2] ex_complete))))"
proof (rule leaving_complete_clears_response)
  let ?st = "ex_poke 0 (\<lambda>c. c\<lparr>CrbControlRequest := 2\<rparr>) [0, 2] ex_complete"
  show "tpm_inv ex_cfg ?st" by code_simp
  show "mActiveLocality ?st < NUM_LOCALITIES ex_cfg" by code_simp
  show "mCurrentState ?st = TPM_STATE_COMPLETE" by code_simp
  show "HandleCommand ex_cfg ?st = Some (Inr (0x05000001, run_ok (HandleCommand ex_cfg ?st) ex_complete))"
    by code_simp
  show "mCurrentState (run_ok (HandleCommand ex_cfg ?st) ex_complete) \<noteq> TPM_STATE_COMPLETE" by code_simp
qed

text \<open>
  Only a logical partition of the secure monitor (source id \<open>0xFFxx\<close>) can open or
  close localities: a message from anyone else leaves every locality as it was.
\<close>

lemma locality_management_restricted:
  assumes inv: "tpm_inv cfg st" and run: "TpmServiceHandle cfg (Some req) (Some resp) st = Some (Inr (resp', st'))"
    and src: "SourceId req AND 0xFF00 \<noteq> 0xFF00"
  shows "mLocalityStates st' = mLocalityStates st"
proof -
  have start: "mLocalityStates st' = mLocalityStates st"
    if h: "StartHandler cfg req resp st = Some (Inr (r, p', st'))" for r p'
  proof -
    from h obtain st1 where clean: "CleanInternalCrb cfg st1 = Inr st'" and
      st1: "st1 = st \<or> ucast (Arg2 req) < NUM_LOCALITIES cfg \<and>
        (mActiveLocality st = ucast (Arg2 req) \<and> HandleCommand cfg st = Some (Inr (r, st1)) \<or>
         HandleLocalityRequest cfg (ucast (Arg2 req)) st = Some (Inr (r, st1)))"
      by (rule StartHandler_split) (auto split: if_splits)
    obtain idle ready start where
      bits: "command_bits cfg (InternalCrb st ! unat (mActiveLocality st)) = (idle, ready, start)" by (rule prod_cases3)
    have "mLocalityStates st1 = mLocalityStates st"
      using st1 HandleCommand_result[OF _ inv _ bits, of r st1]
        HandleLocalityRequest_result[OF inv, of "ucast (Arg2 req)" r st1]
      by (auto simp: keeps_owner_def)
    moreover have "mLocalityStates st' = mLocalityStates st1"
      using clean by (auto simp: CleanInternalCrb_def Let_def split: if_splits)
    ultimately show ?thesis by simp
  qed
  have manage: "st' = st" if "ManageLocalityHandler cfg req resp st = (r, p', st')" for r p'
    using that src by (auto simp: ManageLocalityHandler_def Let_def)
  show ?thesis
    using run start manage
    by (auto simp: TpmServiceHandle_def Let_def bind_comp_Inr_iff split: if_splits prod.splits)
qed

lemma locality_management_restricted_example:
  "mLocalityStates ex_init = mLocalityStates ex_init \<and>
   TpmServiceHandle ex_cfg (Some ((ex_manage 0 0)\<lparr>SourceId := 0x8001\<rparr>)) (Some msg_zero) ex_init =
     Some (Inr (Some (msg_zero\<lparr>Arg0 := 0x8E00000A\<rparr>), ex_init))"
proof
  have inv: "tpm_inv ex_cfg ex_init" by (rule tpm.invar_reachable[OF ex_init_reachable])
  show run: "TpmServiceHandle ex_cfg (Some ((ex_manage 0 0)\<lparr>SourceId := 0x8001\<rparr>)) (Some msg_zero) ex_init =
     Some (Inr (Some (msg_zero\<lparr>Arg0 := 0x8E00000A\<rparr>), ex_init))" by code_simp
  show "mLocalityStates ex_init = mLocalityStates ex_init"
    by (rule locality_management_restricted[OF inv run]) (simp add: ex_manage_def)
qed

section \<open>A reachable buffer overflow\<close>

lemma poke_reachable:
  assumes r: "reachable (tpm_started ex_cfg) (tpm_step ex_cfg) st" and l: "l < 5"
    and len: "length (CrbDataBuffer (f (InternalCrb st ! l))) = length (CrbDataBuffer (InternalCrb st ! l))"
  shows "reachable (tpm_started ex_cfg) (tpm_step ex_cfg) (ex_poke l f reads st)"
proof -
  let ?st1 = "st\<lparr>InternalCrb := (InternalCrb st)[l := f (InternalCrb st ! l)]\<rparr>"
  have inv: "tpm_inv ex_cfg st" by (rule tpm.invar_reachable[OF r])
  have "length (CrbDataBuffer (f (InternalCrb st ! l))) = CrbDataBufferSize ex_cfg"
    using len crb_len[OF inv, of l] l by (simp add: ex_cfg_def)
  from tpm_inv_put[OF inv this, of l] have "tpm_step ex_cfg st ?st1"
    unfolding tpm_step_def by (intro disjI2 disjI1 exI[of _ "(InternalCrb st)[l := f (InternalCrb st ! l)]"])
      (simp add: tpm_inv_def)
  with r have "reachable (tpm_started ex_cfg) (tpm_step ex_cfg) ?st1" by (rule reach_step)
  moreover have "tpm_step ex_cfg ?st1 (ex_poke l f reads st)"
    unfolding tpm_step_def by (intro disjI2 exI[of _ "(reads, [])"]) (simp add: ex_poke_def)
  ultimately show ?thesis by (rule reach_step)
qed

lemma send_reachable:
  assumes r: "reachable (tpm_started ex_cfg) (tpm_step ex_cfg) st"
  shows "reachable (tpm_started ex_cfg) (tpm_step ex_cfg) (ex_send m st)"
proof (cases "\<exists>p st'. TpmServiceHandle ex_cfg (Some m) (Some msg_zero) st = Some (Inr (p, st'))")
  case True
  then obtain p st' where run: "TpmServiceHandle ex_cfg (Some m) (Some msg_zero) st = Some (Inr (p, st'))" by blast
  then have "ex_send m st = st'" by (simp add: ex_send_def run_ok_def)
  moreover have "tpm_step ex_cfg st st'" using run unfolding tpm_step_def by blast
  ultimately show ?thesis using reach_step[OF r] by simp
next
  case False
  then have "ex_send m st = st" by (auto simp: ex_send_def run_ok_def split: option.split sum.split)
  with r show ?thesis by simp
qed

lemma ex_ready_reachable: "reachable (tpm_started ex_cfg) (tpm_step ex_cfg) ex_ready"
  unfolding ex_ready_def ex_owned_def
  by (intro send_reachable poke_reachable ex_init_reachable) simp_all

text \<open>
  C38. The size check is missing on a path the normal world controls: in a reachable state,
  after the normal world writes a command size of nine bytes for a buffer of eight into its
  CRB, the start request makes the service copy beyond its local buffer.
\<close>

theorem start_overflow_reachable:
  "\<exists>st. reachable (tpm_started ex_cfg) (tpm_step ex_cfg) st \<and>
     TpmServiceHandle ex_cfg (Some (ex_start 0 0)) (Some msg_zero) st = Some (Inl OutOfBounds)"
proof (intro exI conjI)
  let ?st = "ex_poke 0 (\<lambda>c. c\<lparr>CrbControlStart := 1, CrbControlCommandSize := 9\<rparr>) [] ex_ready"
  show "reachable (tpm_started ex_cfg) (tpm_step ex_cfg) ?st"
    by (rule poke_reachable[OF ex_ready_reachable]) simp_all
  show "TpmServiceHandle ex_cfg (Some (ex_start 0 0)) (Some msg_zero) ?st = Some (Inl OutOfBounds)"
    by code_simp
qed

end
