(* ===== verification/TpmSession.thy ===== *)
theory TpmSession
  imports TpmProperties
begin

text \<open>
  The TPM service over whole sessions, as the normal world sees it: any sequence of messages,
  with anything written into the shared CRBs between them. The replies alone tell who owns the
  TPM, and ownership is exclusive.
\<close>

section \<open>Sessions\<close>

datatype tpm_event =
    Message DIRECT_MSG_ARGS_EX
  | HostWrite nat PTP_CRB_REGISTERS  \<comment> \<open>the normal world overwrites the CRB of a locality\<close>

definition host_write :: "'w tpm_cfg \<Rightarrow> nat \<Rightarrow> PTP_CRB_REGISTERS \<Rightarrow> 'w tpm_state \<Rightarrow> 'w tpm_state" where
  "host_write cfg l crb st =
     (if l < length (InternalCrb st) \<and> length (CrbDataBuffer crb) = CrbDataBufferSize cfg
      then st\<lparr>InternalCrb := (InternalCrb st)[l := crb]\<rparr> else st)"

text \<open>The trace of a session: what each message asked for, and whether it was answered with success.\<close>

type_synonym tpm_trace = "(tpm_request \<times> bool) list"

definition granted_reply :: "'w tpm_cfg \<Rightarrow> DIRECT_MSG_ARGS_EX option \<Rightarrow> bool" where
  "granted_reply cfg resp = (case resp of None \<Rightarrow> False | Some p \<Rightarrow> Arg0 p = tpm2 cfg TPM2_FFA_SUCCESS_OK)"

fun tpm_session :: "'w tpm_cfg \<Rightarrow> tpm_event list \<Rightarrow> 'w tpm_state \<Rightarrow> (tpm_trace \<times> 'w tpm_state) comp" where
  "tpm_session cfg [] st = Some (Inr ([], st))"
| "tpm_session cfg (HostWrite l crb # evs) st = tpm_session cfg evs (host_write cfg l crb st)"
| "tpm_session cfg (Message req # evs) st =
     bind_comp (TpmServiceHandle cfg (Some req) (Some msg_zero) st) (\<lambda>(resp, st1).
     bind_comp (tpm_session cfg evs st1) (\<lambda>(tr, st2).
       Some (Inr ((request_of cfg req st, granted_reply cfg resp) # tr, st2))))"

section \<open>The abstract machine replays the trace\<close>

fun replay :: "bool \<Rightarrow> tpm_trace \<Rightarrow> tpm_spec \<Rightarrow> tpm_spec option" where
  "replay bypass [] a = Some a"
| "replay bypass ((r, ok) # tr) a =
     (case if ok then spec_next bypass r a else Some a of None \<Rightarrow> None | Some a' \<Rightarrow> replay bypass tr a')"

lemma host_write_keeps:
  assumes "tpm_inv cfg st"
  shows "tpm_inv cfg (host_write cfg l crb st)" "abs_tpm cfg (host_write cfg l crb st) = abs_tpm cfg st"
    "sst (host_write cfg l crb st) = sst st"
proof -
  show "tpm_inv cfg (host_write cfg l crb st)"
    using assms tpm_inv_put[OF assms, of crb l] by (simp add: host_write_def)
qed (simp_all add: host_write_def abs_tpm_def)

lemma handle_replays:
  assumes "tpm_inv cfg st" and "opcodes_distinct cfg" and "success_distinct cfg"
    and "TpmServiceHandle cfg (Some req) (Some msg_zero) st = Some (Inr (resp, st'))"
  shows "tpm_inv cfg st' \<and> TpmSstIsIdleBypassSupported (sst st') = TpmSstIsIdleBypassSupported (sst st) \<and>
     (if granted_reply cfg resp
      then spec_next (TpmSstIsIdleBypassSupported (sst st)) (request_of cfg req st) (abs_tpm cfg st) = Some (abs_tpm cfg st')
      else abs_tpm cfg st' = abs_tpm cfg st)"
  using tpm_handle_result[OF assms(1,4)] assms(2,3)
  by (auto simp: agrees_def granted_reply_def sst_frame_def TpmSstIsIdleBypassSupported_def)

text \<open>
  The service refines the abstract machine over sessions: whatever messages arrive and whatever
  is written into the shared CRBs in between, replaying the requests that were answered with success
  takes the abstract machine from the state it had to the state it has.
\<close>

lemma session_replays:
  assumes "tpm_inv cfg st" and codes: "opcodes_distinct cfg" "success_distinct cfg"
    and "tpm_session cfg evs st = Some (Inr (tr, st'))"
  shows "tpm_inv cfg st' \<and> replay (TpmSstIsIdleBypassSupported (sst st)) tr (abs_tpm cfg st) = Some (abs_tpm cfg st')"
  using assms(1,4)
proof (induction evs arbitrary: st tr)
  case (Cons ev evs)
  show ?case
  proof (cases ev)
    case (HostWrite l crb)
    with Cons.IH[of "host_write cfg l crb st" tr] Cons.prems host_write_keeps[OF Cons.prems(1), of l crb]
    show ?thesis by simp
  next
    case (Message req)
    with Cons.prems(2) obtain resp st1 tr1 where
      h: "TpmServiceHandle cfg (Some req) (Some msg_zero) st = Some (Inr (resp, st1))"
      and s: "tpm_session cfg evs st1 = Some (Inr (tr1, st'))"
      and tr: "tr = (request_of cfg req st, granted_reply cfg resp) # tr1"
      by (auto simp: bind_comp_Inr_iff)
    note step = handle_replays[OF Cons.prems(1) codes h]
    then have "tpm_inv cfg st1" by blast
    from Cons.IH[OF this s] step show ?thesis unfolding tr by (auto split: if_splits)
  qed
qed simp

section \<open>Who owns the TPM\<close>

text \<open>The locality that must own the TPM, or find it free, for a request to succeed.\<close>

fun uses_locality :: "tpm_request \<Rightarrow> UINT8 option" where
  "uses_locality (Command l idle ready start) = Some l"
| "uses_locality (Access l) = Some l"
| "uses_locality (Relinquish l) = Some l"
| "uses_locality _ = None"

lemma spec_next_owned:
  assumes "spec_next bypass r a = Some a'" and "owner a = Some l"
  shows "uses_locality r \<in> {None, Some l}" and "r \<noteq> Relinquish l \<Longrightarrow> owner a' = Some l"
  using assms by (cases r; auto split: if_splits)+

lemma spec_next_access: "spec_next bypass (Access l) a = Some a' \<Longrightarrow> owner a' = Some l"
  by (auto split: if_splits)

lemma replay_append:
  "replay bypass (tr @ tr') a = Option.bind (replay bypass tr a) (replay bypass tr')"
  by (induction bypass tr a rule: replay.induct) (auto split: option.splits)

lemma replay_owned:
  assumes "replay bypass tr a = Some a'" and "owner a = Some l" and "(Relinquish l, True) \<notin> set tr"
  shows "owner a' = Some l"
  using assms
proof (induction bypass tr a rule: replay.induct)
  case (2 bypass r ok tr a)
  then obtain a1 where a1: "(if ok then spec_next bypass r a else Some a) = Some a1" "replay bypass tr a1 = Some a'"
    by (auto split: option.splits)
  have "owner a1 = Some l"
    using a1(1) 2(3,4) spec_next_owned(2)[of bypass r a a1 l] by (cases ok) auto
  with 2(1)[OF a1(1,2)] 2(4) show ?case by simp
qed simp

text \<open>
  C3. The TPM is never shared. In every session that starts from the initialised service, whatever
  messages arrive from whomever and whatever is written into the shared CRBs in between: after a
  locality has been granted the TPM, no request of another locality succeeds, be it for access, for
  a command or to relinquish, before the first has relinquished the TPM with success.
\<close>

theorem tpm_mutual_exclusion:
  assumes "tpm_started cfg st" and codes: "opcodes_distinct cfg" "success_distinct cfg"
    and run: "tpm_session cfg evs st = Some (Inr (tr, st'))"
    and tr: "tr = xs @ (Access l, True) # ys @ (r, True) # zs"
    and other: "uses_locality r = Some l'" "l' \<noteq> l"
  shows "(Relinquish l, True) \<in> set ys"
proof (rule ccontr)
  assume none: "(Relinquish l, True) \<notin> set ys"
  let ?b = "TpmSstIsIdleBypassSupported (sst st)"
  from session_replays[OF TpmServiceInit_inv[OF assms(1)] codes run] obtain a' where
    "replay ?b tr (abs_tpm cfg st) = Some a'" by blast
  then obtain a1 a2 a3 a4 where a: "spec_next ?b (Access l) a1 = Some a2" "replay ?b ys a2 = Some a3"
    "spec_next ?b r a3 = Some a4"
    unfolding tr by (auto simp: replay_append bind_eq_Some_conv split: option.splits)
  have "owner a3 = Some l" using replay_owned[OF a(2) spec_next_access[OF a(1)] none] .
  with spec_next_owned(1)[OF a(3)] other show False by auto
qed

section \<open>A session\<close>

text \<open>Locality 0 is opened, requests the TPM and gives it up; locality 1 follows.\<close>

definition ex_session :: "tpm_event list" where
  "ex_session = [Message (ex_manage 0 0), Message (ex_manage 0 1),
     HostWrite 0 (ex_crb\<lparr>LocalityControl := 1\<rparr>), Message (ex_start 1 0),
     HostWrite 1 (ex_crb\<lparr>LocalityControl := 1\<rparr>), Message (ex_start 1 1),
     HostWrite 0 (ex_crb\<lparr>LocalityControl := 2\<rparr>), Message (ex_start 1 0),
     HostWrite 1 (ex_crb\<lparr>LocalityControl := 1\<rparr>), Message (ex_start 1 1)]"

definition ex_trace :: tpm_trace where
  "ex_trace = [(Open 0, True), (Open 1, True), (Access 0, True), (Access 1, False), (Relinquish 0, True), (Access 1, True)]"

definition ex_session_boot :: "tpm_script tpm_state" where
  "ex_session_boot = ex_boot\<lparr>sst := (sst ex_boot)\<lparr>dev := ([0x201, 0x201, 1, 0, 1], [])\<rparr>\<rparr>"

definition ex_session_start :: "tpm_script tpm_state" where
  "ex_session_start = (case TpmServiceInit ex_cfg ex_session_boot of Inr st \<Rightarrow> st | Inl _ \<Rightarrow> ex_session_boot)"

definition ex_session_stop :: "tpm_script tpm_state" where
  "ex_session_stop = run_ok (tpm_session ex_cfg ex_session ex_session_start) ex_session_start"

theorem tpm_mutual_exclusion_witness:
  "tpm_session ex_cfg ex_session ex_session_start = Some (Inr (ex_trace, ex_session_stop)) \<and>
   (Relinquish 0, True) \<in> set [(Access 1, False), (Relinquish 0, True)]"
proof
  show run: "tpm_session ex_cfg ex_session ex_session_start = Some (Inr (ex_trace, ex_session_stop))" by code_simp
  have "tpm_boot ex_cfg ex_session_boot" "TpmServiceInit ex_cfg ex_session_boot = Inr ex_session_start" by code_simp+
  then have start: "tpm_started ex_cfg ex_session_start" unfolding tpm_started_def by blast
  show "(Relinquish 0, True) \<in> set [(Access 1, False), (Relinquish 0, True)]"
    by (rule tpm_mutual_exclusion[OF start ex_codes run, where xs = "[(Open 0, True), (Open 1, True)]" and
          r = "Access 1" and l' = 1 and zs = "[]"]) (simp_all add: ex_trace_def)
qed

end
