(* ===== verification/TpmDevice.thy ===== *)
theory TpmDevice
  imports TpmProperties
begin

text \<open>
  The TPM at the other end of the registers. It is outside this repository, so what the driver
  relies on is stated as properties of an arbitrary device world: a CRB whose data buffer is memory
  while it waits and which executes the buffer when the start bit is written (\<open>crb_memory\<close>,
  \<open>crb_executes\<close>, \<open>crb_prompt\<close>), or a FIFO that collects a command and supplies a response
  (\<open>fifo_tpm\<close>). Against such a device the driver moves exactly the command to the TPM and exactly
  its response back, and the service delivers it in the shared buffer of the owner.
\<close>

section \<open>The stages of a start\<close>

lemma TpmSstStart_stages:
  assumes run: "TpmSstStart env l cmd rsp data s = Some (Inr (st, data', s'))"
    and buf: "buf = take (unat cmd) data @ replicate (length data - unat cmd) 0"
  obtains (copy_failed) "EFI_ERROR st" "data' = data" "CopyCommandData env l buf cmd s = Some (Inr (st, s'))"
  | (start_failed) st1 s1 where "EFI_ERROR st" "data' = data"
      "CopyCommandData env l buf cmd s = Some (Inr (st1, s1))" "\<not> EFI_ERROR st1" "StartCommand env l s1 = Some (st, s')"
  | (response_failed) st1 s1 st2 s2 rbuf where "EFI_ERROR st" "data' = data"
      "CopyCommandData env l buf cmd s = Some (Inr (st1, s1))" "\<not> EFI_ERROR st1"
      "StartCommand env l s1 = Some (st2, s2)" "\<not> EFI_ERROR st2"
      "CopyResponseData env l buf rsp s2 = Some (Inr (st, rbuf, s'))"
  | (completed) st1 s1 st2 s2 rbuf where
      "CopyCommandData env l buf cmd s = Some (Inr (st1, s1))" "\<not> EFI_ERROR st1"
      "StartCommand env l s1 = Some (st2, s2)" "\<not> EFI_ERROR st2"
      "CopyResponseData env l buf rsp s2 = Some (Inr (st, rbuf, s'))" "\<not> EFI_ERROR st"
      "data' = take (unat rsp) rbuf @ drop (unat rsp) data"
proof -
  obtain st1 s1 where c: "CopyCommandData env l buf cmd s = Some (Inr (st1, s1))"
    using run unfolding TpmSstStart_def Let_def buf[symmetric] by (auto simp: bind_comp_Inr_iff split: if_splits)
  note run1 = run[unfolded TpmSstStart_def Let_def buf[symmetric] c]
  show thesis
  proof (cases "EFI_ERROR st1")
    case True
    with run1 have "st = st1 \<and> s' = s1 \<and> data' = data"
      by (auto simp: bind_comp_Inr_iff bind_result_Inr_iff split: if_splits)
    with True c copy_failed show thesis by simp
  next
    case ok1: False
    with run1 obtain st2 s2 where d: "StartCommand env l s1 = Some (st2, s2)"
      by (auto simp: bind_comp_Inr_iff split: if_splits option.splits)

    show thesis
    proof (cases "EFI_ERROR st2")
      case True
      with run1 d ok1 have "st = st2 \<and> s' = s2 \<and> data' = data"
        by (auto simp: bind_comp_Inr_iff bind_result_Inr_iff split: if_splits)
      with True ok1 c d start_failed show thesis by simp
    next
      case ok2: False
      with run1 d ok1 obtain rbuf where "CopyResponseData env l buf rsp s2 = Some (Inr (st, rbuf, s'))"
        "data' = (if EFI_ERROR st then data else take (unat rsp) rbuf @ drop (unat rsp) data)"
        by (auto simp: bind_comp_Inr_iff bind_result_Inr_iff split: if_splits)
      with ok1 ok2 c d response_failed completed show thesis by (cases "EFI_ERROR st") simp_all
    qed
  qed
qed

section \<open>Polling a device with an invariant\<close>

text \<open>
  A fact about the device that failed polls and yields leave alone holds when the last read is
  made, and after a timeout.
\<close>

definition poll_keeps :: "'w tpm_env \<Rightarrow> bool \<Rightarrow> UINT64 \<Rightarrow> UINT32 \<Rightarrow> UINT32 \<Rightarrow> ('w \<Rightarrow> bool) \<Rightarrow> bool" where
  "poll_keeps env crb r S C I \<longleftrightarrow>
     (\<forall>w. I w \<longrightarrow> \<not> bits_match S C (fst (poll_read env crb r w)) \<longrightarrow> I (snd (poll_read env crb r w))) \<and>
     (\<forall>w. I w \<longrightarrow> I (snd (ArmFfaLibYield env (ucast YIELD_AMOUNT) w)))"

definition poll_result :: "'w tpm_env \<Rightarrow> bool \<Rightarrow> UINT64 \<Rightarrow> UINT32 \<Rightarrow> UINT32 \<Rightarrow> ('w \<Rightarrow> bool) \<Rightarrow> EFI_STATUS \<times> 'w \<Rightarrow> bool" where
  "poll_result env crb r S C I x \<longleftrightarrow>
     (if fst x = EFI_SUCCESS
      then \<exists>w. I w \<and> bits_match S C (fst (poll_read env crb r w)) \<and> snd x = snd (poll_read env crb r w)
      else EFI_ERROR (fst x) \<and> I (snd x))"

lemma poll_keepsD:
  assumes "poll_keeps env crb r S C I" and "I w" and "\<not> bits_match S C (fst (poll_read env crb r w))"
  shows "I (snd (poll_read env crb r w))"
    and "I (snd (ArmFfaLibYield env (ucast YIELD_AMOUNT) (snd (poll_read env crb r w))))"
  using assms by (simp_all add: poll_keeps_def)

lemma wait_loop_result:
  assumes "wait_loop env crb r S C t d w = Some x" and "I w" and "poll_keeps env crb r S C I"
  shows "poll_result env crb r S C I x"
proof -
  have "\<forall>I. I w \<longrightarrow> poll_keeps env crb r S C I \<longrightarrow> poll_result env crb r S C I x"
  proof (rule wait_loop.raw_induct[of "\<lambda>env crb r S C t d w x.
        \<forall>I. I w \<longrightarrow> poll_keeps env crb r S C I \<longrightarrow> poll_result env crb r S C I x", OF _ assms(1)], intro allI impI)
    fix loop and env :: "'a tpm_env" and crb r S C t d w x I
    let ?p = "poll_read env crb r w"
    let ?y = "ArmFfaLibYield env (ucast YIELD_AMOUNT) (snd ?p)"
    assume IH: "\<And>env crb r S C t d w x. loop env crb r S C t d w = Some x \<Longrightarrow>
        \<forall>I. I w \<longrightarrow> poll_keeps env crb r S C I \<longrightarrow> poll_result env crb r S C I x"
      and run: "(case ?p of (v, w1) \<Rightarrow> if bits_match S C v then Some (EFI_SUCCESS, w1)
        else if t \<le> d then Some (EFI_TIMEOUT, w1)
        else case ArmFfaLibYield env (ucast YIELD_AMOUNT) w1 of (st, w2) \<Rightarrow>
          if EFI_ERROR st then Some (st, w2) else loop env crb r S C t (d + YIELD_AMOUNT) w2) = Some x"
      and I: "I w" "poll_keeps env crb r S C I"
    have rec: "poll_result env crb r S C I x"
      if "loop env crb r S C t (d + YIELD_AMOUNT) (snd ?y) = Some x" "I (snd ?y)"
      using IH[OF that(1)] that(2) I(2) by blast
    show "poll_result env crb r S C I x"
    proof (cases "bits_match S C (fst ?p)")
      case True
      with run I show ?thesis by (auto simp: case_prod_unfold poll_result_def)
    next
      case False
      with run rec poll_keepsD[OF I(2,1) False] show ?thesis
        by (auto simp: case_prod_unfold poll_result_def split: if_splits)
    qed
  qed
  with assms(2,3) show ?thesis by blast
qed

lemma WaitRegisterBits_result:
  assumes run: "WaitRegisterBits env r S C t s = Some (st, s')"
    and I: "I (MicroSecondDelay env DELAY_AMOUNT (dev s))" "poll_keeps env (mIsCrbInterface s) r S C I"
  shows "\<exists>w. s' = s\<lparr>dev := w\<rparr> \<and> poll_result env (mIsCrbInterface s) r S C I (st, w)"
  using run wait_loop_result[OF _ I] by (auto simp: WaitRegisterBits_def split: option.splits)

section \<open>A TPM behind a CRB\<close>

text \<open>
  What the device shows of itself: it waits with a buffer, or it executes the command it was
  started with. \<open>crb_executes\<close> is the start handshake: the start bit reads as set until the response
  replaces the command in the buffer.
\<close>

datatype crb_view = Waiting "UINT8 list" | Executing "UINT8 list"

definition crb_data :: "'w tpm_env \<Rightarrow> UINT8 \<Rightarrow> nat \<Rightarrow> UINT64" where
  "crb_data env l i = reg_addr env l Crb_CrbDataBuffer + of_nat i"

definition crb_memory :: "'w tpm_env \<Rightarrow> UINT8 \<Rightarrow> nat \<Rightarrow> ('w \<Rightarrow> crb_view) \<Rightarrow> bool" where
  "crb_memory env l N view \<longleftrightarrow> (\<forall>w b i. view w = Waiting b \<longrightarrow> length b = N \<longrightarrow> i < N \<longrightarrow>
     (\<forall>x. view (MmioWrite8 env (crb_data env l i) x w) = Waiting (b[i := x])) \<and>
     fst (MmioRead8 env (crb_data env l i) w) = b ! i \<and>
     view (snd (MmioRead8 env (crb_data env l i) w)) = Waiting b)"

definition crb_executes :: "'w tpm_env \<Rightarrow> UINT8 \<Rightarrow> (UINT8 list \<Rightarrow> UINT8 list) \<Rightarrow> ('w \<Rightarrow> crb_view) \<Rightarrow> bool" where
  "crb_executes env l exec view \<longleftrightarrow>
     (let start = reg_addr env l Crb_CrbControlStart; go = ptp env PTP_CRB_CONTROL_START
      in (\<forall>w b. view w = Waiting b \<longrightarrow> view (MmioWrite32 env start go w) = Executing b) \<and>
         (\<forall>w c. view w = Executing c \<longrightarrow>
            (\<forall>t. view (MicroSecondDelay env t w) = Executing c) \<and>
            (\<forall>t. view (snd (ArmFfaLibYield env t w)) = Executing c) \<and>
            view (snd (MmioRead32 env start w)) =
              (if fst (MmioRead32 env start w) AND go = 0 then Waiting (exec c) else Executing c)))"

lemma crb_send_view:
  assumes mem: "crb_memory env l (length b) view" and v: "view w = Waiting b"
    and n: "n \<le> length cmd" "length cmd \<le> length b" and i: "i \<le> n"
    and run: "crb_send env l cmd [i..<n] w = Inr w'"
  shows "view w' = Waiting (take i b @ drop i (take n cmd) @ drop n b)"
  using mem v n i run
proof (induction "n - i" arbitrary: i w b)
  case 0
  then show ?case by simp
next
  case (Suc k)
  then have i: "i < n" by simp
  let ?w = "MmioWrite8 env (crb_data env l i) (cmd ! i) w"
  have "view ?w = Waiting (b[i := cmd ! i])"
    using Suc.prems i by (simp add: crb_memory_def)
  moreover have "crb_send env l cmd [Suc i..<n] ?w = Inr w'"
    using Suc.prems i by (simp add: upt_rec[of i] crb_data_def split: if_splits)
  ultimately have "view w' = Waiting (take (Suc i) (b[i := cmd ! i]) @ drop (Suc i) (take n cmd) @ drop n (b[i := cmd ! i]))"
    using Suc i by (intro Suc.hyps(1)) auto
  moreover have "take (Suc i) (b[i := cmd ! i]) = take i b @ [cmd ! i]"
    using i Suc.prems by (simp add: take_Suc_conv_app_nth)
  moreover have "drop i (take n cmd) = cmd ! i # drop (Suc i) (take n cmd)"
    using i Suc.prems by (simp add: Cons_nth_drop_Suc[symmetric])
  ultimately show ?case using i by simp
qed

lemma crb_receive_view:
  assumes mem: "crb_memory env l (length b) view" and v: "view w = Waiting b"
    and n: "n \<le> length buf" "n \<le> length b" and i: "i \<le> n"
    and run: "crb_receive env l [i..<n] buf w = Inr (buf', w')"
  shows "view w' = Waiting b \<and> buf' = take i buf @ drop i (take n b) @ drop n buf"
  using v n i run
proof (induction "n - i" arbitrary: i w buf)
  case 0
  then show ?case by simp
next
  case (Suc k)
  then have i: "i < n" by simp
  obtain w1 where r: "MmioRead8 env (crb_data env l i) w = (b ! i, w1)" "view w1 = Waiting b"
  proof
    have "i < length b" using i Suc.prems by simp
    with mem Suc.prems show "MmioRead8 env (crb_data env l i) w = (b ! i, snd (MmioRead8 env (crb_data env l i) w))"
      "view (snd (MmioRead8 env (crb_data env l i) w)) = Waiting b"
      by (simp_all add: crb_memory_def prod_eq_iff)
  qed
  have "crb_receive env l [Suc i..<n] (buf[i := b ! i]) w1 = Inr (buf', w')"
    using Suc.prems i r(1) by (simp add: upt_rec[of i] crb_data_def split: if_splits)
  with r(2) have "view w' = Waiting b \<and>
      buf' = take (Suc i) (buf[i := b ! i]) @ drop (Suc i) (take n b) @ drop n (buf[i := b ! i])"
    using Suc i by (intro Suc.hyps(1)) auto
  moreover have "take (Suc i) (buf[i := b ! i]) = take i buf @ [b ! i]"
    using i Suc.prems by (simp add: take_Suc_conv_app_nth)
  moreover have "drop i (take n b) = b ! i # drop (Suc i) (take n b)"
    using i Suc.prems by (simp add: Cons_nth_drop_Suc[symmetric])
  ultimately show ?case using i by simp
qed

lemma StartCommand_view:
  assumes ex: "crb_executes env l exec view" and crb: "mIsCrbInterface s" and v: "view (dev s) = Waiting b"
    and run: "StartCommand env l s = Some (st, s')"
  shows "\<exists>w. s' = s\<lparr>dev := w\<rparr> \<and>
     (if st = EFI_SUCCESS then view w = Waiting (exec b) else EFI_ERROR st \<and> view w = Executing b)"
proof -
  let ?r = "reg_addr env l Crb_CrbControlStart" and ?go = "ptp env PTP_CRB_CONTROL_START"
  let ?I = "\<lambda>w. view w = Executing b"
  have read: "view (snd (poll_read env True ?r w)) =
      (if bits_match 0 ?go (fst (poll_read env True ?r w)) then Waiting (exec b) else Executing b)" if "?I w" for w
    using ex that by (simp add: crb_executes_def Let_def poll_read_def bits_match_def)
  have "\<exists>w. s' = s\<lparr>dev := w\<rparr> \<and> poll_result env True ?r 0 ?go ?I (st, w)"
  proof -
    let ?s = "s\<lparr>dev := MmioWrite32 env ?r ?go (dev s)\<rparr>"
    have "WaitRegisterBits env ?r 0 ?go PTP_TIMEOUT_MAX ?s = Some (st, s')"
      using run crb by (simp add: StartCommand_def)
    moreover have "?I (MicroSecondDelay env DELAY_AMOUNT (dev ?s))"
      using ex v by (simp add: crb_executes_def Let_def)
    moreover have "poll_keeps env (mIsCrbInterface ?s) ?r 0 ?go ?I"
      using ex crb read by (simp add: poll_keeps_def crb_executes_def Let_def)
    ultimately show ?thesis using WaitRegisterBits_result[of env ?r 0 ?go PTP_TIMEOUT_MAX ?s st s' ?I] crb by simp
  qed
  with read show ?thesis by (auto simp: poll_result_def split: if_splits)
qed

text \<open>
  The driver on a CRB: the TPM executes the command over what its buffer held before; on success
  the data buffer gets the first bytes of the response, on an error it is as before and the TPM is
  still executing.
\<close>

lemma TpmSstStart_crb:
  assumes mem: "crb_memory env l (length b) view" and ex: "crb_executes env l exec view"
    and s: "mIsCrbInterface s" "view (dev s) = Waiting b" and len: "length data \<le> length b"
    and c: "c = take (unat cmd) data @ drop (unat cmd) b" "length (exec c) = length c"
    and run: "TpmSstStart env l cmd rsp data s = Some (Inr (st, data', s'))"
  shows "(if st = EFI_SUCCESS
      then data' = take (unat rsp) (exec c) @ drop (unat rsp) data \<and> view (dev s') = Waiting (exec c)
      else EFI_ERROR st \<and> data' = data \<and> view (dev s') = Executing c) \<and>
     (\<exists>s1 s2. mIsCrbInterface s1 \<and> view (dev s1) = Waiting c \<and> StartCommand env l s1 = Some (st, s2))"
proof -
  define buf where "buf = take (unat cmd) data @ replicate (length data - unat cmd) 0"
  note D = TpmSstStart_InrD[OF run]
  have buf: "length buf = length data" "take (unat cmd) buf = take (unat cmd) data" using D(1) by (simp_all add: buf_def)
  have copy: "st1 = EFI_SUCCESS \<and> mIsCrbInterface s1 \<and> view (dev s1) = Waiting c"
    if "CopyCommandData env l buf cmd s = Some (Inr (st1, s1))" for st1 s1
    using that s(1) crb_send_view[OF mem s(2), of "unat cmd" buf 0] buf len D(1) c(1)
    by (auto simp: CopyCommandData_def bind_result_Inr_iff)
  have start: "mIsCrbInterface s2 \<and>
      (if st2 = EFI_SUCCESS then view (dev s2) = Waiting (exec c) else EFI_ERROR st2 \<and> view (dev s2) = Executing c)"
    if "CopyCommandData env l buf cmd s = Some (Inr (st1, s1))" "StartCommand env l s1 = Some (st2, s2)" for st1 s1 st2 s2
    using copy[OF that(1)] StartCommand_view[OF ex _ _ that(2)] by auto
  have rlen: "unat rsp \<le> length (exec c)" "unat rsp \<le> length buf" using D(1,2) len c buf by simp_all
  have mem': "crb_memory env l (length (exec c)) view" using mem c D(1) len by simp
  have response: "st3 = EFI_SUCCESS \<and> view (dev s3) = Waiting (exec c) \<and> take (unat rsp) rbuf = take (unat rsp) (exec c)"
    if "mIsCrbInterface s2" "view (dev s2) = Waiting (exec c)"
      "CopyResponseData env l buf rsp s2 = Some (Inr (st3, rbuf, s3))" for s2 st3 rbuf s3
    using that crb_receive_view[OF mem' that(2) rlen(2,1), of 0] rlen
    by (auto simp: CopyResponseData_def bind_result_Inr_iff)
  show ?thesis
  proof (cases rule: TpmSstStart_stages[OF run buf_def, case_names copy_failed start_failed response_failed completed])
    case copy_failed
    with copy show ?thesis by auto
  next
    case (start_failed st1 s1)
    with start[OF start_failed(3,5)] copy[OF start_failed(3)] show ?thesis by auto
  next
    case (response_failed st1 s1 st2 s2 rbuf)
    with start[OF response_failed(3,5)] response[OF _ _ response_failed(7)] show ?thesis by (auto split: if_splits)
  next
    case (completed st1 s1 st2 s2 rbuf)
    with start[OF completed(1,3)] response[OF _ _ completed(5)] copy[OF completed(1)] show ?thesis
      by (auto split: if_splits)
  qed
qed

text \<open>The TPM finishes within the 90 s the driver allows, and yields do not fail.\<close>

definition crb_prompt :: "'w tpm_env \<Rightarrow> UINT8 \<Rightarrow> ('w \<Rightarrow> crb_view) \<Rightarrow> bool" where
  "crb_prompt env l view \<longleftrightarrow>
     (\<forall>t w. \<not> EFI_ERROR (fst (ArmFfaLibYield env t w))) \<and>
     (\<forall>w c. view w = Executing c \<longrightarrow>
        (\<exists>k \<le> max_yields PTP_TIMEOUT_MAX.
           fst (poll_at env True (reg_addr env l Crb_CrbControlStart) k w) AND ptp env PTP_CRB_CONTROL_START = 0))"

lemma StartCommand_prompt:
  assumes pr: "crb_prompt env l view" and ex: "crb_executes env l exec view"
    and crb: "mIsCrbInterface s" and v: "view (dev s) = Waiting b"
    and run: "StartCommand env l s = Some (st, s')"
  shows "st = EFI_SUCCESS"
proof -
  let ?r = "reg_addr env l Crb_CrbControlStart" and ?go = "ptp env PTP_CRB_CONTROL_START"
  let ?w = "MicroSecondDelay env DELAY_AMOUNT (MmioWrite32 env ?r ?go (dev s))"
  have "view ?w = Executing b" using ex v by (simp add: crb_executes_def Let_def)
  with pr obtain k where k: "k \<le> max_yields PTP_TIMEOUT_MAX" "bits_match 0 ?go (fst (poll_at env True ?r k ?w))"
    by (auto simp: crb_prompt_def bits_match_def)
  then have "first_index (\<lambda>k. bits_match 0 ?go (fst (poll_at env True ?r k ?w))) (Suc (max_yields PTP_TIMEOUT_MAX)) \<noteq> None"
    by (auto simp: first_index_None_iff less_Suc_eq_le)
  with WaitRegisterBits_first[OF timeout_max_ok, of env ?r 0 ?go "s\<lparr>dev := MmioWrite32 env ?r ?go (dev s)\<rparr>"] pr crb run
  show ?thesis by (auto simp: StartCommand_def crb_prompt_def Let_def)
qed

section \<open>A TPM behind a FIFO\<close>

text \<open>
  The device receives a command byte by byte, is busy with it after the go bit is written, and
  supplies the response from the first status read that reports valid data.
\<close>

datatype fifo_view = Receiving "UINT8 list" | Busy "UINT8 list" | Supplying "UINT8 list"

definition fifo_executes ::
  "'w tpm_env \<Rightarrow> UINT8 \<Rightarrow> (UINT8 list \<Rightarrow> UINT8 list) \<Rightarrow> ('w \<Rightarrow> fifo_view) \<Rightarrow> bool" where
  "fifo_executes env l exec view \<longleftrightarrow>
     (let status = reg_addr env l Fifo_Status;
          avail = ptp env PTP_FIFO_STS_VALID OR ptp env PTP_FIFO_STS_DATA
      in (\<forall>w bs. view w = Receiving bs \<longrightarrow>
            view (snd (MmioRead8 env status w)) = Receiving bs \<and>
            view (MmioWrite8 env status (ucast (ptp env PTP_FIFO_STS_GO)) w) = Busy bs) \<and>
         (\<forall>w c. view w = Busy c \<longrightarrow>
            (\<forall>t. view (MicroSecondDelay env t w) = Busy c) \<and>
            (\<forall>t. view (snd (ArmFfaLibYield env t w)) = Busy c) \<and>
            view (snd (MmioRead8 env status w)) =
              (if ucast (fst (MmioRead8 env status w)) AND avail = avail then Supplying (exec c) else Busy c)))"

definition fifo_tpm ::
  "'w tpm_env \<Rightarrow> UINT8 \<Rightarrow> (UINT8 list \<Rightarrow> UINT8 list) \<Rightarrow> ('w \<Rightarrow> fifo_view) \<Rightarrow> bool" where
  "fifo_tpm env l exec view \<longleftrightarrow> fifo_executes env l exec view \<and>
     fifo_collects env l (\<lambda>bs w. view w = Receiving bs) \<and> fifo_supplies env l (\<lambda>xs w. view w = Supplying xs)"

lemma poll_read_fifo:
  "poll_read env False r w = (ucast (fst (MmioRead8 env r w)), snd (MmioRead8 env r w))"
  by (simp add: poll_read_def case_prod_unfold)

lemma CopyCommandData_fifo:
  assumes tpm: "fifo_tpm env l exec view" and ok: "timeouts_ok env" "burst_flows env l"
    and s: "\<not> mIsCrbInterface s" "view (dev s) = Receiving bs" and len: "unat n \<le> length buf"
  shows "\<exists>st w. CopyCommandData env l buf n s = Some (Inr (st, s\<lparr>dev := w\<rparr>)) \<and>
     (st = EFI_SUCCESS \<or> EFI_ERROR st) \<and> view w = Receiving (bs @ take (unat n) buf)"
proof -
  have col: "fifo_collects env l (\<lambda>bs w. view w = Receiving bs)" using tpm by (simp add: fifo_tpm_def)
  obtain w1 where send: "fifo_send env l buf (unat n) 0 (dev s) = Some (Inr (unat n, w1))"
    and v1: "view w1 = Receiving (bs @ take (unat n) buf)"
    using fifo_send_collects[OF col ok(1) len s(2), of 0] ok(2) by auto
  let ?r = "reg_addr env l Fifo_Status" and ?S = "ptp env PTP_FIFO_STS_VALID" and ?C = "ptp env PTP_FIFO_STS_EXPECT"
  let ?I = "\<lambda>w. view w = Receiving (bs @ take (unat n) buf)"
  have burst: "burst_keeps env l ?I" using col by (simp add: fifo_collects_def)
  have read: "?I (snd (poll_read env False ?r w))" if "?I w" for w
    using tpm that by (simp add: fifo_tpm_def fifo_executes_def Let_def poll_read_fifo)
  have keeps: "poll_keeps env False ?r ?S ?C ?I" using burst read by (simp add: poll_keeps_def burst_keeps_def)
  obtain st s' where wait: "WaitRegisterBits env ?r ?S ?C (ptp env PTP_TIMEOUT_C) (s\<lparr>dev := w1\<rparr>) = Some (st, s')"
    using WaitRegisterBits_returns ok(1) by (fastforce simp: timeouts_ok_def)
  have "?I (MicroSecondDelay env DELAY_AMOUNT w1)" using burst v1 by (simp add: burst_keeps_def)
  with WaitRegisterBits_result[OF wait, of ?I] keeps s(1) obtain w where
    w: "s' = s\<lparr>dev := w\<rparr>" "poll_result env False ?r ?S ?C ?I (st, w)" by auto
  then have "(st = EFI_SUCCESS \<or> EFI_ERROR st) \<and> ?I w" using read by (auto simp: poll_result_def split: if_splits)
  with send wait w(1) s(1) show ?thesis by (intro exI[of _ st] exI[of _ w]) (simp add: CopyCommandData_def)
qed

lemma StartCommand_fifo:
  assumes tpm: "fifo_tpm env l exec view" and crb: "\<not> mIsCrbInterface s" and v: "view (dev s) = Receiving c"
  shows "\<exists>st w. StartCommand env l s = Some (st, s\<lparr>dev := w\<rparr>) \<and>
     (if st = EFI_SUCCESS then view w = Supplying (exec c) else EFI_ERROR st \<and> view w = Busy c)"
proof -
  let ?r = "reg_addr env l Fifo_Status" and ?S = "ptp env PTP_FIFO_STS_VALID OR ptp env PTP_FIFO_STS_DATA"
  let ?s = "s\<lparr>dev := MmioWrite8 env ?r (ucast (ptp env PTP_FIFO_STS_GO)) (dev s)\<rparr>"
  let ?I = "\<lambda>w. view w = Busy c"
  have ex: "fifo_executes env l exec view" using tpm by (simp add: fifo_tpm_def)
  have read: "view (snd (poll_read env False ?r w)) =
      (if bits_match ?S 0 (fst (poll_read env False ?r w)) then Supplying (exec c) else Busy c)" if "?I w" for w
    using ex that by (simp add: fifo_executes_def Let_def poll_read_fifo bits_match_def)
  obtain st s' where wait: "WaitRegisterBits env ?r ?S 0 PTP_TIMEOUT_MAX ?s = Some (st, s')"
    using WaitRegisterBits_returns[OF timeout_max_ok] by blast
  have "?I (MicroSecondDelay env DELAY_AMOUNT (dev ?s))" using ex v by (simp add: fifo_executes_def Let_def)
  moreover have "poll_keeps env (mIsCrbInterface ?s) ?r ?S 0 ?I"
    using ex crb read by (simp add: poll_keeps_def fifo_executes_def Let_def)
  ultimately obtain w where "s' = ?s\<lparr>dev := w\<rparr>" "poll_result env False ?r ?S 0 ?I (st, w)"
    using WaitRegisterBits_result[OF wait, of ?I] crb by auto
  with wait crb read show ?thesis by (auto simp: StartCommand_def poll_result_def split: if_splits)
qed

lemma CopyResponseData_fifo:
  assumes tpm: "fifo_tpm env l exec view" and ok: "timeouts_ok env" "burst_flows env l"
    and s: "\<not> mIsCrbInterface s" "view (dev s) = Supplying xs"
    and len: "0 < unat n" "unat n \<le> length buf" "unat n \<le> length xs"
  shows "\<exists>w. CopyResponseData env l buf n s = Some (Inr (EFI_SUCCESS, take (unat n) xs @ drop (unat n) buf, s\<lparr>dev := w\<rparr>)) \<and>
     view w = Supplying (drop (unat n) xs)"
proof -
  have sup: "fifo_supplies env l (\<lambda>xs w. view w = Supplying xs)" using tpm by (simp add: fifo_tpm_def)
  from fifo_receive_supplies[OF sup ok(1) s(2), of 0 "unat n" buf None] len ok(2) show ?thesis
    using s(1) by (auto simp: CopyResponseData_def split: if_splits)
qed

text \<open>
  C39. Assume an idle FIFO on which no read of the burst count ever fails (the TPM offers one in time and
  no yield fails), timeouts that leave room for one more yield, lengths that fit the data buffer, and a response at least as long as the response size the driver asks for. Then
  \<^verbatim>\<open>TpmSstStart\<close> always returns: with success only after the TPM has received exactly the command,
  and then the data buffer holds the first bytes of the TPM's response to it, in order and without
  gaps, whatever the values of the burst counts are; or with an error, and then the data buffer is
  as before. Without the first assumption a command sent in part can be reported as sent
  (\<open>CopyCommandData_timeout_lost\<close>), without the second the response is dropped
  (\<open>fifo_short_response_dropped\<close>).
\<close>

theorem TpmSstStart_fifo:
  assumes tpm: "fifo_tpm env l exec view" and ok: "timeouts_ok env" "burst_flows env l"
    and s: "\<not> mIsCrbInterface s" "view (dev s) = Receiving []"
    and len: "unat cmd \<le> length data" "unat rsp \<le> length data" "0 < unat rsp"
      "unat rsp \<le> length (exec (take (unat cmd) data))"
  shows "\<exists>st data' s'. TpmSstStart env l cmd rsp data s = Some (Inr (st, data', s')) \<and>
     (if st = EFI_SUCCESS
      then data' = take (unat rsp) (exec (take (unat cmd) data)) @ drop (unat rsp) data \<and>
           view (dev s') = Supplying (drop (unat rsp) (exec (take (unat cmd) data)))
      else EFI_ERROR st \<and> data' = data)"
proof -
  let ?c = "take (unat cmd) data"
  define buf where "buf = ?c @ replicate (length data - unat cmd) 0"
  have buf: "length buf = length data" "take (unat cmd) buf = ?c" using len(1) by (simp_all add: buf_def)
  obtain st data' s' where run: "TpmSstStart env l cmd rsp data s = Some (Inr (st, data', s'))"
    using tpm_start_safe[OF ok(1) len(1,2), of s l] len(3) by (auto simp: unat_gt_0)
  obtain st1 w1 where c: "CopyCommandData env l buf cmd s = Some (Inr (st1, s\<lparr>dev := w1\<rparr>))"
    "st1 = EFI_SUCCESS \<or> EFI_ERROR st1" "view w1 = Receiving ?c"
    using CopyCommandData_fifo[OF tpm ok s, of cmd buf] len(1) buf by auto
  obtain st2 w2 where d: "StartCommand env l (s\<lparr>dev := w1\<rparr>) = Some (st2, s\<lparr>dev := w2\<rparr>)"
    "if st2 = EFI_SUCCESS then view w2 = Supplying (exec ?c) else EFI_ERROR st2 \<and> view w2 = Busy ?c"
    using StartCommand_fifo[OF tpm, of "s\<lparr>dev := w1\<rparr>"] s(1) c(3) by auto
  have response: "st3 = EFI_SUCCESS \<and> take (unat rsp) rbuf = take (unat rsp) (exec ?c) \<and>
      view (dev s3) = Supplying (drop (unat rsp) (exec ?c))"
    if "st2 = EFI_SUCCESS" "CopyResponseData env l buf rsp (s\<lparr>dev := w2\<rparr>) = Some (Inr (st3, rbuf, s3))" for st3 rbuf s3
    using CopyResponseData_fifo[OF tpm ok, of "s\<lparr>dev := w2\<rparr>" "exec ?c" rsp buf] that s(1) d(2) len buf by auto
  show ?thesis
  proof (cases rule: TpmSstStart_stages[OF run buf_def, case_names copy_failed start_failed response_failed completed])
    case copy_failed
    with run show ?thesis by auto
  next
    case (start_failed st1' s1)
    with run show ?thesis by auto
  next
    case (response_failed st1' s1 st2' s2 rbuf)
    with run show ?thesis by auto
  next
    case (completed st1' s1 st2' s2 rbuf)
    have e: "st2' = st2" "s2 = s\<lparr>dev := w2\<rparr>" using completed(1,3) c(1) d(1) by auto
    with completed(4) d(2) have "st2 = EFI_SUCCESS" by (auto split: if_splits)
    from response[OF this completed(5)[unfolded e]] completed(7) run show ?thesis by auto
  qed
qed

text \<open>A FIFO that takes two bytes a time and answers with the command reversed.\<close>

fun ex_fifo_read8 :: "UINT64 \<Rightarrow> fifo_view \<Rightarrow> UINT8 \<times> fifo_view" where
  "ex_fifo_read8 a (Receiving bs) = (if a = 0x60120019 then 2 else if a = 0x60120018 then 0x80 else 0, Receiving bs)"
| "ex_fifo_read8 a (Busy c) =
     (if a = 0x60120018 then (0x90, Supplying (rev c)) else (if a = 0x60120019 then 2 else 0, Busy c))"
| "ex_fifo_read8 a (Supplying xs) =
     (if a = 0x60120024 \<and> xs \<noteq> [] then (hd xs, Supplying (tl xs)) else (if a = 0x60120019 then 2 else 0, Supplying xs))"

fun ex_fifo_write8 :: "UINT64 \<Rightarrow> UINT8 \<Rightarrow> fifo_view \<Rightarrow> fifo_view" where
  "ex_fifo_write8 a x (Receiving bs) =
     (if a = 0x60120024 then Receiving (bs @ [x]) else if a = 0x60120018 \<and> x = 0x20 then Busy bs else Receiving bs)"
| "ex_fifo_write8 a x v = v"

definition ex_fifo_env :: "fifo_view tpm_env" where
  "ex_fifo_env = \<lparr> MmioRead8 = ex_fifo_read8, MmioRead32 = (\<lambda>_ w. (0, w)),
     MmioWrite8 = ex_fifo_write8, MmioWrite32 = (\<lambda>_ _ w. w), MicroSecondDelay = (\<lambda>_ w. w),
     ArmFfaLibYield = (\<lambda>_ w. (EFI_SUCCESS, w)), PcdTpmBaseAddress = 0x60120000,
     ptp_offset = ex_offset, ptp = ex_ptp \<rparr>"

lemma ex_fifo_device: "fifo_tpm ex_fifo_env 0 rev (\<lambda>w. w)" "burst_flows ex_fifo_env 0" "timeouts_ok ex_fifo_env"
proof -
  note env = ex_fifo_env_def reg_addr_def LOCALITY_OFFSET_def
  have burst: "burst_keeps ex_fifo_env 0 (\<lambda>w. w = v)" if "\<not> (\<exists>c. v = Busy c)" for v
    using that by (cases v) (simp_all add: burst_keeps_def env)
  show "fifo_tpm ex_fifo_env 0 rev (\<lambda>w. w)"
    by (auto simp: fifo_tpm_def fifo_executes_def fifo_collects_def fifo_supplies_def burst Let_def) (simp_all add: env)
  have "fst (ex_fifo_read8 0x60120019 w) = 2 \<and> fst (ex_fifo_read8 0x6012001A (snd (ex_fifo_read8 0x60120019 w))) = 0" for w
    by (cases w) simp_all
  then show "burst_flows ex_fifo_env 0"
    unfolding burst_flows_def FifoReadBurstCount_def
    by (subst burst_loop.simps) (auto simp: env Let_def case_prod_unfold)
  show "timeouts_ok ex_fifo_env" by (simp add: timeouts_ok_def timeout_ok_def env)
qed

theorem TpmSstStart_fifo_witness:
  "\<exists>st data' s'. TpmSstStart ex_fifo_env 0 3 3 [1, 2, 3, 4]
       \<lparr>mIsCrbInterface = False, mIsIdleBypassSupported = False, dev = Receiving []\<rparr> = Some (Inr (st, data', s')) \<and>
     (if st = EFI_SUCCESS
      then data' = take (unat (3 :: UINT32)) (rev (take (unat (3 :: UINT32)) [1, 2, 3, 4])) @ drop (unat (3 :: UINT32)) [1, 2, 3, 4] \<and>
           dev s' = Supplying (drop (unat (3 :: UINT32)) (rev (take (unat (3 :: UINT32)) [1, 2, 3, 4])))
      else EFI_ERROR st \<and> data' = [1, 2, 3, 4])"
  by (rule TpmSstStart_fifo[OF ex_fifo_device(1,3,2)]) simp_all

text \<open>
  The length the driver reads is the size of the response area. When a FIFO has supplied a shorter
  response and offers no further burst count, the copy times out and the response is dropped: here
  one byte of response, where two are asked for.
\<close>

lemma fifo_short_response_dropped:
  "map_option (map_sum id (\<lambda>(st, data, s). (st, data)))
     (TpmSstStart ex_tpm 0 1 2 [1, 0] (ex_sst False [1, 0, 0x80, 0x90, 1, 0, 0x55])) =
   Some (Inr (EFI_TIMEOUT, [1, 0]))"
  by code_simp

section \<open>A command through the service\<close>

text \<open>\<^verbatim>\<open>CleanInternalCrb\<close> rewrites registers, never the data.\<close>

lemma CleanInternalCrb_data:
  assumes "CleanInternalCrb cfg st = Inr st'"
  shows "CrbDataBuffer (InternalCrb st' ! i) = CrbDataBuffer (InternalCrb st ! i)"
  using assms
  by (cases "unat (mActiveLocality st) = i") (auto simp: CleanInternalCrb_def Let_def split: if_splits)

lemma start_accepted:
  assumes req: "request_of cfg req st = Command l False False True"
    and sp: "spec_next (TpmSstIsIdleBypassSupported (sst st)) (request_of cfg req st) (abs_tpm cfg st) \<noteq> None"
  shows "Arg0 req = tpm2 cfg TPM2_FFA_START" "l = ucast (Arg2 req)"
    "ucast (ucast (Arg1 req) :: UINT16) = tpm2 cfg TPM2_FFA_START_FUNC_QUALIFIER_COMMAND"
    "command_bits cfg (InternalCrb st ! unat l) = (False, False, True)"
    "l < NUM_LOCALITIES cfg" "mLocalityStates st ! unat l \<noteq> TPM_LOCALITY_CLOSED" "mActiveLocality st = l"
    "mCurrentState st \<noteq> TPM_STATE_IDLE"
    "mCurrentState st = TPM_STATE_COMPLETE \<longrightarrow> TpmSstIsIdleBypassSupported (sst st)"
proof -
  show "Arg0 req = tpm2 cfg TPM2_FFA_START" "l = ucast (Arg2 req)"
    "ucast (ucast (Arg1 req) :: UINT16) = tpm2 cfg TPM2_FFA_START_FUNC_QUALIFIER_COMMAND"
    "command_bits cfg (InternalCrb st ! unat l) = (False, False, True)"
    using req by (auto simp: request_of_def start_request_def manage_request_def Let_def split: if_splits prod.splits)
  show "l < NUM_LOCALITIES cfg" "mLocalityStates st ! unat l \<noteq> TPM_LOCALITY_CLOSED" "mActiveLocality st = l"
    "mCurrentState st \<noteq> TPM_STATE_IDLE"
    "mCurrentState st = TPM_STATE_COMPLETE \<longrightarrow> TpmSstIsIdleBypassSupported (sst st)"
    using sp unfolding req by (auto simp: abs_tpm_def command_next_def split: if_splits)
qed

lemma HandleCommand_starts:
  assumes inv: "tpm_inv cfg st" and l: "mActiveLocality st < NUM_LOCALITIES cfg"
    and bits: "command_bits cfg (InternalCrb st ! unat (mActiveLocality st)) = (False, False, True)"
    and p: "mCurrentState st \<noteq> TPM_STATE_IDLE"
      "mCurrentState st = TPM_STATE_COMPLETE \<longrightarrow> TpmSstIsIdleBypassSupported (sst st)"
    and run: "sst_start cfg st = Some (Inr (EFI_SUCCESS, st1))"
  shows "HandleCommand cfg st = Some (Inr (tpm2 cfg TPM2_FFA_SUCCESS_OK, st1))"
proof -
  have len: "\<not> length (InternalCrb st) \<le> unat (mActiveLocality st)"
    using tpm_inv_lengths(1)[OF inv] l by (simp add: word_less_nat_alt)
  show ?thesis
    using inv len bits p run
    by (cases "mCurrentState st")
      (simp_all add: HandleCommand_def Let_def command_bits_def tpm_inv_def ConvertEfiToTpmStatus_def)
qed

lemma sst_start_crb:
  assumes mem: "crb_memory (sst_env cfg) l (length b) view" and ex: "crb_executes (sst_env cfg) l exec view"
    and pr: "crb_prompt (sst_env cfg) l view" and ok: "timeouts_ok (sst_env cfg)" "sizes_ok cfg st"
    and inv: "tpm_inv cfg st" and l: "mActiveLocality st = l" "l < NUM_LOCALITIES cfg"
    and s: "mIsCrbInterface (sst st)" "view (dev (sst st)) = Waiting b" and len: "CrbDataBufferSize cfg \<le> length b"
    and crb: "crb = InternalCrb st ! unat l"
    and c: "c = take (unat (CrbControlCommandSize crb)) (CrbDataBuffer crb) @ drop (unat (CrbControlCommandSize crb)) b"
      "length (exec c) = length c"
  obtains s' where "view (dev s') = Waiting (exec c)"
    "sst_start cfg st = Some (Inr (EFI_SUCCESS, st\<lparr>sst := s', InternalCrb := (InternalCrb st)[unat l :=
       crb\<lparr>CrbDataBuffer := take (unat (CrbControlResponseSize crb)) (exec c) @
                            drop (unat (CrbControlResponseSize crb)) (CrbDataBuffer crb)\<rparr>],
       mCurrentState := TPM_STATE_COMPLETE\<rparr>))"
proof -
  have l': "unat l < unat (NUM_LOCALITIES cfg)" using l(2) by (simp add: word_less_nat_alt)
  obtain st0 st' where "sst_start cfg st = Some (Inr (st0, st'))"
    using sst_start_total[OF inv _ ok] l(1) l' by blast
  then obtain data' s' where run: "TpmSstStart (sst_env cfg) l (CrbControlCommandSize crb) (CrbControlResponseSize crb)
      (CrbDataBuffer crb) (sst st) = Some (Inr (st0, data', s'))"
    by (auto simp: sst_start_def Let_def bind_comp_Inr_iff l(1) crb)
  have "length (CrbDataBuffer crb) \<le> length b" using crb_len[OF inv l'] len crb by simp
  note res = TpmSstStart_crb[OF mem ex s this c run]
  then have "st0 = EFI_SUCCESS" using StartCommand_prompt[OF pr ex] by blast
  with res run show thesis by (intro that[of s']) (simp_all add: sst_start_def Let_def l(1) crb)
qed

text \<open>
  C5. A command makes the round trip. Assume that the abstract machine accepts a start command of
  the owner, the sizes the owner wrote into its CRB fit the data buffer, the timeouts leave room for
  one more yield, the TPM behind the CRB is waiting, with a buffer at least as long as the shared ones that its
  execution keeps at that length, and always finishes within the 90 s the driver polls, and no yield
  fails. Then the service answers success and completes: the TPM has executed
  its own buffer with the first command-size bytes replaced by those of the shared buffer, the first
  response-size bytes of its response are in the shared buffer of the owner, whose other bytes are as
  before, and the buffers of the other localities are untouched.
\<close>

theorem tpm_command_round_trip:
  assumes mem: "crb_memory (sst_env cfg) l (length b) view" and ex: "crb_executes (sst_env cfg) l exec view"
    and pr: "crb_prompt (sst_env cfg) l view" and ok: "timeouts_ok (sst_env cfg)" "sizes_ok cfg st"
    and inv: "tpm_inv cfg st" and codes: "opcodes_distinct cfg"
    and req: "request_of cfg req st = Command l False False True"
    and sp: "spec_next (TpmSstIsIdleBypassSupported (sst st)) (request_of cfg req st) (abs_tpm cfg st) \<noteq> None"
    and s: "mIsCrbInterface (sst st)" "view (dev (sst st)) = Waiting b" and len: "CrbDataBufferSize cfg \<le> length b"
    and crb: "crb = InternalCrb st ! unat l"
    and c: "c = take (unat (CrbControlCommandSize crb)) (CrbDataBuffer crb) @ drop (unat (CrbControlCommandSize crb)) b"
      "length (exec c) = length c"
  shows "\<exists>st'. TpmServiceHandle cfg (Some req) (Some resp) st =
       Some (Inr (Some (resp\<lparr>Arg0 := tpm2 cfg TPM2_FFA_SUCCESS_OK\<rparr>), st')) \<and>
     mCurrentState st' = TPM_STATE_COMPLETE \<and> mActiveLocality st' = l \<and> view (dev (sst st')) = Waiting (exec c) \<and>
     (\<forall>i. CrbDataBuffer (InternalCrb st' ! i) =
        (if i = unat l then take (unat (CrbControlResponseSize crb)) (exec c) @
                            drop (unat (CrbControlResponseSize crb)) (CrbDataBuffer crb)
         else CrbDataBuffer (InternalCrb st ! i)))"
proof -
  note acc = start_accepted[OF req sp]
  have l: "unat l < length (InternalCrb st)" using acc(5) tpm_inv_lengths(1)[OF inv] by (simp add: word_less_nat_alt)
  obtain st1 s' where st1: "st1 = st\<lparr>sst := s', InternalCrb := (InternalCrb st)[unat l :=
       crb\<lparr>CrbDataBuffer := take (unat (CrbControlResponseSize crb)) (exec c) @
                            drop (unat (CrbControlResponseSize crb)) (CrbDataBuffer crb)\<rparr>],
       mCurrentState := TPM_STATE_COMPLETE\<rparr>" and v: "view (dev s') = Waiting (exec c)"
    and run: "sst_start cfg st = Some (Inr (EFI_SUCCESS, st1))"
    using sst_start_crb[OF mem ex pr ok inv acc(7,5) s len crb c] by blast
  have cmd: "HandleCommand cfg st = Some (Inr (tpm2 cfg TPM2_FFA_SUCCESS_OK, st1))"
    using acc run inv by (intro HandleCommand_starts) simp_all
  obtain idle ready start where
    "command_bits cfg (InternalCrb st ! unat (mActiveLocality st)) = (idle, ready, start)" by (rule prod_cases3)
  then have "tpm_inv cfg st1" using HandleCommand_result[OF cmd inv] acc(5,7) by simp
  from CleanInternalCrb_ok[OF this] obtain st' where clean: "CleanInternalCrb cfg st1 = Inr st'"
    "mCurrentState st' = mCurrentState st1" "mActiveLocality st' = mActiveLocality st1" "sst st' = sst st1" by blast
  have "StartHandler cfg req resp st =
      Some (Inr (tpm2 cfg TPM2_FFA_SUCCESS_OK, resp\<lparr>Arg0 := tpm2 cfg TPM2_FFA_SUCCESS_OK\<rparr>, st'))"
    using acc cmd clean(1) by (simp add: StartHandler_def Let_def linorder_not_less[symmetric])
  then have "TpmServiceHandle cfg (Some req) (Some resp) st =
      Some (Inr (Some (resp\<lparr>Arg0 := tpm2 cfg TPM2_FFA_SUCCESS_OK\<rparr>), st'))"
    using acc(1) codes by (auto simp: TpmServiceHandle_def Let_def opcodes_distinct_def)
  moreover have "CrbDataBuffer (InternalCrb st' ! i) =
      (if i = unat l then take (unat (CrbControlResponseSize crb)) (exec c) @
                          drop (unat (CrbControlResponseSize crb)) (CrbDataBuffer crb)
       else CrbDataBuffer (InternalCrb st ! i))" for i
    using l by (simp add: CleanInternalCrb_data[OF clean(1)] st1)
  ultimately show ?thesis using clean v acc(7) by (intro exI[of _ st']) (simp add: st1)
qed

text \<open>A TPM that reverses its buffer, and reads as busy once before it has finished.\<close>

type_synonym crb_world = "crb_view \<times> bool"

definition ex_index :: "UINT64 \<Rightarrow> nat" where
  "ex_index a = unat (a - 0x60120080)"

fun ex_crb_read8 :: "UINT64 \<Rightarrow> crb_world \<Rightarrow> UINT8 \<times> crb_world" where
  "ex_crb_read8 a (Waiting b, slow) = (if ex_index a < length b then b ! ex_index a else 0xFF, Waiting b, slow)"
| "ex_crb_read8 a (Executing c, slow) = (0xFF, Executing c, slow)"

fun ex_crb_write8 :: "UINT64 \<Rightarrow> UINT8 \<Rightarrow> crb_world \<Rightarrow> crb_world" where
  "ex_crb_write8 a x (Waiting b, slow) = (Waiting (b[ex_index a := x]), slow)"
| "ex_crb_write8 a x (Executing c, slow) = (Executing c, slow)"

fun ex_crb_read32 :: "UINT64 \<Rightarrow> crb_world \<Rightarrow> UINT32 \<times> crb_world" where
  "ex_crb_read32 a (Waiting b, slow) = (0, Waiting b, slow)"
| "ex_crb_read32 a (Executing c, True) = (1, Executing c, False)"
| "ex_crb_read32 a (Executing c, False) = (0, Waiting (rev c), False)"

fun ex_crb_write32 :: "UINT64 \<Rightarrow> UINT32 \<Rightarrow> crb_world \<Rightarrow> crb_world" where
  "ex_crb_write32 a x (Waiting b, slow) = (if a = 0x6012004C \<and> x = 1 then (Executing b, True) else (Waiting b, slow))"
| "ex_crb_write32 a x (Executing c, slow) = (Executing c, slow)"

definition ex_crb_env :: "crb_world tpm_env" where
  "ex_crb_env = \<lparr> MmioRead8 = ex_crb_read8, MmioRead32 = ex_crb_read32,
     MmioWrite8 = ex_crb_write8, MmioWrite32 = ex_crb_write32, MicroSecondDelay = (\<lambda>_ w. w),
     ArmFfaLibYield = (\<lambda>_ w. (EFI_SUCCESS, w)), PcdTpmBaseAddress = 0x60120000,
     ptp_offset = ex_offset, ptp = ex_ptp \<rparr>"

definition ex_crb_cfg :: "crb_world tpm_cfg" where
  "ex_crb_cfg = \<lparr> sst_env = ex_crb_env, PcdTpmInternalBaseAddress = 0x100000000, NUM_LOCALITIES = 5,
     CrbDataBufferSize = 8,
     interface_id = (\<lambda>t v l c. t OR push_bit 4 v OR push_bit 8 l OR push_bit 14 c), tpm2 = ex_tpm2 \<rparr>"

definition ex_crb_state :: "crb_world tpm_state" where
  "ex_crb_state = \<lparr> mCurrentState = TPM_STATE_READY, mActiveLocality = 0, mInterfaceIdDefault = 0,
     mLocalityStates = (replicate 5 TPM_LOCALITY_CLOSED)[0 := TPM_LOCALITY_OPEN],
     InternalCrb = (replicate 5 (ex_crb\<lparr>CrbControlResponseSize := 8\<rparr>))[0 := ex_crb\<lparr>CrbControlStart := 1, CrbControlCommandSize := 4,
        CrbControlResponseSize := 8, CrbDataBuffer := [1, 2, 3, 4, 0, 0, 0, 0]\<rparr>],
     sst = \<lparr> mIsCrbInterface = True, mIsIdleBypassSupported = False, dev = (Waiting [9, 9, 9, 9, 9, 9, 9, 9], False) \<rparr> \<rparr>"

lemma ex_crb_read_view:
  "fst (snd (ex_crb_read32 a (Executing c, slow))) =
     (if fst (ex_crb_read32 a (Executing c, slow)) AND 1 = 0 then Waiting (rev c) else Executing c)"
  by (cases slow) simp_all

lemma ex_crb_device:
  "crb_memory ex_crb_env 0 8 fst" "crb_executes ex_crb_env 0 rev fst" "crb_prompt ex_crb_env 0 fst"
proof -
  show "crb_executes ex_crb_env 0 rev fst"
    by (auto simp: crb_executes_def ex_crb_env_def reg_addr_def LOCALITY_OFFSET_def Let_def ex_crb_read_view)
  have "ex_index (0x60120080 + of_nat i) = i" if "i < 8" for i
    using that by (simp add: ex_index_def unat_of_nat take_bit_eq_mod)
  then show "crb_memory ex_crb_env 0 8 fst"
    by (auto simp: crb_memory_def crb_data_def ex_crb_env_def reg_addr_def LOCALITY_OFFSET_def)
  have poll: "fst (poll_at ex_crb_env True a 1 (Executing c, slow)) = 0" for a c slow
    by (cases slow) (simp_all add: poll_at_def poll_read_def ex_crb_env_def)
  have le: "1 \<le> max_yields PTP_TIMEOUT_MAX" by (simp add: max_yields_def PTP_TIMEOUT_MAX_def)
  show "crb_prompt ex_crb_env 0 fst"
    unfolding crb_prompt_def
  proof (intro conjI allI impI)
    show "\<not> EFI_ERROR (fst (ArmFfaLibYield ex_crb_env t w))" for t w by (simp add: ex_crb_env_def)
    fix w :: crb_world and c
    assume "fst w = Executing c"
    then have "w = (Executing c, snd w)" by (simp add: prod_eq_iff)
    then have "fst (poll_at ex_crb_env True a 1 w) = 0" for a using poll by metis
    with le show "\<exists>k \<le> max_yields PTP_TIMEOUT_MAX.
        fst (poll_at ex_crb_env True (reg_addr ex_crb_env 0 Crb_CrbControlStart) k w) AND
          ptp ex_crb_env PTP_CRB_CONTROL_START = 0"
      by (intro exI[of _ 1]) simp
  qed
qed

theorem tpm_command_round_trip_witness:
  "\<exists>st'. TpmServiceHandle ex_crb_cfg (Some (ex_start 0 0)) (Some msg_zero) ex_crb_state =
       Some (Inr (Some (msg_zero\<lparr>Arg0 := tpm2 ex_crb_cfg TPM2_FFA_SUCCESS_OK\<rparr>), st')) \<and>
     mCurrentState st' = TPM_STATE_COMPLETE \<and> CrbDataBuffer (InternalCrb st' ! 0) = [9, 9, 9, 9, 4, 3, 2, 1]"
proof -
  let ?crb = "InternalCrb ex_crb_state ! unat (0 :: UINT8)"
  let ?c = "[1, 2, 3, 4, 9, 9, 9, 9 :: UINT8]"
  note r = tpm_command_round_trip[where cfg = ex_crb_cfg and l = 0 and view = fst and exec = rev and
      st = ex_crb_state and b = "replicate 8 9" and req = "ex_start 0 0" and crb = ?crb and c = ?c and resp = msg_zero]
  have d: "crb_memory (sst_env ex_crb_cfg) 0 (length (replicate 8 (9 :: UINT8))) fst"
    "crb_executes (sst_env ex_crb_cfg) 0 rev fst" "crb_prompt (sst_env ex_crb_cfg) 0 fst"
    using ex_crb_device by (simp_all add: ex_crb_cfg_def)
  have t: "timeouts_ok (sst_env ex_crb_cfg)"
    by (simp add: timeouts_ok_def timeout_ok_def ex_crb_cfg_def ex_crb_env_def)
  have q: "request_of ex_crb_cfg (ex_start 0 0) ex_crb_state = Command 0 False False True" by code_simp
  have sp: "spec_next (TpmSstIsIdleBypassSupported (sst ex_crb_state)) (request_of ex_crb_cfg (ex_start 0 0) ex_crb_state)
      (abs_tpm ex_crb_cfg ex_crb_state) \<noteq> None"
    unfolding q by (simp add: abs_tpm_def command_next_def ex_crb_state_def ex_crb_cfg_def NO_ACTIVE_LOCALITY_def)
  have h: "sizes_ok ex_crb_cfg ex_crb_state" "tpm_inv ex_crb_cfg ex_crb_state" "opcodes_distinct ex_crb_cfg"
    by code_simp+
  have rest: "mIsCrbInterface (sst ex_crb_state)" "fst (dev (sst ex_crb_state)) = Waiting (replicate 8 9)"
    "CrbDataBufferSize ex_crb_cfg \<le> length (replicate 8 (9 :: UINT8))"
    "?c = take (unat (CrbControlCommandSize ?crb)) (CrbDataBuffer ?crb) @
       drop (unat (CrbControlCommandSize ?crb)) (replicate 8 9)"
    by code_simp+
  from r[OF d t h(1,2,3) q sp rest(1,2,3) refl rest(4)] obtain st' where
    "TpmServiceHandle ex_crb_cfg (Some (ex_start 0 0)) (Some msg_zero) ex_crb_state =
       Some (Inr (Some (msg_zero\<lparr>Arg0 := tpm2 ex_crb_cfg TPM2_FFA_SUCCESS_OK\<rparr>), st'))"
    "mCurrentState st' = TPM_STATE_COMPLETE"
    "CrbDataBuffer (InternalCrb st' ! 0) = take (unat (CrbControlResponseSize ?crb)) (rev ?c) @
       drop (unat (CrbControlResponseSize ?crb)) (CrbDataBuffer ?crb)" by auto
  moreover have "take (unat (CrbControlResponseSize ?crb)) (rev ?c) @
       drop (unat (CrbControlResponseSize ?crb)) (CrbDataBuffer ?crb) = [9, 9, 9, 9, 4, 3, 2, 1]" by code_simp
  ultimately show ?thesis by auto
qed

end
