(* ===== verification/AllocatorContract.thy ===== *)
theory AllocatorContract
  imports Prelude
begin

text \<open>
  The contract between an allocator and its clients, shared by the page allocator and the pool
  allocator of \<^verbatim>\<open>SecurePartitionMemoryAllocationLib\<close>: an allocator keeps a set of free units
  (pages or bytes), an allocation takes the extent of a block out of the set, a release puts
  it back. What a client may conclude for every sequence of requests is proved once here.
\<close>

section \<open>Clients\<close>

text \<open>
  A client owns blocks: a request that succeeds adds a block, a release hands an owned block
  back. The operations of the allocator are arguments.
\<close>

datatype 'r client_op = Alloc 'r | Release nat

type_synonym ('s, 'b) client = "'s \<times> 'b list"

fun client_step :: "('r \<Rightarrow> 's \<Rightarrow> (EFI_STATUS \<times> 'a \<times> 's) result) \<Rightarrow>
    ('b \<Rightarrow> 's \<Rightarrow> (EFI_STATUS \<times> 's) result) \<Rightarrow> ('r \<Rightarrow> 'a \<Rightarrow> 'b) \<Rightarrow>
    'r client_op \<Rightarrow> ('s, 'b) client \<Rightarrow> ('s, 'b) client result" where
  "client_step alloc release block (Alloc r) (s, own) =
     bind_result (alloc r s)
       (\<lambda>(st, m, s'). Inr (s', if st = EFI_SUCCESS then block r m # own else own))"
| "client_step alloc release block (Release i) (s, own) =
     (if i < length own
      then bind_result (release (own ! i) s)
             (\<lambda>(st, s'). Inr (s', if st = EFI_SUCCESS then take i own @ drop (Suc i) own else own))
      else Inr (s, own))"

fun client_run where
  "client_run alloc release block [] c = Inr c"
| "client_run alloc release block (p # ps) c =
     bind_result (client_step alloc release block p c) (client_run alloc release block ps)"

definition requests_ok :: "('r \<Rightarrow> bool) \<Rightarrow> 'r client_op list \<Rightarrow> bool" where
  "requests_ok rok = list_all (\<lambda>p. case p of Alloc r \<Rightarrow> rok r | Release i \<Rightarrow> True)"

text \<open>The units a client owns, and blocks that do not overlap.\<close>

definition owned :: "('b \<Rightarrow> nat set) \<Rightarrow> 'b list \<Rightarrow> nat set" where
  "owned extent own = (\<Union>b \<in> set own. extent b)"

fun disjoint_blocks :: "('b \<Rightarrow> nat set) \<Rightarrow> 'b list \<Rightarrow> bool" where
  "disjoint_blocks extent [] \<longleftrightarrow> True"
| "disjoint_blocks extent (b # bs) \<longleftrightarrow> extent b \<inter> owned extent bs = {} \<and> disjoint_blocks extent bs"

lemma owned_simps [simp]:
  "owned extent [] = {}" "owned extent (b # bs) = extent b \<union> owned extent bs"
  "owned extent (xs @ ys) = owned extent xs \<union> owned extent ys"
  by (auto simp: owned_def)

lemma owned_member: "b \<in> set own \<Longrightarrow> extent b \<subseteq> owned extent own"
  by (auto simp: owned_def)

lemma disjoint_blocks_append:
  "disjoint_blocks extent (xs @ ys) \<longleftrightarrow>
     disjoint_blocks extent xs \<and> disjoint_blocks extent ys \<and> owned extent xs \<inter> owned extent ys = {}"
  by (induction xs) auto

lemma disjoint_blocks_remove:
  assumes d: "disjoint_blocks extent own" and i: "i < length own"
  shows "disjoint_blocks extent (take i own @ drop (Suc i) own)"
    and "owned extent (take i own @ drop (Suc i) own) = owned extent own - extent (own ! i)"
    and "extent (own ! i) \<subseteq> owned extent own"
proof -
  have s: "own = take i own @ own ! i # drop (Suc i) own" using i by (rule id_take_nth_drop)
  have d': "disjoint_blocks extent (take i own @ own ! i # drop (Suc i) own)" using d s by simp
  have o: "owned extent own = owned extent (take i own @ own ! i # drop (Suc i) own)" using s by simp
  from d' show "disjoint_blocks extent (take i own @ drop (Suc i) own)"
    by (auto simp: disjoint_blocks_append)
  from d' show "owned extent (take i own @ drop (Suc i) own) = owned extent own - extent (own ! i)"
    unfolding o by (auto simp: disjoint_blocks_append)
  show "extent (own ! i) \<subseteq> owned extent own" unfolding o by auto
qed

text \<open>A client all of whose blocks the allocator holds for it, disjoint from each other.\<close>

definition client_ok :: "('s \<Rightarrow> bool) \<Rightarrow> ('s \<Rightarrow> 'b \<Rightarrow> bool) \<Rightarrow> ('s \<Rightarrow> nat set) \<Rightarrow> ('b \<Rightarrow> nat set) \<Rightarrow>
    ('s, 'b) client \<Rightarrow> bool" where
  "client_ok ok held units extent c \<longleftrightarrow> ok (fst c) \<and> list_all (held (fst c)) (snd c) \<and>
     disjoint_blocks extent (snd c) \<and> owned extent (snd c) \<inter> units (fst c) = {}"

definition all_units :: "('s \<Rightarrow> nat set) \<Rightarrow> ('b \<Rightarrow> nat set) \<Rightarrow> ('s, 'b) client \<Rightarrow> nat set" where
  "all_units units extent c = units (fst c) \<union> owned extent (snd c)"

section \<open>The contract\<close>

text \<open>
  \<open>held s b\<close> says that block \<open>b\<close> is allocated in \<open>s\<close> and may be released. A request takes the
  extent of a block out of the free units or changes nothing; blocks held before stay held.
  The release of a held block succeeds and leaves the other held blocks held.
\<close>

locale allocator =
  fixes alloc :: "'r \<Rightarrow> 's \<Rightarrow> (EFI_STATUS \<times> 'a \<times> 's) result"
    and release :: "'b \<Rightarrow> 's \<Rightarrow> (EFI_STATUS \<times> 's) result"
    and block :: "'r \<Rightarrow> 'a \<Rightarrow> 'b"
    and request_ok :: "'r \<Rightarrow> bool"
    and ok :: "'s \<Rightarrow> bool"
    and held :: "'s \<Rightarrow> 'b \<Rightarrow> bool"
    and units :: "'s \<Rightarrow> nat set"
    and extent :: "'b \<Rightarrow> nat set"
  assumes alloc_law: "ok s \<Longrightarrow> request_ok r \<Longrightarrow> \<exists>st m s'. alloc r s = Inr (st, m, s') \<and> ok s' \<and>
      (if st = EFI_SUCCESS
       then extent (block r m) \<subseteq> units s \<and> units s' = units s - extent (block r m) \<and>
            held s' (block r m) \<and> (\<forall>b. held s b \<longrightarrow> held s' b)
       else s' = s)"
    and release_law: "ok s \<Longrightarrow> held s b \<Longrightarrow> \<exists>s'. release b s = Inr (EFI_SUCCESS, s') \<and> ok s' \<and>
      units s' = units s \<union> extent b \<and>
      (\<forall>b'. held s b' \<longrightarrow> extent b' \<inter> extent b = {} \<longrightarrow> held s' b')"
    and held_law: "ok s \<Longrightarrow> held s b \<Longrightarrow> extent b \<inter> units s = {} \<and> extent b \<noteq> {}"
begin

lemma alloc_step_ok:
  assumes cok: "client_ok ok held units extent (s, own)" and r: "request_ok r"
  shows "\<exists>c'. client_step alloc release block (Alloc r) (s, own) = Inr c' \<and>
     client_ok ok held units extent c' \<and> all_units units extent c' = all_units units extent (s, own)"
proof -
  have w: "ok s" using cok by (simp add: client_ok_def)
  from alloc_law[OF w r] obtain st m s' where a: "alloc r s = Inr (st, m, s')" "ok s'"
    and l: "if st = EFI_SUCCESS
       then extent (block r m) \<subseteq> units s \<and> units s' = units s - extent (block r m) \<and>
            held s' (block r m) \<and> (\<forall>b. held s b \<longrightarrow> held s' b)
       else s' = s" by blast
  show ?thesis
  proof (cases "st = EFI_SUCCESS")
    case True
    with l have l': "extent (block r m) \<subseteq> units s" "units s' = units s - extent (block r m)"
      "held s' (block r m)" "\<forall>b. held s b \<longrightarrow> held s' b" by auto
    have "list_all (held s') own" using cok l'(4) by (auto simp: client_ok_def list_all_iff)
    with True a l' cok show ?thesis by (auto simp: client_ok_def all_units_def)
  next
    case False
    with a l cok show ?thesis by (auto simp: client_ok_def all_units_def)
  qed
qed

lemma release_step_ok:
  assumes cok: "client_ok ok held units extent (s, own)" and i: "i < length own"
  shows "\<exists>s'. release (own ! i) s = Inr (EFI_SUCCESS, s') \<and>
     client_ok ok held units extent (s', take i own @ drop (Suc i) own) \<and>
     all_units units extent (s', take i own @ drop (Suc i) own) = all_units units extent (s, own)"
proof -
  have w: "ok s" "disjoint_blocks extent own" "owned extent own \<inter> units s = {}" "list_all (held s) own"
    using cok by (auto simp: client_ok_def)
  note rm = disjoint_blocks_remove[OF w(2) i]
  have h: "held s (own ! i)" using w(4) i by (simp add: list_all_length)
  from release_law[OF w(1) h] obtain s' where s': "release (own ! i) s = Inr (EFI_SUCCESS, s')" "ok s'"
    "units s' = units s \<union> extent (own ! i)"
    "\<And>b'. held s b' \<Longrightarrow> extent b' \<inter> extent (own ! i) = {} \<Longrightarrow> held s' b'" by auto
  have "held s' b" if b: "b \<in> set (take i own @ drop (Suc i) own)" for b
  proof (rule s'(4))
    show "held s b" using b w(4) by (auto simp: list_all_iff dest: in_set_takeD in_set_dropD)
    show "extent b \<inter> extent (own ! i) = {}" using owned_member[OF b, of extent] rm(2) by auto
  qed
  then have "list_all (held s') (take i own @ drop (Suc i) own)" by (simp only: list_all_iff) blast
  then show ?thesis using s' rm w(3) by (auto simp: client_ok_def all_units_def)
qed

lemma step_ok:
  assumes "client_ok ok held units extent c" and "case p of Alloc r \<Rightarrow> request_ok r | Release i \<Rightarrow> True"
  shows "\<exists>c'. client_step alloc release block p c = Inr c' \<and> client_ok ok held units extent c' \<and>
     all_units units extent c' = all_units units extent c"
proof (cases p)
  case (Alloc r)
  with assms alloc_step_ok show ?thesis by (cases c) auto
next
  case (Release i)
  obtain s own where c: "c = (s, own)" by (cases c)
  show ?thesis
  proof (cases "i < length own")
    case True
    from release_step_ok[OF assms(1)[unfolded c] True] Release c True show ?thesis by auto
  qed (use Release c assms in simp)
qed

text \<open>Every sequence of requests runs to its end; no unit is lost, and none is given out twice.\<close>

lemma run_ok:
  assumes "client_ok ok held units extent c" and "requests_ok request_ok ps"
  shows "\<exists>c'. client_run alloc release block ps c = Inr c' \<and> client_ok ok held units extent c' \<and>
     all_units units extent c' = all_units units extent c"
  using assms
proof (induction ps arbitrary: c)
  case (Cons p ps)
  from step_ok[OF Cons.prems(1), of p] Cons.prems(2) obtain c1 where
    c1: "client_step alloc release block p c = Inr c1" "client_ok ok held units extent c1"
    "all_units units extent c1 = all_units units extent c" by (auto simp: requests_ok_def)
  from Cons.IH[OF c1(2)] Cons.prems(2) c1 show ?case by (auto simp: requests_ok_def)
qed simp

lemma alloc_release:
  assumes "ok s" and "request_ok r" and "alloc r s = Inr (EFI_SUCCESS, m, s')"
  shows "\<exists>s''. release (block r m) s' = Inr (EFI_SUCCESS, s'') \<and> ok s'' \<and> units s'' = units s"
proof -
  from alloc_law[OF assms(1,2)] assms(3) have l: "ok s'" "held s' (block r m)"
    "extent (block r m) \<subseteq> units s" "units s' = units s - extent (block r m)" by auto
  from release_law[OF l(1,2)] l(3,4) show ?thesis by auto
qed

end

text \<open>An allocator that also detects the release of a block that overlaps free units.\<close>

locale checked_allocator = allocator +
  fixes well_formed :: "'b \<Rightarrow> bool"
  assumes release_refused: "ok s \<Longrightarrow> well_formed b \<Longrightarrow> extent b \<inter> units s \<noteq> {} \<Longrightarrow>
      release b s = Inr (EFI_INVALID_PARAMETER, s)"
    and held_iff: "ok s \<Longrightarrow> held s b \<longleftrightarrow> well_formed b \<and> extent b \<inter> units s = {}"
begin

lemma double_release:
  assumes "ok s" and "well_formed b" and "release b s = Inr (EFI_SUCCESS, s')"
  shows "release b s' = Inr (EFI_INVALID_PARAMETER, s')"
proof -
  have d: "held s b" using release_refused[OF assms(1,2)] assms(2,3) held_iff[OF assms(1)] by force
  from release_law[OF assms(1) d] assms(3) have "ok s'" "units s' = units s \<union> extent b" by auto
  with held_law[OF assms(1) d] show ?thesis using release_refused[OF _ assms(2)] by auto
qed

lemma release_cases:
  assumes "ok s" and "well_formed b"
  shows "if extent b \<inter> units s = {}
     then \<exists>s'. release b s = Inr (EFI_SUCCESS, s') \<and> ok s' \<and> units s' = units s \<union> extent b \<and>
            release b s' = Inr (EFI_INVALID_PARAMETER, s')
     else release b s = Inr (EFI_INVALID_PARAMETER, s)"
  using release_law[OF assms(1), of b] release_refused[OF assms] double_release[OF assms] assms
  by (auto simp: held_iff[OF assms(1)])

end

end
