(* ===== verification/PageAlloc.thy ===== *)
theory PageAlloc
  imports Prelude
begin

text \<open>
  \<^verbatim>\<open>Page.c\<close> of \<^verbatim>\<open>SecurePartitionMemoryAllocationLib\<close>: the page allocator. The code threads
  a doubly linked list through the free memory itself: a \<^verbatim>\<open>FREE_PAGE_LIST\<close> node stands at the
  start of every free range and stores its length. The model keeps the list
  \<^verbatim>\<open>mMmMemoryMap\<close> in \<^verbatim>\<open>ForwardLink\<close> order as pairs of the node's address and its number of
  pages; linking a second node at an address that is already a node is the fault
  \<open>ListCorrupted\<close>. All arithmetic is that of 64-bit words.
\<close>

section \<open>Definitions\<close>

datatype EFI_ALLOCATE_TYPE = AllocateAnyPages | AllocateMaxAddress | AllocateAddress | MaxAllocateType

datatype EFI_MEMORY_TYPE = EfiRuntimeServicesCode | EfiRuntimeServicesData | EfiConventionalMemory
  | EfiOtherMemoryType nat

type_synonym free_node = "UINT64 \<times> UINT64"
type_synonym memory_map = "free_node list"

definition EFI_PAGE_SHIFT :: nat where "EFI_PAGE_SHIFT = 12"
definition EFI_PAGE_MASK :: UINT64 where "EFI_PAGE_MASK = 0xFFF"
definition EFI_PAGES_TO_SIZE :: "UINT64 \<Rightarrow> UINT64" where "EFI_PAGES_TO_SIZE n = push_bit EFI_PAGE_SHIFT n"
definition TRUNCATE_TO_PAGES :: "UINT64 \<Rightarrow> UINT64" where "TRUNCATE_TO_PAGES a = drop_bit EFI_PAGE_SHIFT a"

text \<open>
  The nodes that replace the node, and the address returned. With \<^verbatim>\<open>Top\<close> zero the split-off
  node would be linked in at the address of the node itself.
\<close>

definition InternalAllocPagesOnOneNode ::
  "free_node \<Rightarrow> UINTN \<Rightarrow> UINTN \<Rightarrow> (free_node list \<times> UINTN) result" where
  "InternalAllocPagesOnOneNode Pages NumberOfPages MaxAddress =
     (let (a, n) = Pages;
          Top0 = TRUNCATE_TO_PAGES (MaxAddress + 1 - a);
          Top = (if Top0 > n then n else Top0);
          Bottom = Top - NumberOfPages
      in if Top < n \<and> EFI_PAGES_TO_SIZE Top = 0 then Inl ListCorrupted
         else Inr ((if Bottom > 0 then [(a, Bottom)] else []) @
                   (if Top < n then [(a + EFI_PAGES_TO_SIZE Top, n - Top)] else []),
                   a + EFI_PAGES_TO_SIZE Bottom))"

text \<open>The last index that satisfies a predicate: a search along \<^verbatim>\<open>BackLink\<close>.\<close>

definition last_index :: "(nat \<Rightarrow> bool) \<Rightarrow> nat \<Rightarrow> nat option" where
  "last_index P n = find P (rev [0..<n])"

definition replace_node :: "memory_map \<Rightarrow> nat \<Rightarrow> free_node list \<Rightarrow> memory_map" where
  "replace_node fl i new = take i fl @ new @ drop (Suc i) fl"

definition fits_below :: "UINTN \<Rightarrow> UINTN \<Rightarrow> free_node \<Rightarrow> bool" where
  "fits_below NumberOfPages MaxAddress node \<longleftrightarrow>
     snd node \<ge> NumberOfPages \<and> fst node + EFI_PAGES_TO_SIZE NumberOfPages - 1 \<le> MaxAddress"

definition InternalAllocMaxAddress :: "memory_map \<Rightarrow> UINTN \<Rightarrow> UINTN \<Rightarrow> (UINTN \<times> memory_map) result" where
  "InternalAllocMaxAddress fl NumberOfPages MaxAddress =
     (case last_index (\<lambda>i. fits_below NumberOfPages MaxAddress (fl ! i)) (length fl) of
        None \<Rightarrow> Inr (- 1, fl)
      | Some i \<Rightarrow>
          bind_result (InternalAllocPagesOnOneNode (fl ! i) NumberOfPages MaxAddress)
            (\<lambda>(new, addr). Inr (addr, replace_node fl i new)))"

definition InternalAllocAddress :: "memory_map \<Rightarrow> UINTN \<Rightarrow> UINTN \<Rightarrow> (UINTN \<times> memory_map) result" where
  "InternalAllocAddress fl NumberOfPages Address =
     (if Address AND EFI_PAGE_MASK \<noteq> 0 then Inr (NOT Address, fl)
      else let EndAddress = Address + EFI_PAGES_TO_SIZE NumberOfPages
           in case last_index (\<lambda>i. fst (fl ! i) \<le> Address) (length fl) of
                None \<Rightarrow> Inr (NOT Address, fl)
              | Some i \<Rightarrow>
                  if fst (fl ! i) + EFI_PAGES_TO_SIZE (snd (fl ! i)) < EndAddress
                  then Inr (NOT Address, fl)
                  else bind_result (InternalAllocPagesOnOneNode (fl ! i) NumberOfPages EndAddress)
                         (\<lambda>(new, addr). Inr (addr, replace_node fl i new)))"

definition MmInternalAllocatePages ::
  "EFI_ALLOCATE_TYPE \<Rightarrow> EFI_MEMORY_TYPE \<Rightarrow> UINTN \<Rightarrow> UINT64 \<Rightarrow> memory_map \<Rightarrow>
   (EFI_STATUS \<times> UINT64 \<times> memory_map) result" where
  "MmInternalAllocatePages Type MemoryType NumberOfPages Memory fl =
     (if MemoryType \<noteq> EfiRuntimeServicesCode \<and> MemoryType \<noteq> EfiRuntimeServicesData
      then Inr (EFI_INVALID_PARAMETER, Memory, fl)
      else if NumberOfPages > TRUNCATE_TO_PAGES (- 1) + 1 then Inr (EFI_OUT_OF_RESOURCES, Memory, fl)
      else (case Type of
              MaxAllocateType \<Rightarrow> Inr (EFI_INVALID_PARAMETER, Memory, fl)
            | AllocateAddress \<Rightarrow>
                bind_result (InternalAllocAddress fl NumberOfPages Memory)
                  (\<lambda>(m, fl'). Inr (if m \<noteq> Memory then EFI_NOT_FOUND else EFI_SUCCESS, m, fl'))
            | _ \<Rightarrow>
                bind_result (InternalAllocMaxAddress fl NumberOfPages
                               (if Type = AllocateAnyPages then - 1 else Memory))
                  (\<lambda>(m, fl'). Inr (if m = - 1 then EFI_OUT_OF_RESOURCES else EFI_SUCCESS, m, fl'))))"

definition MmAllocatePages where
  "MmAllocatePages = MmInternalAllocatePages"

text \<open>Merge of node \<open>i\<close> with its successor: the new list and the index of the node returned.\<close>

definition InternalMergeNodes :: "memory_map \<Rightarrow> nat \<Rightarrow> (nat \<times> memory_map) result" where
  "InternalMergeNodes fl i =
     (let (a, n) = fl ! i; (b, k) = fl ! Suc i; gap = TRUNCATE_TO_PAGES (b - a)
      in ASSERT (gap \<ge> n)
           (Inr (if gap = n then (i, replace_node (fl[i := (a, n + k)]) (Suc i) [])
                 else (Suc i, fl))))"

definition MmInternalFreePages :: "UINT64 \<Rightarrow> UINTN \<Rightarrow> memory_map \<Rightarrow> (EFI_STATUS \<times> memory_map) result" where
  "MmInternalFreePages Memory NumberOfPages fl =
     (if Memory AND EFI_PAGE_MASK \<noteq> 0 then Inr (EFI_INVALID_PARAMETER, fl)
      else let node = (case first_index (\<lambda>i. Memory < fst (fl ! i)) (length fl) of
                         Some i \<Rightarrow> i | None \<Rightarrow> length fl)
           in if node < length fl \<and> Memory + EFI_PAGES_TO_SIZE NumberOfPages > fst (fl ! node)
              then Inr (EFI_INVALID_PARAMETER, fl)
              else if node > 0 \<and> fst (fl ! (node - 1)) + EFI_PAGES_TO_SIZE (snd (fl ! (node - 1))) > Memory
              then Inr (EFI_INVALID_PARAMETER, fl)
              else if Memory \<in> fst ` set fl then Inl ListCorrupted
              else let fl1 = take node fl @ (Memory, NumberOfPages) # drop node fl
                   in bind_result (if node > 0 then InternalMergeNodes fl1 (node - 1) else Inr (node, fl1))
                        (\<lambda>(p, fl2).
                           if node < length fl
                           then bind_result (InternalMergeNodes fl2 p) (\<lambda>(_, fl3). Inr (EFI_SUCCESS, fl3))
                           else Inr (EFI_SUCCESS, fl2)))"

definition MmFreePages where
  "MmFreePages = MmInternalFreePages"

text \<open>The attribute bits of the MMRAM descriptor, from a header outside the repository.\<close>

definition MmAddMemoryRegion ::
  "UINT64 \<Rightarrow> UINT64 \<Rightarrow> UINT64 \<Rightarrow> EFI_MEMORY_TYPE \<Rightarrow> UINT64 \<Rightarrow> memory_map \<Rightarrow> memory_map result" where
  "MmAddMemoryRegion skip_mask MemBase MemLength Type Attributes fl =
     (if Attributes AND skip_mask \<noteq> 0 then Inr fl
      else let AlignedMemBase = (MemBase + EFI_PAGE_MASK) AND NOT EFI_PAGE_MASK;
               MemLength' = MemLength - (AlignedMemBase - MemBase)
           in bind_result (MmFreePages AlignedMemBase (TRUNCATE_TO_PAGES MemLength') fl)
                (\<lambda>(_, fl'). Inr fl'))"

section \<open>Words as addresses\<close>

lemma page_consts [simp]: "EFI_PAGE_SHIFT = 12"
  by (simp add: EFI_PAGE_SHIFT_def)

lemma unat_pages_to_size:
  assumes "unat n * 4096 < 2 ^ 64"
  shows "unat (EFI_PAGES_TO_SIZE n) = unat n * 4096"
  using assms by (simp add: EFI_PAGES_TO_SIZE_def push_bit_eq_mult unat_word_ariths(2))

lemma unat_truncate: "unat (TRUNCATE_TO_PAGES a) = unat a div 4096"
  by (simp add: TRUNCATE_TO_PAGES_def drop_bit_eq_div unat_div_distrib)

lemma page_aligned_iff: "a AND EFI_PAGE_MASK = 0 \<longleftrightarrow> unat a mod 4096 = 0"
proof -
  have m: "EFI_PAGE_MASK = mask 12" by (simp add: EFI_PAGE_MASK_def mask_eq_exp_minus_1)
  have "unat (a AND EFI_PAGE_MASK) = unat a mod 4096"
    unfolding m take_bit_eq_mask[symmetric] by (subst unsigned_take_bit_eq) (simp add: take_bit_eq_mod)
  then show ?thesis by (metis unat_0 word_unat_eq_iff)
qed

lemma unat_add_small: "unat a + unat b < 2 ^ 64 \<Longrightarrow> unat (a + b :: UINT64) = unat a + unat b"
  by (simp add: unat_word_ariths)

lemma unat_sub_small: "b \<le> a \<Longrightarrow> unat (a - b :: UINT64) = unat a - unat b"
  by (rule unat_sub)

lemma last_index_SomeD:
  assumes "last_index P n = Some i"
  shows "i < n" "P i" "\<And>j. i < j \<Longrightarrow> j < n \<Longrightarrow> \<not> P j"
proof -
  from assms obtain k where k: "k < length (rev [0..<n])" "P (rev [0..<n] ! k)" "i = rev [0..<n] ! k"
    "\<And>j. j < k \<Longrightarrow> \<not> P (rev [0..<n] ! j)" by (auto simp: last_index_def find_Some_iff)
  have i: "i = n - Suc k" and kn: "k < n" using k by (simp_all add: rev_nth)
  show "i < n" "P i" using i kn k by simp_all
  show "\<not> P j" if "i < j" "j < n" for j
  proof -
    have "n - Suc j < k" and "rev [0..<n] ! (n - Suc j) = j" using that i kn by (simp_all add: rev_nth)
    with k(4)[of "n - Suc j"] show ?thesis by simp
  qed
qed

lemma last_index_None_iff: "last_index P n = None \<longleftrightarrow> (\<forall>j<n. \<not> P j)"
  by (auto simp: last_index_def find_None_iff)

section \<open>Well-formed free lists and the pages they hold\<close>

definition node_end :: "free_node \<Rightarrow> nat" where
  "node_end x = unat (fst x) + unat (snd x) * 4096"

definition wf_node :: "free_node \<Rightarrow> bool" where
  "wf_node x \<longleftrightarrow> unat (fst x) mod 4096 = 0 \<and> 0 < unat (fst x) \<and> 0 < unat (snd x) \<and> node_end x < 2 ^ 64"

definition wf_map :: "memory_map \<Rightarrow> bool" where
  "wf_map fl \<longleftrightarrow> list_all wf_node fl \<and> sorted_wrt (\<lambda>x y. node_end x \<le> unat (fst y)) fl"

text \<open>The abstraction: the set of page numbers that are free.\<close>

definition page_range :: "free_node \<Rightarrow> nat set" where
  "page_range x = {unat (fst x) div 4096 ..< unat (fst x) div 4096 + unat (snd x)}"

definition free_pages :: "memory_map \<Rightarrow> nat set" where
  "free_pages fl = (\<Union>x \<in> set fl. page_range x)"

lemma page_range_iff:
  assumes "wf_node x"
  shows "p \<in> page_range x \<longleftrightarrow> unat (fst x) \<le> p * 4096 \<and> p * 4096 < node_end x"
  using assms unfolding page_range_def wf_node_def node_end_def by auto

lemma free_pages_simps [simp]:
  "free_pages [] = {}"
  "free_pages (x # xs) = page_range x \<union> free_pages xs"
  "free_pages (xs @ ys) = free_pages xs \<union> free_pages ys"
  by (auto simp: free_pages_def)

lemma wf_map_simps [simp]:
  "wf_map []"
  "wf_map (x # xs) \<longleftrightarrow> wf_node x \<and> (\<forall>y \<in> set xs. node_end x \<le> unat (fst y)) \<and> wf_map xs"
  "wf_map (xs @ ys) \<longleftrightarrow> wf_map xs \<and> wf_map ys \<and> (\<forall>x \<in> set xs. \<forall>y \<in> set ys. node_end x \<le> unat (fst y))"
  by (auto simp: wf_map_def sorted_wrt_append)

lemma wf_mapD: "wf_map fl \<Longrightarrow> x \<in> set fl \<Longrightarrow> wf_node x"
  by (simp add: wf_map_def list_all_iff)

lemma ordered_disjoint:
  assumes "wf_node x" "wf_node y" "node_end x \<le> unat (fst y)"
  shows "page_range x \<inter> page_range y = {}"
  using assms by (auto simp: page_range_iff)

lemma split_node:
  assumes "wf_map fl" and "i < length fl"
  obtains pre post where "fl = pre @ fl ! i # post" and "pre = take i fl" and "post = drop (Suc i) fl"
  using id_take_nth_drop[OF assms(2)] that by blast

text \<open>Replacing a node by nodes inside its range keeps the list well formed.\<close>

lemma replace_node_wf:
  assumes wf: "wf_map fl" and i: "i < length fl" and new: "wf_map new"
    and inside: "\<forall>x \<in> set new. unat (fst (fl ! i)) \<le> unat (fst x) \<and> node_end x \<le> node_end (fl ! i)"
  shows "wf_map (replace_node fl i new)"
    and "free_pages (replace_node fl i new) = (free_pages fl - page_range (fl ! i)) \<union> free_pages new"
proof -
  from wf i obtain pre post where fl: "fl = pre @ fl ! i # post" and p: "pre = take i fl" "post = drop (Suc i) fl"
    by (rule split_node)
  have r: "replace_node fl i new = pre @ new @ post" by (simp add: replace_node_def p)
  have w: "wf_map pre" "wf_node (fl ! i)" "wf_map post"
    "\<forall>x \<in> set pre. node_end x \<le> unat (fst (fl ! i))" "\<forall>y \<in> set post. node_end (fl ! i) \<le> unat (fst y)"
    "\<forall>x \<in> set pre. \<forall>y \<in> set post. node_end x \<le> unat (fst y)"
    using wf fl by (metis wf_map_simps(2,3) list.set_intros(1,2))+
  show "wf_map (replace_node fl i new)"
    unfolding r using w new inside by (fastforce intro: order_trans)
  have "free_pages pre \<inter> page_range (fl ! i) = {}" "free_pages post \<inter> page_range (fl ! i) = {}"
    using w ordered_disjoint wf_mapD unfolding free_pages_def by blast+
  moreover have "free_pages fl = free_pages pre \<union> page_range (fl ! i) \<union> free_pages post"
    by (subst fl) auto
  ultimately show "free_pages (replace_node fl i new) = (free_pages fl - page_range (fl ! i)) \<union> free_pages new"
    unfolding r by auto
qed

section \<open>Allocation from one node\<close>

text \<open>The upper page of the allocation, as a number of pages from the start of the node.\<close>

definition alloc_top :: "free_node \<Rightarrow> UINTN \<Rightarrow> nat" where
  "alloc_top x MaxAddress = min (unat (snd x)) ((unat MaxAddress + 1 - unat (fst x)) div 4096)"

lemma one_node_nat:
  assumes wf: "wf_node x" and pos: "0 < unat N" and N: "unat N \<le> unat (snd x)"
    and top: "unat (fst x) + unat N * 4096 \<le> unat mx + 1"
  shows "\<exists>new addr. InternalAllocPagesOnOneNode x N mx = Inr (new, addr) \<and>
     unat addr = unat (fst x) + (alloc_top x mx - unat N) * 4096 \<and>
     map (\<lambda>y. (unat (fst y), unat (snd y))) new =
       (if unat N < alloc_top x mx then [(unat (fst x), alloc_top x mx - unat N)] else []) @
       (if alloc_top x mx < unat (snd x)
        then [(unat (fst x) + alloc_top x mx * 4096, unat (snd x) - alloc_top x mx)] else [])"
proof -
  obtain a n where x: "x = (a, n)" by (cases x)
  let ?t = "alloc_top x mx"
  let ?U = "TRUNCATE_TO_PAGES (mx + 1 - a)"
  let ?T = "if ?U > n then n else ?U"
  have a: "0 < unat a" and e: "unat a + unat n * 4096 < 2 ^ 64" and al: "unat a mod 4096 = 0"
    using wf by (auto simp: x wf_node_def node_end_def)
  have "unat (mx + 1 - a) = unat mx + 1 - unat a"
  proof -
    have le: "unat a \<le> unat mx + 1" using top x by simp
    have mx: "unat mx < 2 ^ LENGTH(64)" by (rule unsigned_less)
    have "uint (mx + 1 - a) = (uint mx + 1 - uint a) mod 2 ^ 64"
      by (simp add: uint_word_ariths mod_simps)
    also have "uint mx + 1 - uint a = int (unat mx + 1 - unat a)"
      using le by (simp add: of_nat_diff)
    also have "int (unat mx + 1 - unat a) mod 2 ^ 64 = int (unat mx + 1 - unat a)"
    proof (rule mod_pos_pos_trivial)
      have "unat mx + 1 - unat a < 2 ^ 64" using mx a by simp
      then show "int (unat mx + 1 - unat a) < 2 ^ 64" by (metis of_nat_less_iff of_nat_numeral of_nat_power)
    qed simp
    finally show ?thesis by (metis nat_int unat_eq_nat_uint)
  qed
  then have T0: "unat ?U = (unat mx + 1 - unat a) div 4096" by (simp add: unat_truncate)
  have T: "unat ?T = ?t" using T0 by (simp add: alloc_top_def x word_less_nat_alt)
  have tn: "?t \<le> unat n" by (simp add: alloc_top_def x)
  have Nt: "unat N \<le> ?t"
    using N top by (simp add: alloc_top_def x less_eq_div_iff_mult_less_eq)
  have B: "unat (?T - N) = ?t - unat N" using T Nt by (simp add: unat_sub_small word_le_nat_alt)
  have sT: "unat (EFI_PAGES_TO_SIZE ?T) = ?t * 4096" using T tn e by (subst unat_pages_to_size) auto
  have sB: "unat (EFI_PAGES_TO_SIZE (?T - N)) = (?t - unat N) * 4096" using B tn e by (subst unat_pages_to_size) auto
  have nT: "unat (n - ?T) = unat n - ?t" using T tn by (simp add: unat_sub_small word_le_nat_alt)
  have aT: "unat (a + EFI_PAGES_TO_SIZE ?T) = unat a + ?t * 4096"
    using sT tn e by (subst unat_add_small) (auto intro: le_less_trans[OF _ e])
  have "unat a + (?t - unat N) * 4096 \<le> unat a + unat n * 4096" using tn by (simp add: diff_le_mono2 le_diff_conv)
  then have aB: "unat (a + EFI_PAGES_TO_SIZE (?T - N)) = unat a + (?t - unat N) * 4096"
    using sB e by (subst unat_add_small) auto
  have c1: "?T - N > 0 \<longleftrightarrow> unat N < ?t" using B Nt by (simp add: word_less_nat_alt)
  have c2: "?T < n \<longleftrightarrow> ?t < unat n" using T by (simp add: word_less_nat_alt)
  have c3: "EFI_PAGES_TO_SIZE ?T \<noteq> 0" using sT Nt pos by (metis le_zero_eq mult_is_0 neq0_conv unat_0 zero_neq_numeral)
  show ?thesis
    unfolding InternalAllocPagesOnOneNode_def Let_def x prod.case c1[unfolded x] c2[unfolded x]
    using B nT aT aB c3 by (simp add: x)
qed

end
