(* ===== verification/PageProperties.thy ===== *)
theory PageProperties
  imports PageAlloc
begin

text \<open>
  Correctness of the page allocator against the set of free pages: allocation takes a
  fresh, aligned range out of the set, release puts it back, and a release that overlaps
  free memory is refused.
\<close>

section \<open>Coalesced lists\<close>

text \<open>No two nodes of the list are adjacent: every gap between neighbours is at least one page.\<close>

definition gap :: "free_node \<Rightarrow> free_node \<Rightarrow> bool" where
  "gap x y \<longleftrightarrow> node_end x < unat (fst y)"

definition coalesced :: "memory_map \<Rightarrow> bool" where
  "coalesced fl \<longleftrightarrow> sorted_wrt gap fl"

text \<open>Gaps between all neighbours but those at the indices of a set.\<close>

definition gaps_but :: "nat set \<Rightarrow> memory_map \<Rightarrow> bool" where
  "gaps_but D fl \<longleftrightarrow> (\<forall>j. Suc j < length fl \<longrightarrow> j \<notin> D \<longrightarrow> gap (fl ! j) (fl ! Suc j))"

lemma transp_gap: "transp gap"
  by (rule transpI) (simp add: gap_def node_end_def)

lemma coalesced_gaps: "coalesced fl \<longleftrightarrow> gaps_but {} fl"
  by (simp add: coalesced_def gaps_but_def sorted_wrt_iff_nth_Suc_transp[OF transp_gap])

text \<open>In a coalesced list a run of free pages lies in a single node.\<close>

lemma run_in_one_node:
  assumes wf: "wf_map fl" and co: "coalesced fl" and n: "0 < n" and run: "{p ..< p + n} \<subseteq> free_pages fl"
  shows "\<exists>x \<in> set fl. {p ..< p + n} \<subseteq> page_range x"
proof -
  have "p \<in> free_pages fl" using n run by auto
  then obtain x where x: "x \<in> set fl" "p \<in> page_range x" unfolding free_pages_def by blast
  note wx = wf_mapD[OF wf x(1)]
  let ?q = "unat (fst x) div 4096 + unat (snd x)"
  have q: "?q * 4096 = node_end x" using wx by (auto simp: wf_node_def node_end_def add_mult_distrib)
  have "p + n \<le> ?q"
  proof (rule ccontr)
    assume "\<not> p + n \<le> ?q"
    then have "?q \<in> free_pages fl" using x(2) run by (auto simp: page_range_def)
    then obtain y where y: "y \<in> set fl" "?q \<in> page_range y" unfolding free_pages_def by blast
    note wy = wf_mapD[OF wf y(1)]
    have le: "unat (fst y) \<le> node_end x" "node_end x < node_end y"
      using y(2) q by (simp_all add: page_range_iff[OF wy])
    from x(1) y(1) obtain i j where ij: "i < length fl" "x = fl ! i" "j < length fl" "y = fl ! j"
      by (metis in_set_conv_nth)
    have g: "k < l \<Longrightarrow> l < length fl \<Longrightarrow> gap (fl ! k) (fl ! l)" for k l
      using co by (simp add: coalesced_def sorted_wrt_iff_nth_less)
    consider "i < j" | "j < i" | "i = j" by linarith
    then show False
    proof cases
      case 1 then show ?thesis using g[of i j] ij le by (simp add: gap_def)
    next
      case 2 then show ?thesis using g[of j i] ij le by (simp add: gap_def node_end_def)
    next
      case 3 then show ?thesis using ij le by simp
    qed
  qed
  then have "{p ..< p + n} \<subseteq> page_range x" using x(2) by (auto simp: page_range_def)
  with x(1) show ?thesis by blast
qed

lemma replace_node_coalesced:
  assumes co: "coalesced fl" and i: "i < length fl" and new: "coalesced new"
    and inside: "\<forall>x \<in> set new. unat (fst (fl ! i)) \<le> unat (fst x) \<and> node_end x \<le> node_end (fl ! i)"
  shows "coalesced (replace_node fl i new)"
proof -
  have "coalesced (take i fl @ fl ! i # drop (Suc i) fl)" using co id_take_nth_drop[OF i] by simp
  then show ?thesis using new inside
    unfolding coalesced_def replace_node_def sorted_wrt_append by (fastforce simp: gap_def)
qed

section \<open>Allocation\<close>

lemma one_node_coalesced:
  assumes wf: "wf_node x" and pos: "0 < unat N" and N: "unat N \<le> unat (snd x)"
    and top: "unat (fst x) + unat N * 4096 \<le> unat mx + 1"
    and r: "InternalAllocPagesOnOneNode x N mx = Inr (new, addr)"
  shows "coalesced new"
proof -
  let ?f = "\<lambda>y. (unat (fst y), unat (snd y))"
  have "map ?f new =
       (if unat N < alloc_top x mx then [(unat (fst x), alloc_top x mx - unat N)] else []) @
       (if alloc_top x mx < unat (snd x)
        then [(unat (fst x) + alloc_top x mx * 4096, unat (snd x) - alloc_top x mx)] else [])"
    using one_node_nat[OF wf pos N top] r by auto
  moreover have "unat (fst x) + (t - unat N) * 4096 < unat (fst x) + t * 4096" if "unat N < t" for t
    using pos that by (simp add: diff_mult_distrib)
  ultimately show ?thesis
    by (auto simp: coalesced_def gap_def node_end_def split: if_splits)
qed

text \<open>What is left of a node of \<open>n\<close> pages at \<open>a\<close> when pages \<open>t - m\<close> to \<open>t\<close> are cut out.\<close>

lemma one_node_pieces:
  fixes a n t m :: nat
  assumes a: "a mod 4096 = 0" "0 < a" "a + n * 4096 < 2 ^ 64" and t: "t \<le> n" "m \<le> t" and m: "0 < m"
    and new: "map (\<lambda>y. (unat (fst y), unat (snd y))) new =
       (if m < t then [(a, t - m)] else []) @ (if t < n then [(a + t * 4096, n - t)] else [])"
  shows "wf_map new \<and> (\<forall>y \<in> set new. a \<le> unat (fst y) \<and> node_end y \<le> a + n * 4096) \<and>
     free_pages new = {a div 4096 ..< a div 4096 + n} - {a div 4096 + (t - m) ..< a div 4096 + t}"
proof -
  have low: "wf_node y \<and> node_end y = a + (t - m) * 4096 \<and> page_range y = {a div 4096 ..< a div 4096 + (t - m)}"
    if "unat (fst y) = a" "unat (snd y) = t - m" "m < t" for y :: free_node
  proof -
    have "(t - m) * 4096 \<le> n * 4096" using t by simp
    then have "a + (t - m) * 4096 < 2 ^ 64" using a(3) by linarith
    with that a show ?thesis by (simp add: wf_node_def node_end_def page_range_def)
  qed
  have high: "wf_node z \<and> node_end z = a + n * 4096 \<and> page_range z = {a div 4096 + t ..< a div 4096 + n}"
    if "unat (fst z) = a + t * 4096" "unat (snd z) = n - t" "t < n" for z :: free_node
  proof -
    have "(a + t * 4096) mod 4096 = 0" "(a + t * 4096) div 4096 = a div 4096 + t" using a(1) by simp_all
    with that a show ?thesis by (simp add: wf_node_def node_end_def page_range_def diff_mult_distrib add.commute)
  qed
  have le: "(t - m) * 4096 \<le> t * 4096" "t * 4096 \<le> n * 4096" using t by simp_all
  consider (both) y z where "new = [y, z]" "m < t" "t < n" "unat (fst y) = a" "unat (snd y) = t - m"
      "unat (fst z) = a + t * 4096" "unat (snd z) = n - t"
    | (lower) y where "new = [y]" "m < t" "t = n" "unat (fst y) = a" "unat (snd y) = t - m"
    | (upper) z where "new = [z]" "m = t" "t < n" "unat (fst z) = a + t * 4096" "unat (snd z) = n - t"
    | (none) "new = []" "m = t" "t = n"
    using new t by (auto split: if_splits)
  then show ?thesis
  proof cases
    case both
    note l = low[OF both(4,5,2)] and h = high[OF both(6,7,3)]
    have "{p ..< p + (t - m)} \<union> {p + t ..< p + n} = {p ..< p + n} - {p + (t - m) ..< p + t}" for p
      using both(2,3) by auto
    with l h have "free_pages new = {a div 4096 ..< a div 4096 + n} - {a div 4096 + (t - m) ..< a div 4096 + t}"
      unfolding both(1) free_pages_simps by simp
    moreover have "wf_map new" unfolding both(1) wf_map_simps using l h le by (simp add: both(6))
    moreover have "a \<le> unat (fst y) \<and> a \<le> unat (fst z) \<and> node_end y \<le> a + n * 4096 \<and> node_end z \<le> a + n * 4096"
      using l h le both(4,6) by linarith
    ultimately show ?thesis unfolding both(1) by simp
  next
    case lower
    note l = low[OF lower(4,5,2)]
    have "{p ..< p + (t - m)} = {p ..< p + n} - {p + (t - m) ..< p + t}" for p using lower(2,3) by auto
    with l le lower(4) show ?thesis unfolding lower(1) by simp
  next
    case upper
    note h = high[OF upper(4,5,3)]
    have "{p + t ..< p + n} = {p ..< p + n} - {p + (t - m) ..< p + t}" for p using upper(2,3) by auto
    with h upper(4) show ?thesis unfolding upper(1) by simp
  next
    case none
    then show ?thesis by simp
  qed
qed

lemma one_node_ok:
  assumes wf: "wf_node x" and pos: "0 < unat N" and N: "unat N \<le> unat (snd x)"
    and top: "unat (fst x) + unat N * 4096 \<le> unat mx + 1"
  shows "\<exists>new addr. InternalAllocPagesOnOneNode x N mx = Inr (new, addr) \<and> wf_map new \<and>
     (\<forall>y \<in> set new. unat (fst x) \<le> unat (fst y) \<and> node_end y \<le> node_end x) \<and>
     wf_node (addr, N) \<and> page_range (addr, N) \<subseteq> page_range x \<and>
     free_pages new = page_range x - page_range (addr, N) \<and> node_end (addr, N) \<le> unat mx + 1"
proof -
  let ?t = "alloc_top x mx"
  let ?a = "unat (fst x)"
  let ?n = "unat (snd x)"
  have a: "?a mod 4096 = 0" "0 < ?a" "?a + ?n * 4096 < 2 ^ 64"
    using wf by (auto simp: wf_node_def node_end_def)
  have t: "?t \<le> ?n" "unat N \<le> ?t" "?a + ?t * 4096 \<le> unat mx + 1"
    using N top by (auto simp: alloc_top_def less_eq_div_iff_mult_less_eq)
  obtain new addr where r: "InternalAllocPagesOnOneNode x N mx = Inr (new, addr)"
    and addr: "unat addr = ?a + (?t - unat N) * 4096"
    and new: "map (\<lambda>y. (unat (fst y), unat (snd y))) new =
       (if unat N < ?t then [(?a, ?t - unat N)] else []) @
       (if ?t < ?n then [(?a + ?t * 4096, ?n - ?t)] else [])"
    using one_node_nat[OF wf pos N top] by blast
  have end_addr: "node_end (addr, N) = ?a + ?t * 4096"
    using t addr by (simp add: node_end_def diff_mult_distrib)
  have div: "(?a + k * 4096) div 4096 = ?a div 4096 + k" for k by simp
  have mod: "(?a + k * 4096) mod 4096 = 0" for k using a(1) by simp
  have le: "?a + ?t * 4096 \<le> ?a + ?n * 4096" using t(1) by simp
  have wfa: "wf_node (addr, N)"
    using pos a(2,3) le mod[of "?t - unat N"] end_addr by (simp add: wf_node_def addr)
  have ra: "page_range (addr, N) = {?a div 4096 + (?t - unat N) ..< ?a div 4096 + ?t}"
    using t(2) by (simp add: page_range_def addr div)
  have rx: "page_range x = {?a div 4096 ..< ?a div 4096 + ?n}" by (simp add: page_range_def)
  have nx: "node_end x = ?a + ?n * 4096" by (simp add: node_end_def)
  have "wf_map new \<and> (\<forall>y \<in> set new. ?a \<le> unat (fst y) \<and> node_end y \<le> node_end x) \<and>
      free_pages new = page_range x - page_range (addr, N)"
    unfolding rx ra nx by (rule one_node_pieces[OF a t(1,2) pos new])
  moreover have "page_range (addr, N) \<subseteq> page_range x" using t by (auto simp: ra rx)
  ultimately show ?thesis using r wfa end_addr t(3) by auto
qed

lemma fits_below_nat:
  assumes wf: "wf_node x" and pos: "0 < unat N"
  shows "fits_below N mx x \<longleftrightarrow> unat N \<le> unat (snd x) \<and> unat (fst x) + unat N * 4096 \<le> unat mx + 1"
proof (cases "unat N \<le> unat (snd x)")
  case True
  have e: "unat (fst x) + unat N * 4096 < 2 ^ 64"
    using wf True unfolding wf_node_def node_end_def by (meson add_left_mono le_less_trans mult_le_mono1)
  then have "unat (fst x + EFI_PAGES_TO_SIZE N) = unat (fst x) + unat N * 4096"
    by (subst unat_add_small) (auto simp: unat_pages_to_size)
  moreover have "1 \<le> fst x + EFI_PAGES_TO_SIZE N" using calculation pos by (simp add: word_le_nat_alt)
  ultimately have "unat (fst x + EFI_PAGES_TO_SIZE N - 1) = unat (fst x) + unat N * 4096 - 1"
    by (simp add: unat_sub_small)
  with True show ?thesis using pos by (auto simp: fits_below_def word_le_nat_alt)
next
  case False
  then show ?thesis by (simp add: fits_below_def word_le_nat_alt)
qed

text \<open>Taking an aligned range out of the free set.\<close>

definition takes_range :: "memory_map \<Rightarrow> UINT64 \<Rightarrow> UINT64 \<Rightarrow> memory_map \<Rightarrow> bool" where
  "takes_range fl addr N fl' \<longleftrightarrow> wf_map fl' \<and> wf_node (addr, N) \<and> page_range (addr, N) \<subseteq> free_pages fl \<and>
     free_pages fl' = free_pages fl - page_range (addr, N) \<and> (coalesced fl \<longrightarrow> coalesced fl')"

lemma alloc_node_takes:
  assumes wf: "wf_map fl" and i: "i < length fl" and pos: "0 < unat N"
    and N: "unat N \<le> unat (snd (fl ! i))" and top: "unat (fst (fl ! i)) + unat N * 4096 \<le> unat mx + 1"
    and r: "InternalAllocPagesOnOneNode (fl ! i) N mx = Inr (new, addr)"
  shows "takes_range fl addr N (replace_node fl i new)" and "node_end (addr, N) \<le> unat mx + 1"
proof -
  have x: "wf_node (fl ! i)" using wf i by (simp add: wf_mapD)
  have ok: "wf_map new" "\<forall>y \<in> set new. unat (fst (fl ! i)) \<le> unat (fst y) \<and> node_end y \<le> node_end (fl ! i)"
    "wf_node (addr, N)" "page_range (addr, N) \<subseteq> page_range (fl ! i)"
    "free_pages new = page_range (fl ! i) - page_range (addr, N)" "node_end (addr, N) \<le> unat mx + 1"
    using one_node_ok[OF x pos N top] r by auto
  have sub: "page_range (fl ! i) \<subseteq> free_pages fl" using nth_mem[OF i] unfolding free_pages_def by blast
  show "takes_range fl addr N (replace_node fl i new)"
    unfolding takes_range_def replace_node_wf(2)[OF wf i ok(1,2)]
    using replace_node_wf(1)[OF wf i ok(1,2)] ok(3-5) sub
      replace_node_coalesced[OF _ i one_node_coalesced[OF x pos N top r] ok(2)] by auto
  show "node_end (addr, N) \<le> unat mx + 1" by (rule ok(6))
qed

lemma InternalAllocMaxAddress_ok:
  assumes wf: "wf_map fl" and pos: "0 < unat N"
  shows "(\<exists>addr fl'. InternalAllocMaxAddress fl N mx = Inr (addr, fl') \<and> takes_range fl addr N fl' \<and>
            node_end (addr, N) \<le> unat mx + 1 \<and> addr \<noteq> - 1) \<or>
         (InternalAllocMaxAddress fl N mx = Inr (- 1, fl) \<and> (\<forall>x \<in> set fl. \<not> fits_below N mx x))"
proof (cases "last_index (\<lambda>i. fits_below N mx (fl ! i)) (length fl)")
  case None
  then have "\<forall>x \<in> set fl. \<not> fits_below N mx x" unfolding last_index_None_iff by (metis in_set_conv_nth)
  with None show ?thesis by (simp add: InternalAllocMaxAddress_def)
next
  case (Some i)
  note i = last_index_SomeD(1,2)[OF Some]
  have x: "wf_node (fl ! i)" using wf i by (simp add: wf_mapD)
  note fit = fits_below_nat[OF x pos, THEN iffD1, OF i(2)]
  then obtain new addr where r: "InternalAllocPagesOnOneNode (fl ! i) N mx = Inr (new, addr)"
    using one_node_nat[OF x pos] by blast
  note ok = alloc_node_takes[OF wf i(1) pos _ _ r] fit
  then have t: "takes_range fl addr N (replace_node fl i new)" "node_end (addr, N) \<le> unat mx + 1" by auto
  have "addr \<noteq> - 1"
  proof
    assume "addr = - 1"
    moreover have "(- 1) AND EFI_PAGE_MASK \<noteq> 0" by (simp add: EFI_PAGE_MASK_def)
    ultimately have "unat addr mod 4096 \<noteq> 0" by (simp only: page_aligned_iff not_False_eq_True)
    with t(1) show False by (simp add: takes_range_def wf_node_def)
  qed
  with t Some r show ?thesis by (simp add: InternalAllocMaxAddress_def)
qed

text \<open>A node that holds the whole requested range.\<close>

definition holds_range :: "UINT64 \<Rightarrow> UINT64 \<Rightarrow> free_node \<Rightarrow> bool" where
  "holds_range addr N x \<longleftrightarrow> unat (fst x) \<le> unat addr \<and> node_end (addr, N) \<le> node_end x"

lemma holder_unique:
  assumes wf: "wf_map fl" and n: "wf_node (addr, N)" and i: "i < length fl" and j: "j < length fl"
    and le: "fst (fl ! i) \<le> addr" "\<And>k. i < k \<Longrightarrow> k < length fl \<Longrightarrow> \<not> fst (fl ! k) \<le> addr"
    and h: "holds_range addr N (fl ! j)"
  shows "j = i"
proof (rule linorder_cases[of j i])
  assume "j < i"
  then have "node_end (fl ! j) \<le> unat (fst (fl ! i))"
    using wf i by (simp add: wf_map_def sorted_wrt_iff_nth_less)
  with h le(1) n show ?thesis by (simp add: holds_range_def word_le_nat_alt wf_node_def node_end_def)
next
  assume "i < j"
  with le(2)[of j] j h show ?thesis by (simp add: holds_range_def word_le_nat_alt)
qed

text \<open>In a node that holds the range, the cut ends where the range ends.\<close>

lemma alloc_at_address:
  assumes wf: "wf_map fl" and i: "i < length fl" and n: "wf_node (addr, N)"
    and ai: "unat (fst (fl ! i)) \<le> unat addr" and le: "node_end (addr, N) \<le> node_end (fl ! i)"
    and en: "unat stop = unat addr + unat N * 4096"
  shows "\<exists>new. InternalAllocPagesOnOneNode (fl ! i) N stop = Inr (new, addr) \<and>
     takes_range fl addr N (replace_node fl i new)"
proof -
  let ?a = "unat (fst (fl ! i))"
  have x: "wf_node (fl ! i)" using wf i by (simp add: wf_mapD)
  have pos: "0 < unat N" using n by (simp add: wf_node_def)
  have fit: "unat N \<le> unat (snd (fl ! i))" "?a + unat N * 4096 \<le> unat stop + 1"
    using le ai by (simp_all add: node_end_def en)
  have "4096 dvd unat addr - ?a" using n x by (intro dvd_diff_nat) (auto simp: wf_node_def)
  then obtain q where q: "unat addr - ?a = 4096 * q" by (rule dvdE)
  have top: "alloc_top (fl ! i) stop = q + unat N"
  proof -
    have "(unat stop + 1 - ?a) = 4096 * (q + unat N) + 1" using q ai en by simp
    then have "(unat stop + 1 - ?a) div 4096 = q + unat N" by simp
    moreover have "q + unat N \<le> unat (snd (fl ! i))" using le q ai by (simp add: node_end_def)
    ultimately show ?thesis by (simp add: alloc_top_def)
  qed
  obtain new m where r: "InternalAllocPagesOnOneNode (fl ! i) N stop = Inr (new, m)"
    and m: "unat m = ?a + (alloc_top (fl ! i) stop - unat N) * 4096"
    using one_node_nat[OF x pos fit] by blast
  have "unat m = unat addr" using m q ai by (simp add: top)
  then have "m = addr" by (simp add: word_unat_eq_iff)
  with r alloc_node_takes(1)[OF wf i pos fit r] show ?thesis by blast
qed

lemma InternalAllocAddress_ok:
  assumes wf: "wf_map fl" and n: "wf_node (addr, N)"
  shows "(\<exists>fl'. InternalAllocAddress fl N addr = Inr (addr, fl') \<and> takes_range fl addr N fl') \<or>
         (InternalAllocAddress fl N addr = Inr (NOT addr, fl) \<and> (\<forall>x \<in> set fl. \<not> holds_range addr N x))"
proof -
  let ?stop = "addr + EFI_PAGES_TO_SIZE N"
  have al: "addr AND EFI_PAGE_MASK = 0" and pos: "0 < unat N" and e: "unat addr + unat N * 4096 < 2 ^ 64"
    using n by (auto simp: page_aligned_iff wf_node_def node_end_def)
  have en: "unat ?stop = unat addr + unat N * 4096"
    using e by (subst unat_add_small) (auto simp: unat_pages_to_size)
  show ?thesis
  proof (cases "last_index (\<lambda>i. fst (fl ! i) \<le> addr) (length fl)")
    case None
    then have "\<forall>x \<in> set fl. \<not> holds_range addr N x"
      unfolding last_index_None_iff holds_range_def by (metis in_set_conv_nth word_le_nat_alt)
    with None al show ?thesis by (simp add: InternalAllocAddress_def)
  next
    case (Some i)
    note i = last_index_SomeD[OF Some]
    have x: "wf_node (fl ! i)" using wf i(1) by (simp add: wf_mapD)
    then have xe: "unat (fst (fl ! i) + EFI_PAGES_TO_SIZE (snd (fl ! i))) = node_end (fl ! i)"
      unfolding wf_node_def node_end_def by (subst unat_add_small) (auto simp: unat_pages_to_size)
    show ?thesis
    proof (cases "node_end (fl ! i) < node_end (addr, N)")
      case True
      then have "\<not> holds_range addr N (fl ! i)" by (simp add: holds_range_def)
      then have "\<forall>x \<in> set fl. \<not> holds_range addr N x"
        using holder_unique[OF wf n i(1) _ i(2,3)] by (metis in_set_conv_nth)
      moreover have "fst (fl ! i) + EFI_PAGES_TO_SIZE (snd (fl ! i)) < ?stop"
        using True xe en by (simp add: word_less_nat_alt node_end_def)
      ultimately show ?thesis using Some al by (simp add: InternalAllocAddress_def Let_def)
    next
      case False
      have ai: "unat (fst (fl ! i)) \<le> unat addr" using i(2) by (simp add: word_le_nat_alt)
      from False have le: "node_end (addr, N) \<le> node_end (fl ! i)" by simp
      have "\<not> fst (fl ! i) + EFI_PAGES_TO_SIZE (snd (fl ! i)) < ?stop"
        using False xe en by (simp add: word_less_nat_alt node_end_def)
      with Some al alloc_at_address[OF wf i(1) n ai le en] show ?thesis
        by (auto simp: InternalAllocAddress_def Let_def)
    qed
  qed
qed

section \<open>Release\<close>

lemma merged_end:
  assumes wf: "wf_map fl" and i: "Suc i < length fl" and x: "fl ! i = (a, n)" and y: "fl ! Suc i = (b, k)"
    and g: "TRUNCATE_TO_PAGES (b - a) = n"
  shows "node_end (a, n + k) = node_end (b, k)"
proof -
  have wx: "wf_node (a, n)" and wy: "wf_node (b, k)" using wf i x y wf_mapD[OF wf] by (metis Suc_lessD nth_mem)+
  have "node_end (a, n) \<le> unat b"
    using wf i x y by (simp add: wf_map_def sorted_wrt_iff_nth_less) (metis fst_conv lessI)
  then have ba: "unat a \<le> unat b" by (simp add: node_end_def)
  then have n: "unat n = (unat b - unat a) div 4096"
    using arg_cong[OF g, of unat] by (simp add: unat_truncate unat_sub_small word_le_nat_alt)
  have "4096 dvd unat b - unat a" using wx wy by (intro dvd_diff_nat) (auto simp: wf_node_def)
  then have ub: "unat b = unat a + unat n * 4096" using n ba by (metis add.commute dvd_div_mult_self le_add_diff_inverse)
  have nk: "unat (n + k) = unat n + unat k"
    using wy ub by (intro unat_add_small) (simp add: wf_node_def node_end_def)
  show ?thesis by (simp add: node_end_def nk ub add_mult_distrib)
qed

lemma InternalMergeNodes_ok:
  assumes wf: "wf_map fl" and i: "Suc i < length fl"
  shows "\<exists>j fl'. InternalMergeNodes fl i = Inr (j, fl') \<and> wf_map fl' \<and> free_pages fl' = free_pages fl \<and>
     (j = i \<and> Suc (length fl') = length fl \<or> j = Suc i \<and> fl' = fl)"
proof -
  obtain a n where x: "fl ! i = (a, n)" by fastforce
  obtain b k where y: "fl ! Suc i = (b, k)" by fastforce
  have wx: "wf_node (a, n)" and wy: "wf_node (b, k)" using wf i x y wf_mapD[OF wf] by (metis Suc_lessD nth_mem)+
  have ord: "node_end (a, n) \<le> unat b"
    using wf i x y by (simp add: wf_map_def sorted_wrt_iff_nth_less)
      (metis fst_conv lessI)
  let ?gap = "TRUNCATE_TO_PAGES (b - a)"
  have ba: "unat a \<le> unat b" using ord by (simp add: node_end_def)
  have g: "unat ?gap = (unat b - unat a) div 4096" using ba by (simp add: unat_truncate unat_sub_small word_le_nat_alt)
  have ge: "?gap \<ge> n" using ord by (simp add: word_le_nat_alt g node_end_def less_eq_div_iff_mult_less_eq)
  show ?thesis
  proof (cases "?gap = n")
    case False
    with ge wf x y show ?thesis by (simp add: InternalMergeNodes_def Let_def)
  next
    case True
    have "4096 dvd unat b - unat a" using wx wy by (intro dvd_diff_nat) (auto simp: wf_node_def)
    then have ub: "unat b = unat a + unat n * 4096" using True g ba by (metis add.commute dvd_div_mult_self le_add_diff_inverse)
    have nk: "unat (n + k) = unat n + unat k"
      using wy ub by (intro unat_add_small) (simp add: wf_node_def node_end_def)
    let ?fl' = "replace_node (fl[i := (a, n + k)]) (Suc i) []"
    have fl: "fl = take i fl @ (a, n) # (b, k) # drop (Suc (Suc i)) fl"
      using id_take_nth_drop[of i fl] i x y Cons_nth_drop_Suc[of "Suc i" fl] by simp
    have fl': "?fl' = take i fl @ (a, n + k) # drop (Suc (Suc i)) fl"
    proof -
      have "take (Suc i) (fl[i := (a, n + k)]) = take i fl @ [(a, n + k)]"
        using i by (simp add: take_Suc_conv_app_nth)
      then show ?thesis by (simp add: replace_node_def)
    qed
    have e: "node_end (a, n + k) = node_end (b, k)" by (simp add: node_end_def nk ub add_mult_distrib)
    have wn: "wf_node (a, n + k)" using wx wy e by (simp add: wf_node_def nk)
    have "wf_map ?fl'" using wf[unfolded wf_map_simps] wn e unfolding fl'
      by (subst (asm) fl) auto
    moreover have "page_range (a, n + k) = page_range (a, n) \<union> page_range (b, k)"
      using ub by (auto simp: page_range_def nk)
    moreover have "free_pages fl = free_pages (take i fl) \<union> (page_range (a, n) \<union> page_range (b, k)) \<union>
        free_pages (drop (Suc (Suc i)) fl)"
      by (subst fl) auto
    ultimately have "wf_map ?fl'" "free_pages ?fl' = free_pages fl" unfolding fl' by auto
    moreover have "Suc (length ?fl') = length fl" using i by (simp add: fl')
    ultimately show ?thesis using True ge x y by (simp add: InternalMergeNodes_def Let_def)
  qed
qed

lemma merge_gap:
  assumes wf: "wf_map fl" and i: "Suc i < length fl" and r: "InternalMergeNodes fl i = Inr (Suc i, fl')"
  shows "gap (fl ! i) (fl ! Suc i)"
proof -
  obtain a n where x: "fl ! i = (a, n)" by fastforce
  obtain b k where y: "fl ! Suc i = (b, k)" by fastforce
  have ord: "node_end (a, n) \<le> unat b"
    using wf i x y by (simp add: wf_map_def sorted_wrt_iff_nth_less) (metis fst_conv lessI)
  then have ba: "unat a \<le> unat b" by (simp add: node_end_def)
  have "TRUNCATE_TO_PAGES (b - a) \<noteq> n"
    using r x y by (auto simp: InternalMergeNodes_def Let_def ASSERT_def split: if_splits)
  then have "(unat b - unat a) div 4096 \<noteq> unat n"
    using ba by (auto simp: word_unat_eq_iff unat_truncate unat_sub_small word_le_nat_alt)
  then have "node_end (a, n) \<noteq> unat b" by (auto simp: node_end_def)
  with ord show ?thesis by (simp add: gap_def x y)
qed

text \<open>A merge closes or confirms the gap after its node; the node it returns is the next to look at.\<close>

lemma merge_gaps:
  assumes wf: "wf_map fl" and i: "Suc i < length fl" and r: "InternalMergeNodes fl i = Inr (j, fl')"
    and g: "gaps_but (insert i D) fl" and D: "D \<subseteq> {Suc i}"
  shows "gaps_but (if D = {} then {} else {j}) fl'"
proof -
  obtain a n where x: "fl ! i = (a, n)" by fastforce
  obtain b k where y: "fl ! Suc i = (b, k)" by fastforce
  have cases: "j = i \<and> fl' = replace_node (fl[i := (a, n + k)]) (Suc i) [] \<or> j = Suc i \<and> fl' = fl"
    using r x y by (auto simp: InternalMergeNodes_def Let_def ASSERT_def split: if_splits)
  then show ?thesis
  proof (elim disjE conjE)
    assume j: "j = Suc i" "fl' = fl"
    with merge_gap[OF wf i] r have "gap (fl ! i) (fl ! Suc i)" by simp
    with g D j show ?thesis by (auto simp: gaps_but_def)
  next
    assume j: "j = i" "fl' = replace_node (fl[i := (a, n + k)]) (Suc i) []"
    then have gap_n: "TRUNCATE_TO_PAGES (b - a) = n"
      using r x y by (auto simp: InternalMergeNodes_def Let_def ASSERT_def split: if_splits)
    have e: "node_end (a, n + k) = node_end (b, k)" by (rule merged_end[OF wf i x y gap_n])
    have nth: "fl' ! l = (if l < i then fl ! l else if l = i then (a, n + k) else fl ! Suc l)"
      if "Suc l \<le> length fl - 1" for l
      using that i by (auto simp: j replace_node_def nth_append min_def)
    have g': "gap (fl ! l) (fl ! Suc l)" if "Suc l < length fl" "l < i \<or> Suc i < l" for l
    proof -
      have "l \<notin> insert i D" using that D by auto
      with g that show ?thesis by (auto simp: gaps_but_def)
    qed
    have len: "length fl' = length fl - 1" using i by (simp add: j replace_node_def min_def)
    have "gap (fl' ! l) (fl' ! Suc l)" if l: "Suc l < length fl'" "l \<notin> (if D = {} then {} else {j})" for l
    proof -
      have "D = {} \<or> l \<noteq> i" using l(2) j(1) by (auto split: if_splits)
      then consider "Suc l < i" | "Suc l = i" | "l = i" "D = {}" | "i < l" by (metis Suc_lessI linorder_neqE_nat)
      then show ?thesis
      proof cases
        case 1
        with g' show ?thesis using nth[of l] nth[of "Suc l"] l len by auto
      next
        case 2
        then have "gap (fl ! l) (fl ! i)" using g'[of l] l len by auto
        with 2 show ?thesis using nth[of l] nth[of "Suc l"] l len x by (auto simp: gap_def)
      next
        case 3
        then have "gap (fl ! Suc i) (fl ! Suc (Suc i))" using g l len by (auto simp: gaps_but_def)
        with 3 show ?thesis using nth[of l] nth[of "Suc l"] l len y e by (auto simp: gap_def)
      next
        case 4
        then have "gap (fl ! Suc l) (fl ! Suc (Suc l))" using g'[of "Suc l"] l len by auto
        with 4 show ?thesis using nth[of l] nth[of "Suc l"] l len by auto
      qed
    qed
    then show ?thesis by (auto simp: gaps_but_def)
  qed
qed

text \<open>The insertion point: everything before it starts at or below the address, everything after above.\<close>

definition insert_point :: "UINT64 \<Rightarrow> memory_map \<Rightarrow> nat" where
  "insert_point addr fl = (case first_index (\<lambda>i. addr < fst (fl ! i)) (length fl) of
     Some i \<Rightarrow> i | None \<Rightarrow> length fl)"

lemma insert_point_props:
  fixes addr :: UINT64
  assumes wf: "wf_map fl"
  defines "k \<equiv> insert_point addr fl"
  shows "k \<le> length fl" and "\<And>x. x \<in> set (take k fl) \<Longrightarrow> fst x \<le> addr"
    and "\<And>x. x \<in> set (drop k fl) \<Longrightarrow> addr < fst x"
proof -
  have low: "\<not> addr < fst (fl ! j)" if "j < k" "j < length fl" for j
    using that by (auto simp: k_def insert_point_def split: option.splits
        dest: first_index_SomeD(3) first_index_NoneD)
  show le: "k \<le> length fl" by (auto simp: k_def insert_point_def split: option.splits dest: first_index_SomeD(1))
  show "fst x \<le> addr" if "x \<in> set (take k fl)" for x
    using that low by (fastforce simp: in_set_conv_nth not_less)
  show "addr < fst x" if x: "x \<in> set (drop k fl)" for x
  proof -
    from x obtain j where "j < length (drop k fl)" "x = drop k fl ! j" by (metis in_set_conv_nth)
    then have j: "k + j < length fl" "x = fl ! (k + j)" by simp_all
    then have at: "addr < fst (fl ! k)"
      by (auto simp: k_def insert_point_def split: option.splits dest: first_index_SomeD(2))
    show ?thesis
    proof (cases "j = 0")
      case False
      then have "node_end (fl ! k) \<le> unat (fst x)"
        using wf j by (simp add: wf_map_def sorted_wrt_iff_nth_less)
      then show ?thesis using at by (simp add: node_end_def word_less_nat_alt)
    qed (use at j in simp)
  qed
qed

lemma take_snoc_nth: "0 < k \<Longrightarrow> k \<le> length fl \<Longrightarrow> take k fl = take (k - 1) fl @ [fl ! (k - 1)]"
  by (metis Suc_diff_1 Suc_le_lessD take_Suc_conv_app_nth)

text \<open>Putting a node in leaves the gaps elsewhere alone.\<close>

lemma insert_gaps:
  assumes "coalesced fl" and k: "k \<le> length fl"
  shows "gaps_but (insert (k - 1) (if k < length fl then {k} else {})) (take k fl @ x # drop k fl)"
proof -
  have g: "Suc j < length fl \<Longrightarrow> gap (fl ! j) (fl ! Suc j)" for j
    using assms(1) by (simp add: coalesced_gaps gaps_but_def)
  have "gap ((take k fl @ x # drop k fl) ! j) ((take k fl @ x # drop k fl) ! Suc j)"
    if j: "Suc j < Suc (length fl)" "j \<noteq> k - 1" "j \<noteq> k" for j
  proof (cases "j < k")
    case True
    then have "Suc j < k" using j by simp
    with j k g[of j] show ?thesis by (simp add: nth_append)
  next
    case False
    then have "fl ! (k + (j - Suc k)) = fl ! (j - 1)" "fl ! (k + (j - k)) = fl ! j" using j by simp_all
    with j k False g[of "j - 1"] show ?thesis by (simp add: nth_append nth_Cons')
  qed
  then show ?thesis using k by (auto simp: gaps_but_def split: if_splits)
qed

definition hits_next :: "UINT64 \<Rightarrow> UINT64 \<Rightarrow> memory_map \<Rightarrow> bool" where
  "hits_next addr N fl \<longleftrightarrow> insert_point addr fl < length fl \<and>
     addr + EFI_PAGES_TO_SIZE N > fst (fl ! insert_point addr fl)"

definition hits_prev :: "UINT64 \<Rightarrow> memory_map \<Rightarrow> bool" where
  "hits_prev addr fl \<longleftrightarrow> insert_point addr fl > 0 \<and>
     fst (fl ! (insert_point addr fl - 1)) + EFI_PAGES_TO_SIZE (snd (fl ! (insert_point addr fl - 1))) > addr"

text \<open>The two checks of the release hold exactly when the range is disjoint from the free pages.\<close>

lemma unat_stop:
  "wf_node x \<Longrightarrow> unat (fst x + EFI_PAGES_TO_SIZE (snd x)) = node_end x"
  unfolding wf_node_def node_end_def by (subst unat_add_small) (auto simp: unat_pages_to_size)

lemma hits_next_iff:
  assumes wf: "wf_map fl" and n: "wf_node (addr, N)"
  shows "\<not> hits_next addr N fl \<longleftrightarrow> (\<forall>x \<in> set (drop (insert_point addr fl) fl). node_end (addr, N) \<le> unat (fst x))"
proof (cases "insert_point addr fl < length fl")
  case True
  let ?k = "insert_point addr fl"
  have d: "drop ?k fl = fl ! ?k # drop (Suc ?k) fl" using True by (simp add: Cons_nth_drop_Suc)
  have "wf_map (drop ?k fl)" using wf by (metis append_take_drop_id wf_map_simps(3))
  then have "\<forall>x \<in> set (drop (Suc ?k) fl). unat (fst (fl ! ?k)) \<le> unat (fst x)"
    unfolding d by (auto simp: node_end_def)
  then show ?thesis using True unat_stop[OF n] unfolding d hits_next_def by (auto simp: word_less_nat_alt)
qed (simp add: hits_next_def)

lemma hits_prev_iff:
  assumes wf: "wf_map fl"
  shows "\<not> hits_prev addr fl \<longleftrightarrow> (\<forall>x \<in> set (take (insert_point addr fl) fl). node_end x \<le> unat addr)"
proof (cases "insert_point addr fl = 0")
  case False
  let ?k = "insert_point addr fl"
  have t: "take ?k fl = take (?k - 1) fl @ [fl ! (?k - 1)]" and m: "fl ! (?k - 1) \<in> set fl"
    using False insert_point_props(1)[OF wf, of addr] take_snoc_nth[of ?k fl] by (auto simp: nth_mem)
  have "wf_map (take ?k fl)" using wf by (metis append_take_drop_id wf_map_simps(3))
  then have "\<forall>x \<in> set (take (?k - 1) fl). node_end x \<le> unat (fst (fl ! (?k - 1)))" unfolding t by auto
  then show ?thesis using False unat_stop[OF wf_mapD[OF wf m]] unfolding t hits_prev_def
    by (auto simp: word_less_nat_alt node_end_def)
qed (simp add: hits_prev_def)

lemma free_disjoint_iff:
  assumes wf: "wf_map fl" and n: "wf_node (addr, N)"
  shows "page_range (addr, N) \<inter> free_pages fl = {} \<longleftrightarrow>
     (\<forall>x \<in> set (drop (insert_point addr fl) fl). node_end (addr, N) \<le> unat (fst x)) \<and>
     (\<forall>x \<in> set (take (insert_point addr fl) fl). node_end x \<le> unat addr)"
    (is "?dis \<longleftrightarrow> ?hi \<and> ?lo")
proof
  let ?k = "insert_point addr fl"
  note ip = insert_point_props[OF wf, where addr = addr]
  {
    assume dis: ?dis
    have "node_end (addr, N) \<le> unat (fst x)" if x: "x \<in> set (drop ?k fl)" for x
    proof (rule ccontr)
      assume c: "\<not> ?thesis"
      have w: "wf_node x" using wf_mapD[OF wf] in_set_dropD[OF x] .
      have "unat (fst x) div 4096 \<in> page_range x \<inter> page_range (addr, N)"
        using c ip(3)[OF x] w n by (auto simp: page_range_iff wf_node_def node_end_def word_less_nat_alt)
      with dis in_set_dropD[OF x] show False unfolding free_pages_def by blast
    qed
    moreover have "node_end x \<le> unat addr" if x: "x \<in> set (take ?k fl)" for x
    proof (rule ccontr)
      assume c: "\<not> ?thesis"
      have w: "wf_node x" using wf_mapD[OF wf] in_set_takeD[OF x] .
      have "unat addr div 4096 \<in> page_range x \<inter> page_range (addr, N)"
        using c ip(2)[OF x] w n by (auto simp: page_range_iff wf_node_def node_end_def word_le_nat_alt)
      with dis in_set_takeD[OF x] show False unfolding free_pages_def by blast
    qed
    ultimately show "?hi \<and> ?lo" by blast
  }
  assume sep: "?hi \<and> ?lo"
  have "page_range (addr, N) \<inter> page_range x = {}" if x: "x \<in> set (take ?k fl) \<union> set (drop ?k fl)" for x
  proof -
    have w: "wf_node x" using x wf_mapD[OF wf] in_set_takeD in_set_dropD by (metis UnE)
    from x sep have "node_end x \<le> unat addr \<or> node_end (addr, N) \<le> unat (fst x)" by blast
    with ordered_disjoint[OF w n] ordered_disjoint[OF n w] show ?thesis by auto
  qed
  moreover have "set fl = set (take ?k fl) \<union> set (drop ?k fl)" by (metis append_take_drop_id set_append)
  ultimately show ?dis unfolding free_pages_def by auto
qed

text \<open>The two range checks of the release refuse exactly the overlapping blocks.\<close>

lemma free_checks:
  assumes wf: "wf_map fl" and n: "wf_node (addr, N)"
  defines "k \<equiv> insert_point addr fl"
  shows "page_range (addr, N) \<inter> free_pages fl = {} \<longleftrightarrow> \<not> hits_next addr N fl \<and> \<not> hits_prev addr fl"
    and "\<not> hits_next addr N fl \<Longrightarrow> \<not> hits_prev addr fl \<Longrightarrow> wf_map (take k fl @ (addr, N) # drop k fl)"
proof -
  show "page_range (addr, N) \<inter> free_pages fl = {} \<longleftrightarrow> \<not> hits_next addr N fl \<and> \<not> hits_prev addr fl"
    unfolding free_disjoint_iff[OF wf n] hits_next_iff[OF wf n] hits_prev_iff[OF wf] by blast
  assume "\<not> hits_next addr N fl" "\<not> hits_prev addr fl"
  moreover have "wf_map (take k fl @ drop k fl)" using wf by simp
  then have "wf_map (take k fl)" "wf_map (drop k fl)"
    "\<forall>x \<in> set (take k fl). \<forall>y \<in> set (drop k fl). node_end x \<le> unat (fst y)"
    unfolding wf_map_simps(3) by blast+
  ultimately show "wf_map (take k fl @ (addr, N) # drop k fl)"
    unfolding hits_next_iff[OF wf n] hits_prev_iff[OF wf] k_def[symmetric] using n by auto
qed

text \<open>After the insertion: the merge with the node before, if there is one.\<close>

lemma merge_before:
  assumes wf1: "wf_map (take k fl @ x # drop k fl)" and kl: "k \<le> length fl"
  obtains p fl2 where
    "(if k > 0 then InternalMergeNodes (take k fl @ x # drop k fl) (k - 1) else Inr (k, take k fl @ x # drop k fl)) =
       Inr (p, fl2)"
    "wf_map fl2" "free_pages fl2 = free_pages (take k fl @ x # drop k fl)"
    "k < length fl \<Longrightarrow> Suc p < length fl2"
    "coalesced fl \<Longrightarrow> gaps_but (if k < length fl then {p} else {}) fl2"
proof (cases "k > 0")
  case True
  let ?fl1 = "take k fl @ x # drop k fl"
  have len1: "length ?fl1 = Suc (length fl)" using kl by simp
  then have less: "Suc (k - 1) < length ?fl1" using True kl by simp
  from InternalMergeNodes_ok[OF wf1 less] obtain j fl' where j: "InternalMergeNodes ?fl1 (k - 1) = Inr (j, fl')"
    "wf_map fl'" "free_pages fl' = free_pages ?fl1"
    "j = k - 1 \<and> Suc (length fl') = length ?fl1 \<or> j = Suc (k - 1) \<and> fl' = ?fl1" by blast
  have "k < length fl \<Longrightarrow> Suc j < length fl'" using j(4) len1 True by (elim disjE conjE) simp_all
  moreover have "gaps_but (if k < length fl then {j} else {}) fl'" if co: "coalesced fl"
  proof -
    have "{k} \<subseteq> {Suc (k - 1)}" using True by simp
    with merge_gaps[OF wf1 less j(1), of "if k < length fl then {k} else {}"]
      insert_gaps[OF co kl] True show ?thesis by (auto split: if_splits)
  qed
  ultimately show ?thesis using j True by (intro that[of j fl']) simp_all
next
  case False
  then show ?thesis using wf1 kl insert_gaps[of fl k x]
    by (intro that[of k "take k fl @ x # drop k fl"]) (auto simp: gaps_but_def)
qed

lemma free_fresh:
  assumes wf: "wf_map fl" and n: "wf_node (addr, N)" and dis: "page_range (addr, N) \<inter> free_pages fl = {}"
  shows "addr \<notin> fst ` set fl"
proof
  assume "addr \<in> fst ` set fl"
  then obtain x where x: "x \<in> set fl" "fst x = addr" by auto
  have "unat addr div 4096 \<in> page_range x \<inter> page_range (addr, N)"
    using x wf_mapD[OF wf x(1)] n by (auto simp: page_range_def wf_node_def)
  with dis x(1) show False unfolding free_pages_def by blast
qed

lemma MmInternalFreePages_ok:
  assumes wf: "wf_map fl" and n: "wf_node (addr, N)"
  shows "if page_range (addr, N) \<inter> free_pages fl = {}
     then \<exists>fl'. MmInternalFreePages addr N fl = Inr (EFI_SUCCESS, fl') \<and> wf_map fl' \<and>
            free_pages fl' = free_pages fl \<union> page_range (addr, N) \<and> (coalesced fl \<longrightarrow> coalesced fl')
     else MmInternalFreePages addr N fl = Inr (EFI_INVALID_PARAMETER, fl)"
proof -
  let ?k = "insert_point addr fl"
  let ?fl1 = "take ?k fl @ (addr, N) # drop ?k fl"
  have al: "addr AND EFI_PAGE_MASK = 0" using n by (simp add: page_aligned_iff wf_node_def)
  note def = MmInternalFreePages_def[of addr N fl, folded insert_point_def, unfolded Let_def,
      folded hits_next_def hits_prev_def]
  show ?thesis
  proof (cases "page_range (addr, N) \<inter> free_pages fl = {}")
    case False
    then have "hits_next addr N fl \<or> hits_prev addr fl" using free_checks(1)[OF wf n] by blast
    then have "MmInternalFreePages addr N fl = Inr (EFI_INVALID_PARAMETER, fl)"
      unfolding def using al by auto
    with False show ?thesis by simp
  next
    case True
    then have checks: "\<not> hits_next addr N fl" "\<not> hits_prev addr fl" using free_checks(1)[OF wf n] by blast+
    have wf1: "wf_map ?fl1" by (rule free_checks(2)[OF wf n checks])
    have set: "set fl = set (take ?k fl) \<union> set (drop ?k fl)" by (metis append_take_drop_id set_append)
    have fp1: "free_pages ?fl1 = free_pages fl \<union> page_range (addr, N)"
      using set unfolding free_pages_def by auto
    have fresh: "addr \<notin> fst ` set fl" by (rule free_fresh[OF wf n True])
    obtain p fl2 where m1: "(if ?k > 0 then InternalMergeNodes ?fl1 (?k - 1) else Inr (?k, ?fl1)) = Inr (p, fl2)"
      and w2: "wf_map fl2" "free_pages fl2 = free_pages ?fl1"
      and p: "?k < length fl \<Longrightarrow> Suc p < length fl2"
      and g2: "coalesced fl \<Longrightarrow> gaps_but (if ?k < length fl then {p} else {}) fl2"
      using merge_before[OF wf1 insert_point_props(1)[OF wf]] by blast
    have "\<exists>fl'. MmInternalFreePages addr N fl = Inr (EFI_SUCCESS, fl') \<and> wf_map fl' \<and>
        free_pages fl' = free_pages fl \<union> page_range (addr, N) \<and> (coalesced fl \<longrightarrow> coalesced fl')"
    proof (cases "?k < length fl")
      case True
      from InternalMergeNodes_ok[OF w2(1) p[OF True]] obtain j fl3 where
        j: "InternalMergeNodes fl2 p = Inr (j, fl3)" "wf_map fl3" "free_pages fl3 = free_pages fl2" by blast
      have "coalesced fl \<Longrightarrow> coalesced fl3"
        using merge_gaps[OF w2(1) p[OF True] j(1), of "{}"] g2 True by (simp add: coalesced_gaps)
      with j True al checks fresh m1 w2 fp1 show ?thesis unfolding def by simp
    next
      case False
      with g2 have "coalesced fl \<Longrightarrow> coalesced fl2" by (simp add: coalesced_gaps)
      with False al checks fresh m1 w2 fp1 show ?thesis unfolding def by simp
    qed
    with True show ?thesis by simp
  qed
qed

end
