(* ===== verification/PageContract.thy ===== *)
theory PageContract
  imports PageProperties AllocatorContract
begin

text \<open>
  The page allocator keeps the allocator contract over the set of free pages: the
  interpretation on \<^verbatim>\<open>MmAllocatePages\<close> and \<^verbatim>\<open>MmFreePages\<close>, the theorems on the operations, and
  the pages a memory region adds.
\<close>

section \<open>Interpretation\<close>

text \<open>A request: the allocation type, the memory type, the number of pages and the address argument.\<close>

type_synonym page_request = "EFI_ALLOCATE_TYPE \<times> EFI_MEMORY_TYPE \<times> UINTN \<times> UINT64"

fun serve_request :: "page_request \<Rightarrow> memory_map \<Rightarrow> (EFI_STATUS \<times> UINT64 \<times> memory_map) result" where
  "serve_request (T, MT, N, M) fl = MmAllocatePages T MT N M fl"

text \<open>At least one page, and an address range that does not wrap around.\<close>

fun request_in_range :: "page_request \<Rightarrow> bool" where
  "request_in_range (T, MT, N, M) \<longleftrightarrow> 0 < N \<and> (T = AllocateAddress \<longrightarrow> wf_node (M, N))"

definition alloc_limit :: "EFI_ALLOCATE_TYPE \<Rightarrow> UINT64 \<Rightarrow> UINT64" where
  "alloc_limit T M = (if T = AllocateAnyPages then - 1 else M)"

lemma limit_type_serve:
  assumes MT: "MT = EfiRuntimeServicesCode \<or> MT = EfiRuntimeServicesData"
    and T: "T = AllocateAnyPages \<or> T = AllocateMaxAddress" and N: "\<not> N > TRUNCATE_TO_PAGES (- 1) + 1"
  shows "MmAllocatePages T MT N M fl = bind_result (InternalAllocMaxAddress fl N (alloc_limit T M))
     (\<lambda>(m, fl'). Inr (if m = - 1 then EFI_OUT_OF_RESOURCES else EFI_SUCCESS, m, fl'))"
  using assms by (auto simp: MmAllocatePages_def MmInternalAllocatePages_def alloc_limit_def)

lemma address_type_serve:
  assumes MT: "MT = EfiRuntimeServicesCode \<or> MT = EfiRuntimeServicesData"
    and N: "\<not> N > TRUNCATE_TO_PAGES (- 1) + 1"
  shows "MmAllocatePages AllocateAddress MT N M fl = bind_result (InternalAllocAddress fl N M)
     (\<lambda>(m, fl'). Inr (if m \<noteq> M then EFI_NOT_FOUND else EFI_SUCCESS, m, fl'))"
  using assms by (auto simp: MmAllocatePages_def MmInternalAllocatePages_def)

text \<open>The invariant of the memory map: well formed, and no two adjacent free ranges.\<close>

definition map_ok :: "memory_map \<Rightarrow> bool" where
  "map_ok fl \<longleftrightarrow> wf_map fl \<and> coalesced fl"

lemma map_okD: "map_ok fl \<Longrightarrow> wf_map fl" "map_ok fl \<Longrightarrow> coalesced fl"
  by (simp_all add: map_ok_def)

lemma not_self: "NOT (m :: UINT64) \<noteq> m"
proof
  assume "NOT m = m"
  then have "bit (NOT m) 0 = bit m 0" by simp
  then show False by (simp only: bit_not_iff) simp
qed

text \<open>What a request that succeeded took.\<close>

definition granted :: "page_request \<Rightarrow> memory_map \<Rightarrow> UINT64 \<Rightarrow> memory_map \<Rightarrow> bool" where
  "granted r fl m fl' \<longleftrightarrow> (case r of (T, MT, N, M) \<Rightarrow>
     wf_node (m, N) \<and> page_range (m, N) \<subseteq> free_pages fl \<and> free_pages fl' = free_pages fl - page_range (m, N) \<and>
     (T = AllocateAddress \<longrightarrow> m = M) \<and> (T = AllocateMaxAddress \<longrightarrow> node_end (m, N) \<le> unat M + 1))"

lemma serve_request_ok:
  assumes ok: "map_ok fl" and r: "request_in_range (T, MT, N, M)"
  shows "\<exists>st m fl'. MmAllocatePages T MT N M fl = Inr (st, m, fl') \<and> map_ok fl' \<and>
     (if st = EFI_SUCCESS then granted (T, MT, N, M) fl m fl' else fl' = fl \<and> EFI_ERROR st)"
proof -
  have wf: "wf_map fl" and co: "coalesced fl" and pos: "0 < unat N"
    using ok r by (auto simp: map_ok_def word_less_nat_alt)
  let ?MT = "MT = EfiRuntimeServicesCode \<or> MT = EfiRuntimeServicesData"
  let ?N = "\<not> N > TRUNCATE_TO_PAGES (- 1) + 1"
  consider (bad) "\<not> ?MT \<or> \<not> ?N \<or> T = MaxAllocateType"
    | (lim) "?MT" "?N" "T = AllocateAnyPages \<or> T = AllocateMaxAddress"
    | (addr) "?MT" "?N" "T = AllocateAddress" by (cases T) blast+
  then show ?thesis
  proof cases
    case bad
    then have "\<exists>st. st \<noteq> EFI_SUCCESS \<and> EFI_ERROR st \<and> MmAllocatePages T MT N M fl = Inr (st, M, fl)"
      by (auto simp: MmAllocatePages_def MmInternalAllocatePages_def)
    with ok show ?thesis by auto
  next
    case lim
    note serve = limit_type_serve[OF lim(1,3,2)]
    from InternalAllocMaxAddress_ok[OF wf pos, of "alloc_limit T M"] show ?thesis
    proof (elim disjE exE conjE)
      fix a fl' assume a: "InternalAllocMaxAddress fl N (alloc_limit T M) = Inr (a, fl')" "takes_range fl a N fl'"
        "node_end (a, N) \<le> unat (alloc_limit T M) + 1" "a \<noteq> - 1"
      with lim(3) co show ?thesis unfolding serve
        by (auto simp: takes_range_def granted_def map_ok_def alloc_limit_def)
    next
      assume "InternalAllocMaxAddress fl N (alloc_limit T M) = Inr (- 1, fl)"
      with ok show ?thesis unfolding serve by simp
    qed
  next
    case addr
    have n: "wf_node (M, N)" using r addr(3) by simp
    from InternalAllocAddress_ok[OF wf n] show ?thesis
    proof (elim disjE exE conjE)
      fix fl' assume "InternalAllocAddress fl N M = Inr (M, fl')" "takes_range fl M N fl'"
      with addr co show ?thesis
        by (auto simp: address_type_serve takes_range_def granted_def map_ok_def)
    next
      assume "InternalAllocAddress fl N M = Inr (NOT M, fl)"
      with addr ok not_self[of M] show ?thesis by (simp add: address_type_serve)
    qed
  qed
qed

text \<open>\<^verbatim>\<open>MmAllocatePages\<close> and \<^verbatim>\<open>MmFreePages\<close> keep the contract.\<close>

fun release_pages :: "UINT64 \<times> UINTN \<Rightarrow> memory_map \<Rightarrow> (EFI_STATUS \<times> memory_map) result" where
  "release_pages (m, n) fl = MmFreePages m n fl"

fun page_block :: "page_request \<Rightarrow> UINT64 \<Rightarrow> UINT64 \<times> UINTN" where
  "page_block (T, MT, N, M) m = (m, N)"

definition pages_held :: "memory_map \<Rightarrow> UINT64 \<times> UINTN \<Rightarrow> bool" where
  "pages_held fl b \<longleftrightarrow> wf_node b \<and> page_range b \<inter> free_pages fl = {}"

lemma page_range_nonempty: "wf_node b \<Longrightarrow> page_range b \<noteq> {}"
  by (simp add: page_range_def wf_node_def)

interpretation pages: checked_allocator serve_request release_pages page_block request_in_range map_ok
  pages_held free_pages page_range wf_node
proof (unfold_locales, goal_cases)
  case (1 s r)
  obtain T MT N M where r: "r = (T, MT, N, M)" by (cases r)
  from serve_request_ok[OF 1(1) 1(2)[unfolded r]] obtain st m fl' where
    a: "MmAllocatePages T MT N M s = Inr (st, m, fl')" "map_ok fl'"
    "if st = EFI_SUCCESS then granted (T, MT, N, M) s m fl' else fl' = s \<and> EFI_ERROR st" by blast
  then show ?case unfolding r serve_request.simps page_block.simps
    by (intro exI[of _ st] exI[of _ m] exI[of _ fl']) (auto simp: granted_def pages_held_def)
next
  case (2 s b)
  obtain m n where b: "b = (m, n)" by (cases b)
  show ?case using MmInternalFreePages_ok[OF map_okD(1)[OF 2(1)], of m n] 2 unfolding b
    by (auto simp: MmFreePages_def map_ok_def pages_held_def)
next
  case (3 s b)
  then show ?case using page_range_nonempty by (simp add: pages_held_def)
next
  case (4 s b)
  obtain m n where b: "b = (m, n)" by (cases b)
  show ?case using MmInternalFreePages_ok[OF map_okD(1)[OF 4(1)], of m n] 4 unfolding b
    by (simp add: MmFreePages_def)
next
  case (5 s b)
  show ?case by (simp add: pages_held_def)
qed

section \<open>Properties\<close>

text \<open>Whether a request can be served at all: a run of free pages of the right length and place.\<close>

definition can_grant :: "page_request \<Rightarrow> memory_map \<Rightarrow> bool" where
  "can_grant r fl \<longleftrightarrow> (case r of (T, MT, N, M) \<Rightarrow>
     \<exists>p. {p ..< p + unat N} \<subseteq> free_pages fl \<and>
       (T = AllocateAddress \<longrightarrow> p * 4096 = unat M) \<and>
       (T = AllocateMaxAddress \<longrightarrow> (p + unat N) * 4096 \<le> unat M + 1))"

lemma granted_can_grant: "granted r fl m fl' \<Longrightarrow> can_grant r fl"
  unfolding granted_def can_grant_def
  by (cases r) (auto simp: page_range_def wf_node_def node_end_def add_mult_distrib
      intro!: exI[of _ "unat m div 4096"])

lemma node_of_run:
  assumes wf: "wf_map fl" and co: "coalesced fl" and pos: "0 < unat N"
    and run: "{p ..< p + unat N} \<subseteq> free_pages fl"
  shows "\<exists>x \<in> set fl. unat (fst x) \<le> p * 4096 \<and> (p + unat N) * 4096 \<le> node_end x \<and>
    unat N \<le> unat (snd x)"
proof -
  from run_in_one_node[OF wf co pos run] obtain x where x: "x \<in> set fl" "{p ..< p + unat N} \<subseteq> page_range x" by blast
  then have "p \<in> page_range x" "p + unat N - 1 \<in> page_range x" using pos by (auto simp: subset_iff)
  then have "unat (fst x) div 4096 \<le> p" "p + unat N \<le> unat (fst x) div 4096 + unat (snd x)"
    by (auto simp: page_range_def)
  moreover have "unat (fst x) = unat (fst x) div 4096 * 4096" using wf_mapD[OF wf x(1)] by (auto simp: wf_node_def)
  ultimately show ?thesis using x(1) by (intro bexI[of _ x]) (auto simp: node_end_def)
qed

lemma can_grant_limit:
  assumes wf: "wf_map fl" and co: "coalesced fl" and pos: "0 < unat N"
    and T: "T = AllocateAnyPages \<or> T = AllocateMaxAddress" and g: "can_grant (T, MT, N, M) fl"
  shows "\<exists>x \<in> set fl. fits_below N (alloc_limit T M) x"
proof -
  from g obtain p where p: "{p ..< p + unat N} \<subseteq> free_pages fl"
    "T = AllocateMaxAddress \<Longrightarrow> (p + unat N) * 4096 \<le> unat M + 1" by (auto simp: can_grant_def)
  from node_of_run[OF wf co pos p(1)] obtain x where x: "x \<in> set fl" "unat (fst x) \<le> p * 4096"
    "(p + unat N) * 4096 \<le> node_end x" "unat N \<le> unat (snd x)" by blast
  note wx = wf_mapD[OF wf x(1)]
  have "node_end x < 2 ^ 64" using wx by (simp add: wf_node_def)
  moreover have "unat (- 1 :: UINT64) = 2 ^ 64 - 1" by (simp add: unsigned_minus_1_eq_mask mask_eq_exp_minus_1)
  ultimately have "unat (fst x) + unat N * 4096 \<le> unat (alloc_limit T M) + 1"
    using T p(2) x(2,3) by (auto simp: alloc_limit_def add_mult_distrib)
  with x(4) have "fits_below N (alloc_limit T M) x" by (simp add: fits_below_nat[OF wx pos])
  with x(1) show ?thesis by blast
qed

lemma serve_complete:
  assumes ok: "map_ok fl" and r: "request_in_range (T, MT, N, M)"
    and MT: "MT = EfiRuntimeServicesCode \<or> MT = EfiRuntimeServicesData"
    and T: "T \<noteq> MaxAllocateType" and N: "\<not> N > TRUNCATE_TO_PAGES (- 1) + 1"
    and g: "can_grant (T, MT, N, M) fl"
  shows "\<exists>m fl'. MmAllocatePages T MT N M fl = Inr (EFI_SUCCESS, m, fl')"
proof (cases "T = AllocateAddress")
  case False
  have pos: "0 < unat N" using r by (simp add: word_less_nat_alt)
  have lim: "T = AllocateAnyPages \<or> T = AllocateMaxAddress" using T False by (cases T) auto
  from InternalAllocMaxAddress_ok[OF map_okD(1)[OF ok] pos, of "alloc_limit T M"]
    can_grant_limit[OF map_okD[OF ok] pos lim g] show ?thesis
    by (auto simp: limit_type_serve[OF MT lim N])
next
  case True
  have n: "wf_node (M, N)" using r True by simp
  have pos: "0 < unat N" using r by (simp add: word_less_nat_alt)
  from g True obtain p where p: "{p ..< p + unat N} \<subseteq> free_pages fl" "p * 4096 = unat M"
    by (auto simp: can_grant_def)
  from node_of_run[OF map_okD[OF ok] pos p(1)] p(2) have "\<exists>x \<in> set fl. holds_range M N x"
    by (auto simp: holds_range_def node_end_def add_mult_distrib)
  with InternalAllocAddress_ok[OF map_okD(1)[OF ok] n] True show ?thesis
    by (auto simp: address_type_serve[OF MT N])
qed

lemma granted_small:
  assumes ok: "map_ok fl" and pos: "0 < N" and g: "can_grant (T, MT, N, M) fl"
  shows "\<not> N > TRUNCATE_TO_PAGES (- 1) + 1"
proof -
  have p: "0 < unat N" using pos by (simp add: word_less_nat_alt)
  from g obtain p where "{p ..< p + unat N} \<subseteq> free_pages fl" by (auto simp: can_grant_def)
  from node_of_run[OF map_okD[OF ok] p this] obtain x where x: "x \<in> set fl" "unat N \<le> unat (snd x)" by blast
  with wf_mapD[OF map_okD(1)[OF ok] x(1)] have "unat N * 4096 < 2 ^ 64" by (simp add: wf_node_def node_end_def)
  moreover have "TRUNCATE_TO_PAGES (- 1) + 1 = 0x10000000000000" by (simp add: TRUNCATE_TO_PAGES_def mask_eq_exp_minus_1)
  ultimately show ?thesis by (simp add: word_less_nat_alt)
qed

text \<open>
  C11. \<^verbatim>\<open>MmAllocatePages\<close> is correct and complete: on a sound memory map it returns, provided at least one page is asked for and a block asked for by address is aligned and
  does not wrap in 64 bits, keeps the
  map sound, and succeeds exactly when the memory and allocation types are valid and the map
  has a run of that many free pages (at the address, or below the limit, asked for). The
  block returned is aligned and free before, and exactly its pages leave the free set; when
  the call fails the map is unchanged.
\<close>

theorem MmAllocatePages_correct:
  assumes "map_ok fl" and "request_in_range (T, MT, N, M)"
  shows "\<exists>st m fl'. MmAllocatePages T MT N M fl = Inr (st, m, fl') \<and> map_ok fl' \<and>
     (st = EFI_SUCCESS \<longleftrightarrow> (MT = EfiRuntimeServicesCode \<or> MT = EfiRuntimeServicesData) \<and>
        T \<noteq> MaxAllocateType \<and> can_grant (T, MT, N, M) fl) \<and>
     (if st = EFI_SUCCESS then granted (T, MT, N, M) fl m fl' else fl' = fl)"
proof -
  from serve_request_ok[OF assms] obtain st m fl' where r: "MmAllocatePages T MT N M fl = Inr (st, m, fl')"
    "map_ok fl'" "if st = EFI_SUCCESS then granted (T, MT, N, M) fl m fl' else fl' = fl \<and> EFI_ERROR st" by blast
  have "st = EFI_SUCCESS" if g: "MT = EfiRuntimeServicesCode \<or> MT = EfiRuntimeServicesData"
    "T \<noteq> MaxAllocateType" "can_grant (T, MT, N, M) fl"
    using serve_complete[OF assms g(1,2) granted_small[OF assms(1) _ g(3)] g(3)] assms(2) r(1) by auto
  moreover have "(MT = EfiRuntimeServicesCode \<or> MT = EfiRuntimeServicesData) \<and> T \<noteq> MaxAllocateType \<and>
      can_grant (T, MT, N, M) fl" if "st = EFI_SUCCESS"
  proof -
    have "MT = EfiRuntimeServicesCode \<or> MT = EfiRuntimeServicesData" "T \<noteq> MaxAllocateType"
      using r(1) that by (auto simp: MmAllocatePages_def MmInternalAllocatePages_def split: if_splits)
    with granted_can_grant r(3) that show ?thesis by auto
  qed
  moreover have "if st = EFI_SUCCESS then granted (T, MT, N, M) fl m fl' else fl' = fl" using r(3) by presburger
  ultimately show ?thesis using r(1,2) by blast
qed

text \<open>A map of two ranges of 16 and 4 pages.\<close>

definition ex_map :: memory_map where
  "ex_map = [(0x100000, 16), (0x200000, 4)]"

lemma ex_map_ok [simp]: "map_ok ex_map"
  by (simp add: map_ok_def ex_map_def wf_node_def node_end_def coalesced_def gap_def)

theorem MmAllocatePages_correct_witness:
  "MmAllocatePages AllocateMaxAddress EfiRuntimeServicesData 3 0x10FFFF ex_map =
     Inr (EFI_SUCCESS, 0x10D000, [(0x100000, 13), (0x200000, 4)]) \<and>
   map_ok [(0x100000, 13), (0x200000, 4)]"
proof -
  have e: "MmAllocatePages AllocateMaxAddress EfiRuntimeServicesData 3 0x10FFFF ex_map =
     Inr (EFI_SUCCESS, 0x10D000, [(0x100000, 13), (0x200000, 4)])" by code_simp
  have "request_in_range (AllocateMaxAddress, EfiRuntimeServicesData, 3, 0x10FFFF)" by simp
  from MmAllocatePages_correct[OF ex_map_ok this] e show ?thesis by auto
qed

text \<open>
  C18. \<^verbatim>\<open>MmFreePages\<close> is correct: a block of pages none of which is free becomes free, merged
  into the map, and a block that overlaps free memory, in particular a block released twice,
  is refused with \<^verbatim>\<open>EFI_INVALID_PARAMETER\<close> and an unchanged map.
\<close>

theorem MmFreePages_correct:
  assumes "map_ok fl" and "wf_node (m, n)"
  shows "if page_range (m, n) \<inter> free_pages fl = {}
     then \<exists>fl'. MmFreePages m n fl = Inr (EFI_SUCCESS, fl') \<and> map_ok fl' \<and>
            free_pages fl' = free_pages fl \<union> page_range (m, n) \<and>
            MmFreePages m n fl' = Inr (EFI_INVALID_PARAMETER, fl')
     else MmFreePages m n fl = Inr (EFI_INVALID_PARAMETER, fl)"
  using pages.release_cases[OF assms] by (simp only: release_pages.simps)

theorem MmFreePages_correct_witness:
  "MmFreePages 0x110000 2 ex_map = Inr (EFI_SUCCESS, [(0x100000, 18), (0x200000, 4)]) \<and>
   map_ok [(0x100000, 18), (0x200000, 4)]"
proof -
  have e: "MmFreePages 0x110000 2 ex_map = Inr (EFI_SUCCESS, [(0x100000, 18), (0x200000, 4)])" by code_simp
  have "wf_node (0x110000, 2)" by (simp add: wf_node_def node_end_def)
  from MmFreePages_correct[OF ex_map_ok this] e show ?thesis by (auto split: if_splits)
qed

text \<open>
  A request at an address whose size wraps around is not refused: \<open>2^52\<close> pages at the
  address of a node have size zero, the range check passes, and the node is linked into the
  list a second time.
\<close>

lemma AllocateAddress_wraps:
  "MmAllocatePages AllocateAddress EfiRuntimeServicesData 0x10000000000000 0x100000 ex_map = Inl ListCorrupted"
  by code_simp

section \<open>Adding a region\<close>

lemma align_up:
  assumes "unat b + 4095 < 2 ^ 64"
  shows "unat ((b + EFI_PAGE_MASK) AND NOT EFI_PAGE_MASK) = (unat b + 4095) div 4096 * 4096"
proof -
  have m: "EFI_PAGE_MASK = mask 12" by (simp add: EFI_PAGE_MASK_def mask_eq_exp_minus_1)
  have "x AND NOT (mask 12) = push_bit 12 (drop_bit 12 x)" for x :: UINT64
    by (rule bit_eqI) (auto simp: bit_simps)
  then have "(b + EFI_PAGE_MASK) AND NOT EFI_PAGE_MASK = EFI_PAGES_TO_SIZE (TRUNCATE_TO_PAGES (b + EFI_PAGE_MASK))"
    by (simp add: m EFI_PAGES_TO_SIZE_def TRUNCATE_TO_PAGES_def)
  moreover have "unat (b + EFI_PAGE_MASK) = unat b + 4095"
    using assms by (simp add: unat_add_small EFI_PAGE_MASK_def)
  moreover have "(unat b + 4095) div 4096 * 4096 < 2 ^ 64"
    using assms by (meson div_times_less_eq_dividend le_less_trans)
  ultimately show ?thesis by (simp add: unat_pages_to_size unat_truncate)
qed

text \<open>The pages that lie inside a region as a whole.\<close>

definition whole_pages :: "UINT64 \<Rightarrow> UINT64 \<Rightarrow> nat set" where
  "whole_pages b l = {p. unat b \<le> p * 4096 \<and> (p + 1) * 4096 \<le> unat b + unat l}"

definition aligned_base :: "UINT64 \<Rightarrow> UINT64" where
  "aligned_base b = (b + EFI_PAGE_MASK) AND NOT EFI_PAGE_MASK"

definition region_pages :: "UINT64 \<Rightarrow> UINT64 \<Rightarrow> UINT64" where
  "region_pages b l = TRUNCATE_TO_PAGES (l - (aligned_base b - b))"

text \<open>A region with at least one whole page that does not reach the end of the address space.\<close>

definition region_ok :: "UINT64 \<Rightarrow> UINT64 \<Rightarrow> bool" where
  "region_ok b l \<longleftrightarrow> 0 < b \<and> unat b + unat l < 2 ^ 64 \<and> (unat b + 4095) div 4096 * 4096 + 4096 \<le> unat b + unat l"

lemma region_node:
  assumes "region_ok b l"
  shows "wf_node (aligned_base b, region_pages b l)"
    and "page_range (aligned_base b, region_pages b l) = whole_pages b l"
proof -
  let ?A = "(unat b + 4095) div 4096 * 4096"
  have b: "0 < unat b" "unat b + unat l < 2 ^ 64" "?A + 4096 \<le> unat b + unat l"
    using assms by (auto simp: region_ok_def word_less_nat_alt)
  have A: "unat (aligned_base b) = ?A" using b unfolding aligned_base_def by (intro align_up) linarith
  have ge: "unat b \<le> ?A" by linarith
  have pad: "unat (aligned_base b - b) = ?A - unat b" using A ge by (simp add: unat_sub_small word_le_nat_alt)
  have len: "unat (l - (aligned_base b - b)) = unat b + unat l - ?A"
    using pad b ge by (subst unat_sub_small) (auto simp: word_le_nat_alt)
  have n: "unat (region_pages b l) = (unat b + unat l - ?A) div 4096"
    by (simp add: region_pages_def unat_truncate len)
  show "wf_node (aligned_base b, region_pages b l)"
    using b ge unfolding wf_node_def node_end_def fst_conv snd_conv A n by auto
  show "page_range (aligned_base b, region_pages b l) = whole_pages b l"
    using b(3) unfolding page_range_def whole_pages_def fst_conv snd_conv A n by auto
qed

lemma MmAddMemoryRegion_serve:
  assumes "Attributes AND skip = 0"
  shows "MmAddMemoryRegion skip b l Type Attributes fl =
    bind_result (MmFreePages (aligned_base b) (region_pages b l) fl) (\<lambda>(_, fl'). Inr fl')"
  using assms by (simp add: MmAddMemoryRegion_def Let_def aligned_base_def region_pages_def)

lemma add_region_ok:
  assumes "map_ok fl" and "region_ok b l" and "whole_pages b l \<inter> free_pages fl = {}"
    and "Attributes AND skip = 0"
  shows "\<exists>fl'. MmAddMemoryRegion skip b l Type Attributes fl = Inr fl' \<and> map_ok fl' \<and>
     free_pages fl' = free_pages fl \<union> whole_pages b l"
  using pages.release_cases[OF assms(1) region_node(1)[OF assms(2)]] assms(3)
  unfolding region_node(2)[OF assms(2)] MmAddMemoryRegion_serve[OF assms(4)] by auto

end
