(* ===== verification/PoolAlloc.thy ===== *)
theory PoolAlloc
  imports PageAlloc
begin

text \<open>
  \<^verbatim>\<open>Pool.c\<close> of \<^verbatim>\<open>SecurePartitionMemoryAllocationLib\<close>: pool buffers of six size classes, split
  from pages, and larger buffers made of whole pages. Every block starts with a header in the
  memory it manages. The state has the page allocator's map, the six free lists by the
  addresses of their nodes, head first, and the headers by address; a header is absent where
  memory has never held one or has gone back to the page allocator since.
\<close>

section \<open>Definitions\<close>

text \<open>\<^verbatim>\<open>Signature\<close> and \<^verbatim>\<open>Type\<close> are never read or written.\<close>

record POOL_HEADER =
  Available :: bool
  Size :: UINTN

definition SIZEOF_POOL_HEADER :: UINTN where "SIZEOF_POOL_HEADER = 24"

definition MIN_POOL_SHIFT :: nat where "MIN_POOL_SHIFT = 6"
definition MIN_POOL_SIZE :: UINTN where "MIN_POOL_SIZE = push_bit MIN_POOL_SHIFT 1"
definition MAX_POOL_SHIFT :: nat where "MAX_POOL_SHIFT = EFI_PAGE_SHIFT - 1"
definition MAX_POOL_SIZE :: UINTN where "MAX_POOL_SIZE = push_bit MAX_POOL_SHIFT 1"
definition MAX_POOL_INDEX :: nat where "MAX_POOL_INDEX = MAX_POOL_SHIFT - MIN_POOL_SHIFT + 1"

record pool_state =
  mMmMemoryMap :: memory_map
  mMmPoolLists :: "UINT64 list list"
  headers :: "UINT64 \<Rightarrow> POOL_HEADER option"

record EFI_MMRAM_DESCRIPTOR =
  PhysicalStart :: UINT64
  CpuStart :: UINT64
  PhysicalSize :: UINT64
  RegionState :: UINT64

text \<open>\<^verbatim>\<open>EFI_SIZE_TO_PAGES\<close>, and \<^verbatim>\<open>HighBitSet32\<close> of \<^verbatim>\<open>BaseLib\<close>: the index of the top bit, or -1.\<close>

definition EFI_SIZE_TO_PAGES :: "UINTN \<Rightarrow> UINTN" where
  "EFI_SIZE_TO_PAGES n = drop_bit EFI_PAGE_SHIFT n + (if n AND EFI_PAGE_MASK \<noteq> 0 then 1 else 0)"

definition HighBitSet32 :: "UINT32 \<Rightarrow> int" where
  "HighBitSet32 w = (case last_index (bit w) 32 of None \<Rightarrow> - 1 | Some i \<Rightarrow> int i)"

definition BASE_1MB :: UINT64 where "BASE_1MB = 0x100000"

fun add_regions :: "UINT64 \<Rightarrow> EFI_MMRAM_DESCRIPTOR list \<Rightarrow> memory_map \<Rightarrow> memory_map result" where
  "add_regions skip_mask [] fl = Inr fl"
| "add_regions skip_mask (d # ds) fl =
     (if CpuStart d < BASE_1MB then add_regions skip_mask ds fl
      else bind_result (MmAddMemoryRegion skip_mask (CpuStart d) (PhysicalSize d) EfiConventionalMemory
                          (RegionState d) fl)
             (add_regions skip_mask ds))"

definition MmInitializeMemoryServices :: "UINT64 \<Rightarrow> EFI_MMRAM_DESCRIPTOR list \<Rightarrow> pool_state \<Rightarrow> pool_state result" where
  "MmInitializeMemoryServices skip_mask MmramRanges s =
     bind_result (add_regions skip_mask MmramRanges (mMmMemoryMap s))
       (\<lambda>fl. Inr (s\<lparr>mMmMemoryMap := fl, mMmPoolLists := replicate MAX_POOL_INDEX []\<rparr>))"

definition put_header :: "UINT64 \<Rightarrow> bool \<Rightarrow> UINTN \<Rightarrow> pool_state \<Rightarrow> pool_state" where
  "put_header a av sz s = s\<lparr>headers := (headers s)(a \<mapsto> \<lparr>Available = av, Size = sz\<rparr>)\<rparr>"

definition get_header :: "UINT64 \<Rightarrow> pool_state \<Rightarrow> POOL_HEADER result" where
  "get_header a s = (case headers s a of None \<Rightarrow> Inl UninitialisedRead | Some h \<Rightarrow> Inr h)"

definition pool_class_size :: "nat \<Rightarrow> UINTN" where
  "pool_class_size i = push_bit i MIN_POOL_SIZE"

function InternalAllocPoolByIndex :: "nat \<Rightarrow> pool_state \<Rightarrow> (EFI_STATUS \<times> UINT64 \<times> pool_state) result" where
  "InternalAllocPoolByIndex PoolIndex s =
     (if \<not> PoolIndex \<le> MAX_POOL_INDEX then Inl AssertFail
      else if PoolIndex = MAX_POOL_INDEX
      then bind_result (MmInternalAllocatePages AllocateAnyPages EfiRuntimeServicesData
                          (EFI_SIZE_TO_PAGES (push_bit 1 MAX_POOL_SIZE)) 0 (mMmMemoryMap s))
             (\<lambda>(Status, Address, fl).
                if EFI_ERROR Status then Inr (EFI_OUT_OF_RESOURCES, 0, s\<lparr>mMmMemoryMap := fl\<rparr>)
                else Inr (Status, Address,
                          put_header Address False (pool_class_size PoolIndex) (s\<lparr>mMmMemoryMap := fl\<rparr>)))
      else (case mMmPoolLists s ! PoolIndex of
              Hdr # rest \<Rightarrow>
                Inr (EFI_SUCCESS, Hdr,
                     put_header Hdr False (pool_class_size PoolIndex)
                       (s\<lparr>mMmPoolLists := (mMmPoolLists s)[PoolIndex := rest]\<rparr>))
            | [] \<Rightarrow>
                bind_result (InternalAllocPoolByIndex (Suc PoolIndex) s)
                  (\<lambda>(Status, Hdr, s1).
                     if EFI_ERROR Status then Inr (Status, Hdr, s1)
                     else bind_result (get_header Hdr s1)
                            (\<lambda>h. let half = drop_bit 1 (Size h);
                                     s2 = put_header Hdr True half s1;
                                     s3 = s2\<lparr>mMmPoolLists := (mMmPoolLists s2)
                                               [PoolIndex := Hdr # mMmPoolLists s2 ! PoolIndex]\<rparr>;
                                     Hdr2 = Hdr + half
                                 in Inr (Status, Hdr2, put_header Hdr2 False (pool_class_size PoolIndex) s3)))))"
  by pat_completeness auto

termination InternalAllocPoolByIndex
  by (relation "measure (\<lambda>(i, s). MAX_POOL_INDEX - i)") auto

declare InternalAllocPoolByIndex.simps [simp del]

definition InternalFreePoolByIndex :: "UINT64 \<Rightarrow> pool_state \<Rightarrow> (EFI_STATUS \<times> pool_state) result" where
  "InternalFreePoolByIndex FreePoolHdr s =
     bind_result (get_header FreePoolHdr s)
       (\<lambda>h. ASSERT (Size h AND (Size h - 1) = 0)
             (ASSERT (FreePoolHdr AND (Size h - 1) = 0)
               (ASSERT (Size h \<ge> MIN_POOL_SIZE)
                 (let PoolIndex = word_of_int (HighBitSet32 (ucast (Size h)) - int MIN_POOL_SHIFT) :: UINTN;
                      s1 = put_header FreePoolHdr True (Size h) s
                  in if PoolIndex \<ge> of_nat MAX_POOL_INDEX
                     then ASSERT (PoolIndex < of_nat MAX_POOL_INDEX) (Inr (EFI_OUT_OF_RESOURCES, s1))
                     else Inr (EFI_SUCCESS,
                               s1\<lparr>mMmPoolLists := (mMmPoolLists s1)
                                    [unat PoolIndex := FreePoolHdr # mMmPoolLists s1 ! unat PoolIndex]\<rparr>)))))"

text \<open>The size class: the first power of two times \<^verbatim>\<open>MIN_POOL_SIZE\<close> that is large enough.\<close>

definition pool_index :: "UINTN \<Rightarrow> UINTN" where
  "pool_index Size1 =
     (let Size2 = drop_bit MIN_POOL_SHIFT (Size1 + MIN_POOL_SIZE - 1);
          i = word_of_int (HighBitSet32 (ucast Size2)) :: UINTN
      in if Size2 AND (Size2 - 1) \<noteq> 0 then i + 1 else i)"

definition MmInternalAllocatePool ::
  "EFI_MEMORY_TYPE \<Rightarrow> UINTN \<Rightarrow> UINT64 \<Rightarrow> pool_state \<Rightarrow> (EFI_STATUS \<times> UINT64 \<times> pool_state) result" where
  "MmInternalAllocatePool PoolType Size0 Buffer s =
     (if PoolType \<noteq> EfiRuntimeServicesCode \<and> PoolType \<noteq> EfiRuntimeServicesData
      then Inr (EFI_INVALID_PARAMETER, Buffer, s)
      else let Size1 = Size0 + SIZEOF_POOL_HEADER in
        if Size1 > MAX_POOL_SIZE
        then let Pages = EFI_SIZE_TO_PAGES Size1 in
          bind_result (MmInternalAllocatePages AllocateAnyPages PoolType Pages 0 (mMmMemoryMap s))
            (\<lambda>(Status, Address, fl).
               if EFI_ERROR Status then Inr (Status, Buffer, s\<lparr>mMmMemoryMap := fl\<rparr>)
               else Inr (Status, Address + SIZEOF_POOL_HEADER,
                         put_header Address False (EFI_PAGES_TO_SIZE Pages) (s\<lparr>mMmMemoryMap := fl\<rparr>)))
        else bind_result (InternalAllocPoolByIndex (unat (pool_index Size1)) s)
               (\<lambda>(Status, FreePoolHdr, s1).
                  Inr (Status, if EFI_ERROR Status then Buffer else FreePoolHdr + SIZEOF_POOL_HEADER, s1)))"

definition MmAllocatePool where
  "MmAllocatePool = MmInternalAllocatePool"

text \<open>Pages that go back to the page allocator lose the headers they held: its nodes overwrite them.\<close>

definition forget_headers :: "UINT64 \<Rightarrow> UINTN \<Rightarrow> pool_state \<Rightarrow> pool_state" where
  "forget_headers a n s =
     s\<lparr>headers := (\<lambda>x. if a \<le> x \<and> x - a < EFI_PAGES_TO_SIZE n then None else headers s x)\<rparr>"

definition pool_free_pages :: "UINT64 \<Rightarrow> UINTN \<Rightarrow> pool_state \<Rightarrow> (EFI_STATUS \<times> pool_state) result" where
  "pool_free_pages a n s =
     bind_result (MmInternalFreePages a n (mMmMemoryMap s))
       (\<lambda>(Status, fl). Inr (Status, if EFI_ERROR Status then s else forget_headers a n (s\<lparr>mMmMemoryMap := fl\<rparr>)))"

definition MmInternalFreePool :: "UINT64 \<Rightarrow> pool_state \<Rightarrow> (EFI_STATUS \<times> pool_state) result" where
  "MmInternalFreePool Buffer s =
     (if Buffer = 0 then Inr (EFI_INVALID_PARAMETER, s)
      else let FreePoolHdr = Buffer - SIZEOF_POOL_HEADER in
        bind_result (get_header FreePoolHdr s)
          (\<lambda>h. ASSERT (\<not> Available h)
            (if Size h > MAX_POOL_SIZE
             then ASSERT (FreePoolHdr AND EFI_PAGE_MASK = 0)
                    (ASSERT (Size h AND EFI_PAGE_MASK = 0)
                       (pool_free_pages FreePoolHdr (EFI_SIZE_TO_PAGES (Size h)) s))
             else InternalFreePoolByIndex FreePoolHdr s)))"

definition MmFreePool where
  "MmFreePool = MmInternalFreePool"

end
