(* ===== verification/PoolProperties.thy ===== *)
theory PoolProperties
  imports PoolAlloc PageContract
begin

text \<open>
  Correctness of the pool allocator on top of the page allocator: the free blocks of the six
  size classes and the free pages are disjoint sets of bytes, a buffer is taken out of their
  union and a release puts it back. Page and pool requests of one client may interleave.
\<close>

section \<open>Sizes\<close>

lemma pool_consts [simp]:
  "MIN_POOL_SHIFT = 6" "MAX_POOL_SHIFT = 11" "MAX_POOL_INDEX = 6" "MIN_POOL_SIZE = 64" "MAX_POOL_SIZE = 2048"
  "SIZEOF_POOL_HEADER = 24"
  by (simp_all add: MIN_POOL_SHIFT_def MAX_POOL_SHIFT_def MAX_POOL_INDEX_def MIN_POOL_SIZE_def MAX_POOL_SIZE_def
      SIZEOF_POOL_HEADER_def)

definition class_bytes :: "nat \<Rightarrow> nat" where
  "class_bytes i = 64 * 2 ^ i"

lemma class_bytes_pos [simp]: "0 < class_bytes i"
  by (simp add: class_bytes_def)

lemma class_bytes_Suc: "class_bytes (Suc i) = class_bytes i + class_bytes i"
  by (simp add: class_bytes_def)

lemma class_bytes_le: "i \<le> 6 \<Longrightarrow> class_bytes i \<le> 4096"
  using power_increasing[of i 6 "2::nat"] by (simp add: class_bytes_def)

lemma unat_class_size: "i \<le> 6 \<Longrightarrow> unat (pool_class_size i) = class_bytes i"
proof -
  assume i: "i \<le> 6"
  have "pool_class_size i = of_nat (class_bytes i)"
    by (simp add: pool_class_size_def class_bytes_def push_bit_eq_mult mult.commute)
  moreover have "class_bytes i < 2 ^ 64" using class_bytes_le[OF i] by simp
  ultimately show ?thesis by (simp add: unat_of_nat)
qed

lemma half_class: "i < 6 \<Longrightarrow> drop_bit 1 (pool_class_size (Suc i)) = pool_class_size i"
  by (simp add: word_unat_eq_iff drop_bit_eq_div unat_div_distrib unat_class_size class_bytes_Suc)

section \<open>Free bytes\<close>

definition free_bytes :: "memory_map \<Rightarrow> nat set" where
  "free_bytes fl = {x. x div 4096 \<in> free_pages fl}"

fun byte_range :: "UINT64 \<times> UINTN \<Rightarrow> nat set" where
  "byte_range (a, n) = {unat a ..< unat a + unat n}"

text \<open>The bytes of a block of pages.\<close>

definition page_bytes :: "UINT64 \<times> UINTN \<Rightarrow> nat set" where
  "page_bytes b = {unat (fst b) ..< node_end b}"

lemma page_bytes_range:
  assumes "wf_node b"
  shows "page_bytes b = {x. x div 4096 \<in> page_range b}"
proof -
  let ?p = "unat (fst b) div 4096"
  have a: "unat (fst b) = ?p * 4096" using assms by (auto simp: wf_node_def)
  have "x \<in> page_bytes b \<longleftrightarrow> x div 4096 \<in> page_range b" for x
    unfolding page_bytes_def page_range_def node_end_def
    by (subst (1 2) a) auto
  then show ?thesis by blast
qed

lemma free_bytes_iff:
  assumes "wf_node b"
  shows "page_bytes b \<subseteq> free_bytes fl \<longleftrightarrow> page_range b \<subseteq> free_pages fl"
    and "page_bytes b \<inter> free_bytes fl = {} \<longleftrightarrow> page_range b \<inter> free_pages fl = {}"
proof -
  have s: "p \<in> A \<longleftrightarrow> p * 4096 \<in> {x. x div 4096 \<in> A}" for p :: nat and A by simp
  show "page_bytes b \<subseteq> free_bytes fl \<longleftrightarrow> page_range b \<subseteq> free_pages fl"
    unfolding page_bytes_range[OF assms] free_bytes_def using s by blast
  show "page_bytes b \<inter> free_bytes fl = {} \<longleftrightarrow> page_range b \<inter> free_pages fl = {}"
    unfolding page_bytes_range[OF assms] free_bytes_def using s by blast
qed

lemma free_bytes_update:
  assumes "wf_node b"
  shows "free_pages fl' = free_pages fl - page_range b \<Longrightarrow> free_bytes fl' = free_bytes fl - page_bytes b"
    and "free_pages fl' = free_pages fl \<union> page_range b \<Longrightarrow> free_bytes fl' = free_bytes fl \<union> page_bytes b"
  by (auto simp: page_bytes_range[OF assms] free_bytes_def)

text \<open>The free blocks of the size classes, as pairs of the address and the class.\<close>

definition pool_set :: "pool_state \<Rightarrow> (UINT64 \<times> nat) set" where
  "pool_set s = {(a, i). i < 6 \<and> a \<in> set (mMmPoolLists s ! i)}"

fun class_range :: "UINT64 \<times> nat \<Rightarrow> nat set" where
  "class_range (a, i) = {unat a ..< unat a + class_bytes i}"

fun class_block :: "UINT64 \<times> nat \<Rightarrow> bool" where
  "class_block (a, i) \<longleftrightarrow> 0 < unat a \<and> unat a mod class_bytes i = 0 \<and> unat a + class_bytes i < 2 ^ 64"

definition pool_bytes :: "pool_state \<Rightarrow> nat set" where
  "pool_bytes s = free_bytes (mMmMemoryMap s) \<union> (\<Union>x \<in> pool_set s. class_range x)"

text \<open>The invariant.\<close>

definition pool_ok :: "pool_state \<Rightarrow> bool" where
  "pool_ok s \<longleftrightarrow> map_ok (mMmMemoryMap s) \<and> length (mMmPoolLists s) = 6 \<and>
     (\<forall>i<6. distinct (mMmPoolLists s ! i)) \<and>
     (\<forall>x \<in> pool_set s. class_block x \<and> class_range x \<inter> free_bytes (mMmMemoryMap s) = {}) \<and>
     pairwise (\<lambda>x y. class_range x \<inter> class_range y = {}) (pool_set s)"

lemma pool_okD:
  assumes "pool_ok s"
  shows "map_ok (mMmMemoryMap s)" "length (mMmPoolLists s) = 6" "i < 6 \<Longrightarrow> distinct (mMmPoolLists s ! i)"
    "x \<in> pool_set s \<Longrightarrow> class_block x"
    "x \<in> pool_set s \<Longrightarrow> class_range x \<inter> free_bytes (mMmMemoryMap s) = {}"
    "x \<in> pool_set s \<Longrightarrow> y \<in> pool_set s \<Longrightarrow> x \<noteq> y \<Longrightarrow> class_range x \<inter> class_range y = {}"
  using assms unfolding pool_ok_def pairwise_def by simp_all

lemma class_range_nonempty [simp]: "class_range x \<noteq> {}"
  by (cases x) simp

lemma put_header_frame [simp]:
  "mMmMemoryMap (put_header a v n s) = mMmMemoryMap s" "mMmPoolLists (put_header a v n s) = mMmPoolLists s"
  "headers (put_header a v n s) = (headers s)(a \<mapsto> \<lparr>Available = v, Size = n\<rparr>)"
  "pool_set (put_header a v n s) = pool_set s" "pool_bytes (put_header a v n s) = pool_bytes s"
  "pool_ok (put_header a v n s) = pool_ok s"
  by (simp_all add: put_header_def pool_set_def pool_bytes_def pool_ok_def)

lemma forget_headers_frame [simp]:
  "mMmMemoryMap (forget_headers a n s) = mMmMemoryMap s" "mMmPoolLists (forget_headers a n s) = mMmPoolLists s"
  "pool_set (forget_headers a n s) = pool_set s" "pool_bytes (forget_headers a n s) = pool_bytes s"
  "pool_ok (forget_headers a n s) = pool_ok s"
  by (simp_all add: forget_headers_def pool_set_def pool_bytes_def pool_ok_def)

section \<open>Free blocks come and go\<close>

text \<open>Linking in a block that overlaps nothing free.\<close>

definition push_block :: "nat \<Rightarrow> UINT64 \<Rightarrow> pool_state \<Rightarrow> pool_state" where
  "push_block i a s = s\<lparr>mMmPoolLists := (mMmPoolLists s)[i := a # mMmPoolLists s ! i]\<rparr>"

lemma push_block_ok:
  assumes ok: "pool_ok s" and i: "i < 6" and b: "class_block (a, i)"
    and d: "class_range (a, i) \<inter> pool_bytes s = {}"
  shows "pool_ok (push_block i a s)" and "pool_bytes (push_block i a s) = pool_bytes s \<union> class_range (a, i)"
proof -
  have len: "length (mMmPoolLists s) = 6" by (rule pool_okD[OF ok])
  have ps: "pool_set (push_block i a s) = insert (a, i) (pool_set s)"
    using i len by (auto simp: pool_set_def push_block_def nth_list_update split: if_splits)
  have m: "mMmMemoryMap (push_block i a s) = mMmMemoryMap s" by (simp add: push_block_def)
  show "pool_bytes (push_block i a s) = pool_bytes s \<union> class_range (a, i)"
    unfolding pool_bytes_def ps m by auto
  have apart: "class_range x \<inter> class_range (a, i) = {}" if "x \<in> pool_set s" for x
    using d that unfolding pool_bytes_def by auto
  have fresh: "a \<notin> set (mMmPoolLists s ! i)"
    using apart[of "(a, i)"] i class_range_nonempty[of "(a, i)"] by (auto simp: pool_set_def)
  have pw: "pairwise (\<lambda>x y. class_range x \<inter> class_range y = {}) (insert (a, i) (pool_set s))"
    using ok apart unfolding pairwise_insert pool_ok_def by (auto simp del: class_range.simps)
  have d0: "class_range (a, i) \<inter> free_bytes (mMmMemoryMap s) = {}" using d by (auto simp: pool_bytes_def)
  have dist: "j < 6 \<Longrightarrow> distinct (mMmPoolLists (push_block i a s) ! j)" for j
    using fresh i len pool_okD(3)[OF ok] by (auto simp: push_block_def nth_list_update)
  have len': "length (mMmPoolLists (push_block i a s)) = 6" using len by (simp add: push_block_def)
  show "pool_ok (push_block i a s)"
    unfolding pool_ok_def ps m using pw len' dist b d0 pool_okD(1,4,5)[OF ok]
    by (simp del: class_range.simps class_block.simps)
qed

text \<open>Taking the head of a list.\<close>

lemma pop_block_ok:
  assumes ok: "pool_ok s" and i: "i < 6" and l: "mMmPoolLists s ! i = a # rest"
  defines "s' \<equiv> s\<lparr>mMmPoolLists := (mMmPoolLists s)[i := rest]\<rparr>"
  shows "pool_ok s'" and "pool_bytes s' = pool_bytes s - class_range (a, i)"
    and "class_range (a, i) \<subseteq> pool_bytes s" and "class_block (a, i)"
proof -
  have len: "length (mMmPoolLists s) = 6" by (rule pool_okD[OF ok])
  have dis: "distinct (a # rest)" using pool_okD(3)[OF ok i] l by simp
  have ps: "pool_set s' = pool_set s - {(a, i)}"
    using i len l dis by (auto simp: pool_set_def s'_def nth_list_update split: if_splits)
  have m: "mMmMemoryMap s' = mMmMemoryMap s" by (simp add: s'_def)
  have mem: "(a, i) \<in> pool_set s" using i l by (simp add: pool_set_def)
  show "class_block (a, i)" by (rule pool_okD(4)[OF ok mem])
  show "class_range (a, i) \<subseteq> pool_bytes s" using mem unfolding pool_bytes_def by blast
  have "class_range x \<inter> class_range (a, i) = {}" if "x \<in> pool_set s'" for x
    using that pool_okD(6)[OF ok _ mem, of x] unfolding ps by blast
  moreover have "class_range (a, i) \<inter> free_bytes (mMmMemoryMap s) = {}" by (rule pool_okD(5)[OF ok mem])
  moreover have "pool_set s = insert (a, i) (pool_set s')" using mem ps by blast
  ultimately show "pool_bytes s' = pool_bytes s - class_range (a, i)"
    unfolding pool_bytes_def m by (simp del: class_range.simps) blast
  have dist: "j < 6 \<Longrightarrow> distinct (mMmPoolLists s' ! j)" for j
    using dis i len pool_okD(3)[OF ok] by (auto simp: s'_def nth_list_update)
  have pw: "pairwise (\<lambda>x y. class_range x \<inter> class_range y = {}) (pool_set s')"
    using ok unfolding ps pool_ok_def by (auto intro: pairwise_subset)
  show "pool_ok s'" unfolding pool_ok_def m
    using dist pw pool_okD(1,4,5)[OF ok] ps len by (auto simp: s'_def simp del: class_range.simps class_block.simps)
qed

text \<open>The memory map changes under the pool: pages outside the free blocks leave or join.\<close>

lemma map_change_ok:
  assumes ok: "pool_ok s" and fl: "map_ok fl"
    and d: "\<And>x. x \<in> pool_set s \<Longrightarrow> class_range x \<inter> free_bytes fl = {}"
  shows "pool_ok (s\<lparr>mMmMemoryMap := fl\<rparr>)"
    and "pool_bytes (s\<lparr>mMmMemoryMap := fl\<rparr>) = free_bytes fl \<union> (\<Union>x \<in> pool_set s. class_range x)"
proof -
  have ps: "pool_set (s\<lparr>mMmMemoryMap := fl\<rparr>) = pool_set s" by (simp add: pool_set_def)
  show "pool_ok (s\<lparr>mMmMemoryMap := fl\<rparr>)"
    using ok fl d unfolding pool_ok_def ps by (simp del: class_range.simps)
  show "pool_bytes (s\<lparr>mMmMemoryMap := fl\<rparr>) = free_bytes fl \<union> (\<Union>x \<in> pool_set s. class_range x)"
    by (simp add: pool_bytes_def ps)
qed

lemma take_pages_ok:
  assumes ok: "pool_ok s" and b: "wf_node b" and fl: "map_ok fl"
    and sub: "page_range b \<subseteq> free_pages (mMmMemoryMap s)"
    and fp: "free_pages fl = free_pages (mMmMemoryMap s) - page_range b"
  shows "pool_ok (s\<lparr>mMmMemoryMap := fl\<rparr>)" and "page_bytes b \<subseteq> pool_bytes s"
    and "pool_bytes (s\<lparr>mMmMemoryMap := fl\<rparr>) = pool_bytes s - page_bytes b"
proof -
  note fb = free_bytes_update(1)[OF b fp]
  have sub': "page_bytes b \<subseteq> free_bytes (mMmMemoryMap s)" using sub free_bytes_iff(1)[OF b] by blast
  have d: "class_range x \<inter> free_bytes fl = {}" if "x \<in> pool_set s" for x
    using pool_okD(5)[OF ok that] fb by blast
  show "pool_ok (s\<lparr>mMmMemoryMap := fl\<rparr>)" by (rule map_change_ok(1)[OF ok fl d])
  have pb: "pool_bytes (s\<lparr>mMmMemoryMap := fl\<rparr>) = free_bytes fl \<union> (\<Union>x \<in> pool_set s. class_range x)"
    by (rule map_change_ok(2)[OF ok fl d])
  show "page_bytes b \<subseteq> pool_bytes s" using sub' by (auto simp: pool_bytes_def)
  have "(\<Union>x \<in> pool_set s. class_range x) \<inter> page_bytes b = {}" using pool_okD(5)[OF ok] sub' by blast
  then show "pool_bytes (s\<lparr>mMmMemoryMap := fl\<rparr>) = pool_bytes s - page_bytes b"
    unfolding pb fb pool_bytes_def[of s] by (auto simp del: class_range.simps)
qed

lemma give_pages_ok:
  assumes ok: "pool_ok s" and b: "wf_node b" and fl: "map_ok fl"
    and d: "page_bytes b \<inter> pool_bytes s = {}"
    and fp: "free_pages fl = free_pages (mMmMemoryMap s) \<union> page_range b"
  shows "pool_ok (s\<lparr>mMmMemoryMap := fl\<rparr>)"
    and "pool_bytes (s\<lparr>mMmMemoryMap := fl\<rparr>) = pool_bytes s \<union> page_bytes b"
proof -
  note fb = free_bytes_update(2)[OF b fp]
  have d': "class_range x \<inter> free_bytes fl = {}" if "x \<in> pool_set s" for x
    using pool_okD(5)[OF ok that] d that unfolding fb pool_bytes_def by blast
  show "pool_ok (s\<lparr>mMmMemoryMap := fl\<rparr>)" by (rule map_change_ok(1)[OF ok fl d'])
  have pb: "pool_bytes (s\<lparr>mMmMemoryMap := fl\<rparr>) = free_bytes fl \<union> (\<Union>x \<in> pool_set s. class_range x)"
    by (rule map_change_ok(2)[OF ok fl d'])
  show "pool_bytes (s\<lparr>mMmMemoryMap := fl\<rparr>) = pool_bytes s \<union> page_bytes b"
    unfolding pb fb pool_bytes_def[of s] by (auto simp del: class_range.simps)
qed

section \<open>Allocation by size class\<close>

text \<open>A block of bytes leaves the pool; headers outside the pool are not touched.\<close>

definition taken :: "pool_state \<Rightarrow> UINT64 \<Rightarrow> UINTN \<Rightarrow> pool_state \<Rightarrow> bool" where
  "taken s a n s' \<longleftrightarrow> pool_ok s' \<and> byte_range (a, n) \<subseteq> pool_bytes s \<and>
     pool_bytes s' = pool_bytes s - byte_range (a, n) \<and>
     headers s' a = Some \<lparr>Available = False, Size = n\<rparr> \<and>
     (\<forall>x. unat x \<notin> pool_bytes s \<longrightarrow> headers s' x = headers s x)"

lemma class_byte_range: "i \<le> 6 \<Longrightarrow> byte_range (a, pool_class_size i) = class_range (a, i)"
  by (simp add: unat_class_size)

lemma page_byte_range:
  assumes "wf_node (a, n)"
  shows "byte_range (a, EFI_PAGES_TO_SIZE n) = page_bytes (a, n)"
  using assms by (simp add: page_bytes_def node_end_def unat_pages_to_size wf_node_def)

lemma take_pages_taken:
  assumes ok: "pool_ok s" and b: "wf_node (a, n)" and fl: "map_ok fl"
    and sub: "page_range (a, n) \<subseteq> free_pages (mMmMemoryMap s)"
    and fp: "free_pages fl = free_pages (mMmMemoryMap s) - page_range (a, n)"
  shows "taken s a (EFI_PAGES_TO_SIZE n) (put_header a False (EFI_PAGES_TO_SIZE n) (s\<lparr>mMmMemoryMap := fl\<rparr>))"
proof -
  note t = take_pages_ok[OF ok b fl sub fp]
  have "unat a \<in> pool_bytes s" using t(2) b by (auto simp: page_bytes_def wf_node_def node_end_def)
  with t show ?thesis unfolding taken_def page_byte_range[OF b] by auto
qed

lemma pages_alloc_any:
  assumes "map_ok fl" and "0 < N" and "MT = EfiRuntimeServicesCode \<or> MT = EfiRuntimeServicesData"
  shows "\<exists>st m fl'. MmInternalAllocatePages AllocateAnyPages MT N 0 fl = Inr (st, m, fl') \<and> map_ok fl' \<and>
     (st = EFI_SUCCESS \<and> wf_node (m, N) \<and> page_range (m, N) \<subseteq> free_pages fl \<and>
      free_pages fl' = free_pages fl - page_range (m, N) \<or> st = EFI_OUT_OF_RESOURCES \<and> fl' = fl)"
proof -
  have "request_in_range (AllocateAnyPages, MT, N, 0)" using assms(2) by simp
  from serve_request_ok[OF assms(1) this] obtain st m fl' where
    r: "MmAllocatePages AllocateAnyPages MT N 0 fl = Inr (st, m, fl')" "map_ok fl'"
    "if st = EFI_SUCCESS then granted (AllocateAnyPages, MT, N, 0) fl m fl' else fl' = fl \<and> EFI_ERROR st" by blast
  have "st = EFI_SUCCESS \<or> st = EFI_OUT_OF_RESOURCES"
    using r(1) assms(3) by (auto simp: MmAllocatePages_def MmInternalAllocatePages_def bind_result_Inr_iff split: if_splits)
  with r show ?thesis by (auto simp: granted_def MmAllocatePages_def)
qed

lemma split_taken:
  assumes t: "taken s h (pool_class_size (Suc i)) s1" and i: "i < 6" and cb: "class_block (h, Suc i)"
  defines "h2 \<equiv> h + pool_class_size i"
  shows "taken s h2 (pool_class_size i)
      (put_header h2 False (pool_class_size i) (push_block i h (put_header h True (pool_class_size i) s1)))"
    and "class_block (h2, i)"
proof -
  let ?c = "class_bytes i"
  have b: "unat h + (?c + ?c) < 2 ^ 64" "unat h mod (?c + ?c) = 0" "0 < unat h"
    using cb by (simp_all add: class_bytes_Suc)
  have h2: "unat h2 = unat h + ?c"
    using b i unfolding h2_def by (subst unat_add_small) (auto simp: unat_class_size)
  have "?c dvd unat h" using b(2) by (metis dvd_add_triv_left_iff dvd_refl dvd_trans mod_0_imp_dvd)
  then have m: "unat h mod ?c = 0" by simp
  have cbl: "class_block (h, i)" using b m by simp
  show cb2: "class_block (h2, i)" using b m h2 by simp
  have r1: "byte_range (h, pool_class_size (Suc i)) = class_range (h, i) \<union> class_range (h2, i)"
    using i by (auto simp: unat_class_size class_bytes_Suc h2)
  have disj: "class_range (h, i) \<inter> class_range (h2, i) = {}" by (auto simp: h2)
  have ok1: "pool_ok s1" and sub: "byte_range (h, pool_class_size (Suc i)) \<subseteq> pool_bytes s"
    and pb1: "pool_bytes s1 = pool_bytes s - byte_range (h, pool_class_size (Suc i))"
    and hd: "\<And>x. unat x \<notin> pool_bytes s \<Longrightarrow> headers s1 x = headers s x"
    using t unfolding taken_def by blast+
  have d: "class_range (h, i) \<inter> pool_bytes (put_header h True (pool_class_size i) s1) = {}"
    using pb1 r1 by (auto simp del: class_range.simps)
  note push = push_block_ok[OF _ i cbl d, simplified put_header_frame, OF ok1]
  have mem: "unat h \<in> pool_bytes s" "unat h2 \<in> pool_bytes s"
    using sub unfolding r1 by (auto simp: h2)
  have hs: "headers (push_block i h (put_header h True (pool_class_size i) s1)) =
      (headers s1)(h \<mapsto> \<lparr>Available = True, Size = pool_class_size i\<rparr>)" by (simp add: push_block_def)
  have pb: "pool_bytes s - (class_range (h, i) \<union> class_range (h2, i)) \<union> class_range (h, i) =
      pool_bytes s - class_range (h2, i)"
    using disj sub unfolding r1 by blast
  have i6: "i \<le> 6" using i by simp
  show "taken s h2 (pool_class_size i)
      (put_header h2 False (pool_class_size i) (push_block i h (put_header h True (pool_class_size i) s1)))"
    unfolding taken_def put_header_frame hs class_byte_range[OF i6] push(2) pb1 r1 pb
    using push(1) sub hd mem unfolding r1 by (auto simp del: class_range.simps)
qed

lemma one_page_taken:
  assumes ok: "pool_ok s"
  shows "\<exists>st h s'. InternalAllocPoolByIndex 6 s = Inr (st, h, s') \<and>
     (st = EFI_SUCCESS \<and> class_block (h, 6) \<and> taken s h (pool_class_size 6) s' \<or>
      st = EFI_OUT_OF_RESOURCES \<and> s' = s)"
proof -
  have one: "EFI_SIZE_TO_PAGES (push_bit 1 MAX_POOL_SIZE) = 1"
    by (simp add: EFI_SIZE_TO_PAGES_def EFI_PAGE_MASK_def)
  have sz: "pool_class_size 6 = EFI_PAGES_TO_SIZE 1"
    by (simp add: pool_class_size_def EFI_PAGES_TO_SIZE_def)
  from pages_alloc_any[OF pool_okD(1)[OF ok], of 1 EfiRuntimeServicesData] obtain st m fl where
    r: "MmInternalAllocatePages AllocateAnyPages EfiRuntimeServicesData 1 0 (mMmMemoryMap s) = Inr (st, m, fl)"
    "map_ok fl" and c: "st = EFI_SUCCESS \<and> wf_node (m, 1) \<and> page_range (m, 1) \<subseteq> free_pages (mMmMemoryMap s) \<and>
      free_pages fl = free_pages (mMmMemoryMap s) - page_range (m, 1) \<or>
      st = EFI_OUT_OF_RESOURCES \<and> fl = mMmMemoryMap s" by auto
  note def = InternalAllocPoolByIndex.simps[of 6 s, unfolded pool_consts one[unfolded pool_consts]]
  from c show ?thesis
  proof (elim disjE conjE)
    assume st: "st = EFI_SUCCESS" and w: "wf_node (m, 1)" "page_range (m, 1) \<subseteq> free_pages (mMmMemoryMap s)"
      "free_pages fl = free_pages (mMmMemoryMap s) - page_range (m, 1)"
    have "class_block (m, 6)" using w(1) by (simp add: wf_node_def node_end_def class_bytes_def)
    with st r take_pages_taken[OF ok w(1) r(2) w(2,3)] show ?thesis unfolding def by (simp add: sz)
  next
    assume "st = EFI_OUT_OF_RESOURCES" "fl = mMmMemoryMap s"
    with r show ?thesis unfolding def by simp
  qed
qed

lemma InternalAllocPoolByIndex_ok:
  assumes "pool_ok s" and "i \<le> 6"
  shows "\<exists>st h s'. InternalAllocPoolByIndex i s = Inr (st, h, s') \<and>
     (st = EFI_SUCCESS \<and> class_block (h, i) \<and> taken s h (pool_class_size i) s' \<or>
      st = EFI_OUT_OF_RESOURCES \<and> s' = s)"
  using assms(2)
proof (induction i rule: inc_induct)
  case base
  show ?case by (rule one_page_taken[OF assms(1)])
next
  case (step i)
  note def = InternalAllocPoolByIndex.simps[of i s, unfolded pool_consts]
  have i: "i \<le> 6" "i \<noteq> 6" "i < 6" using step.hyps by simp_all
  show ?case
  proof (cases "mMmPoolLists s ! i")
    case (Cons a rest)
    note pop = pop_block_ok[OF assms(1) i(3) Cons]
    have "unat a \<in> pool_bytes s" using pop(3) by auto
    with pop Cons i show ?thesis unfolding def taken_def class_byte_range[OF i(1)]
      by (auto simp del: class_range.simps class_block.simps)
  next
    case Nil
    from step.IH obtain st h s1 where r: "InternalAllocPoolByIndex (Suc i) s = Inr (st, h, s1)"
      and c: "st = EFI_SUCCESS \<and> class_block (h, Suc i) \<and> taken s h (pool_class_size (Suc i)) s1 \<or>
        st = EFI_OUT_OF_RESOURCES \<and> s1 = s" by blast
    from c show ?thesis
    proof (elim disjE conjE)
      assume st: "st = EFI_SUCCESS" and cb: "class_block (h, Suc i)" and t: "taken s h (pool_class_size (Suc i)) s1"
      have "get_header h s1 = Inr \<lparr>Available = False, Size = pool_class_size (Suc i)\<rparr>"
        using t by (simp add: taken_def get_header_def)
      with st r Nil i split_taken[OF t i(3) cb] show ?thesis
        unfolding def by (simp add: Let_def half_class[unfolded One_nat_def] push_block_def del: class_block.simps)
    next
      assume "st = EFI_OUT_OF_RESOURCES" "s1 = s"
      with r Nil i show ?thesis unfolding def by simp
    qed
  qed
qed

end
