(* ===== verification/PoolContract.thy ===== *)
theory PoolContract
  imports PoolProperties
begin

text \<open>
  The memory services as a whole: pool buffers and pages from one state keep the allocator
  contract over bytes, for any interleaving of \<^verbatim>\<open>MmAllocatePages\<close>, \<^verbatim>\<open>MmFreePages\<close>,
  \<^verbatim>\<open>MmAllocatePool\<close> and \<^verbatim>\<open>MmFreePool\<close>.
\<close>

section \<open>Block sizes\<close>

lemma units_index_table:
  "list_all (\<lambda>k. let w = of_nat k :: UINTN; i = word_of_int (HighBitSet32 (ucast w)) :: UINTN;
       j = unat (if w AND (w - 1) \<noteq> 0 then i + 1 else i)
     in j < 6 \<and> k \<le> 2 ^ j \<and> (j = 0 \<or> 2 ^ (j - 1) < k)) [1..<33]"
  by code_simp

text \<open>The smallest size class that holds the request and its header.\<close>

lemma pool_index_ok:
  fixes S :: UINTN
  assumes "0 < S" and "S \<le> 2048"
  defines "j \<equiv> unat (pool_index S)"
  shows "j < 6" and "unat S \<le> class_bytes j" and "j = 0 \<or> class_bytes (j - 1) < unat S"
proof -
  have S: "0 < unat S" "unat S \<le> 2048" using assms(1,2) by (simp_all add: word_less_nat_alt word_le_nat_alt)
  let ?k = "(unat S + 63) div 64"
  have a: "unat (S + MIN_POOL_SIZE - 1) = unat S + 63"
  proof -
    have "S + MIN_POOL_SIZE - 1 = S + 63" by simp
    then show ?thesis using S by (simp only:) (subst unat_add_small, auto)
  qed
  have w: "drop_bit MIN_POOL_SHIFT (S + MIN_POOL_SIZE - 1) = of_nat ?k"
  proof -
    have "unat (drop_bit 6 (S + MIN_POOL_SIZE - 1)) = ?k" by (simp only: drop_bit_eq_div unat_div_distrib a) simp
    then show ?thesis by (metis pool_consts(1) of_nat_unat ucast_id)
  qed
  have k: "?k \<in> set [1..<33]" using S by auto
  have "j < 6 \<and> ?k \<le> 2 ^ j \<and> (j = 0 \<or> 2 ^ (j - 1) < ?k)"
    using units_index_table[unfolded list_all_iff, rule_format, OF k] unfolding j_def pool_index_def w Let_def .
  then show "j < 6" "unat S \<le> class_bytes j" "j = 0 \<or> class_bytes (j - 1) < unat S"
    by (auto simp: class_bytes_def)
qed

lemma ceil_pages_le: "n \<le> (n + 4095) div 4096 * (4096 :: nat)"
  using div_mult_mod_eq[of "n + 4095" 4096] mod_less_divisor[of 4096 "n + 4095"] by linarith

lemma ceil_pages: "n mod 4096 \<noteq> 0 \<Longrightarrow> (n + 4095) div 4096 = n div 4096 + (1 :: nat)"
proof -
  assume m: "n mod 4096 \<noteq> 0"
  obtain q r where qr: "q = n div 4096" "r = n mod 4096" by blast
  have n: "n = 4096 * q + r" unfolding qr by simp
  have r: "0 < r" "r < 4096" using m qr by simp_all
  show ?thesis unfolding qr(1)[symmetric] using r by (intro div_nat_eqI) (simp_all add: n)
qed

lemma unat_size_to_pages:
  assumes "unat n + 4095 < 2 ^ 64"
  shows "unat (EFI_SIZE_TO_PAGES n) = (unat n + 4095) div 4096"
proof -
  have d: "unat (drop_bit 12 n) = unat n div 4096" by (simp add: drop_bit_eq_div unat_div_distrib)
  show ?thesis
  proof (cases "n AND EFI_PAGE_MASK = 0")
    case True
    then have "unat n mod 4096 = 0" by (simp add: page_aligned_iff)
    with True d show ?thesis by (auto simp: EFI_SIZE_TO_PAGES_def)
  next
    case False
    then have "unat n mod 4096 \<noteq> 0" by (simp add: page_aligned_iff)
    then have "(unat n + 4095) div 4096 = unat n div 4096 + 1" by (rule ceil_pages)
    moreover have "unat (drop_bit 12 n + 1 :: UINT64) = unat n div 4096 + 1"
      using d assms by (subst unat_add_small) auto
    ultimately show ?thesis using False by (simp add: EFI_SIZE_TO_PAGES_def)
  qed
qed

text \<open>The bytes \<^verbatim>\<open>MmAllocatePool\<close> sets aside for a request.\<close>

definition pool_block_size :: "UINTN \<Rightarrow> UINTN" where
  "pool_block_size sz =
     (let S = sz + SIZEOF_POOL_HEADER
      in if S > MAX_POOL_SIZE then EFI_PAGES_TO_SIZE (EFI_SIZE_TO_PAGES S)
         else pool_class_size (unat (pool_index S)))"

definition size_in_range :: "UINTN \<Rightarrow> bool" where
  "size_in_range sz \<longleftrightarrow> unat sz + 8192 < 2 ^ 64"

lemma size_plus_header:
  assumes "size_in_range sz"
  shows "unat (sz + SIZEOF_POOL_HEADER) = unat sz + 24"
  using assms by (simp add: size_in_range_def unat_add_small)

lemma large_pages:
  assumes "size_in_range sz" and "sz + SIZEOF_POOL_HEADER > MAX_POOL_SIZE"
  defines "N \<equiv> EFI_SIZE_TO_PAGES (sz + SIZEOF_POOL_HEADER)"
  shows "unat N = (unat sz + 24 + 4095) div 4096" and "0 < N" and "unat (EFI_PAGES_TO_SIZE N) = unat N * 4096"
    and "unat sz + 24 \<le> unat N * 4096" and "2048 < unat N * 4096"
proof -
  note s = size_plus_header[OF assms(1)]
  show N: "unat N = (unat sz + 24 + 4095) div 4096"
    using assms(1) s unfolding N_def by (subst unat_size_to_pages) (auto simp: size_in_range_def)
  have g: "2048 < unat sz + 24" using assms(2) s by (simp add: word_less_nat_alt)
  show "unat sz + 24 \<le> unat N * 4096" unfolding N by (rule ceil_pages_le)
  then show "2048 < unat N * 4096" using g by simp
  then show "0 < N" by (simp add: word_less_nat_alt)
  show "unat (EFI_PAGES_TO_SIZE N) = unat N * 4096"
    using assms(1) unfolding size_in_range_def by (intro unat_pages_to_size) (simp add: N)
qed

lemma small_class:
  assumes "size_in_range sz" and "\<not> sz + SIZEOF_POOL_HEADER > MAX_POOL_SIZE"
  defines "j \<equiv> unat (pool_index (sz + SIZEOF_POOL_HEADER))"
  shows "j < 6" and "unat sz + 24 \<le> class_bytes j" and "j = 0 \<or> class_bytes (j - 1) < unat sz + 24"
proof -
  note s = size_plus_header[OF assms(1)]
  have "0 < sz + SIZEOF_POOL_HEADER" using s by (simp add: word_less_nat_alt)
  moreover have "sz + SIZEOF_POOL_HEADER \<le> 2048" using assms(2) by simp
  ultimately show "j < 6" "unat sz + 24 \<le> class_bytes j" "j = 0 \<or> class_bytes (j - 1) < unat sz + 24"
    using pool_index_ok[of "sz + SIZEOF_POOL_HEADER"] s unfolding j_def by auto
qed

section \<open>Pool buffers\<close>

text \<open>A block is of a size class, or made of whole pages.\<close>

definition pool_shape :: "UINT64 \<Rightarrow> UINTN \<Rightarrow> bool" where
  "pool_shape h n \<longleftrightarrow> (\<exists>i<6. n = pool_class_size i \<and> class_block (h, i)) \<or>
     (\<exists>N. n = EFI_PAGES_TO_SIZE N \<and> wf_node (h, N))"

definition pool_held :: "pool_state \<Rightarrow> UINT64 \<Rightarrow> UINTN \<Rightarrow> bool" where
  "pool_held s h n \<longleftrightarrow> headers s h = Some \<lparr>Available = False, Size = n\<rparr> \<and> pool_shape h n \<and>
     byte_range (h, n) \<inter> pool_bytes s = {}"

lemma pool_shape_bounds:
  assumes "pool_shape h n"
  shows "64 \<le> unat n" and "0 < unat h" and "unat h + unat n < 2 ^ 64" and "unat h mod 64 = 0"
proof -
  have "64 \<le> unat n \<and> 0 < unat h \<and> unat h + unat n < 2 ^ 64 \<and> 64 dvd unat h"
    using assms unfolding pool_shape_def
  proof (elim disjE exE conjE)
    fix i assume i: "i < (6 :: nat)" "n = pool_class_size i" "class_block (h, i)"
    have "64 dvd class_bytes i" by (simp add: class_bytes_def)
    then have "64 dvd unat h" using i(3) by (metis class_block.simps dvd_trans mod_0_imp_dvd)
    with i show ?thesis by (simp add: unat_class_size) (simp add: class_bytes_def)
  next
    fix N assume N: "n = EFI_PAGES_TO_SIZE N" "wf_node (h, N)"
    then have "unat n = unat N * 4096" by (simp add: unat_pages_to_size wf_node_def node_end_def)
    moreover have "4096 dvd unat h" using N(2) by (auto simp: wf_node_def)
    then have "64 dvd unat h" by (rule dvd_trans[rotated]) simp
    ultimately show ?thesis using N(2) by (simp add: wf_node_def node_end_def)
  qed
  then show "64 \<le> unat n" "0 < unat h" "unat h + unat n < 2 ^ 64" "unat h mod 64 = 0" by simp_all
qed

definition pool_alloc_result :: "pool_state \<Rightarrow> UINTN \<Rightarrow> UINT64 \<Rightarrow> EFI_STATUS \<times> UINT64 \<times> pool_state \<Rightarrow> bool" where
  "pool_alloc_result s sz Buffer x = (case x of (st, b, s') \<Rightarrow>
     if st = EFI_SUCCESS
     then taken s (b - SIZEOF_POOL_HEADER) (pool_block_size sz) s' \<and>
          pool_shape (b - SIZEOF_POOL_HEADER) (pool_block_size sz)
     else s' = s \<and> b = Buffer \<and> EFI_ERROR st)"

lemma MmAllocatePool_large:
  assumes ok: "pool_ok s" and sz: "size_in_range sz" and large: "sz + SIZEOF_POOL_HEADER > MAX_POOL_SIZE"
    and PT: "PT = EfiRuntimeServicesCode \<or> PT = EfiRuntimeServicesData"
  shows "\<exists>x. MmAllocatePool PT sz Buffer s = Inr x \<and> pool_alloc_result s sz Buffer x"
proof -
  let ?N = "EFI_SIZE_TO_PAGES (sz + SIZEOF_POOL_HEADER)"
  have bs: "pool_block_size sz = EFI_PAGES_TO_SIZE ?N" using large by (simp add: pool_block_size_def)
  have nt: "\<not> (PT \<noteq> EfiRuntimeServicesCode \<and> PT \<noteq> EfiRuntimeServicesData)" using PT by blast
  from pages_alloc_any[OF pool_okD(1)[OF ok] large_pages(2)[OF sz large] PT] obtain st m fl where
    r: "MmInternalAllocatePages AllocateAnyPages PT ?N 0 (mMmMemoryMap s) = Inr (st, m, fl)" "map_ok fl"
    and c: "st = EFI_SUCCESS \<and> wf_node (m, ?N) \<and> page_range (m, ?N) \<subseteq> free_pages (mMmMemoryMap s) \<and>
      free_pages fl = free_pages (mMmMemoryMap s) - page_range (m, ?N) \<or>
      st = EFI_OUT_OF_RESOURCES \<and> fl = mMmMemoryMap s" by blast
  note def = MmInternalAllocatePool_def[of PT sz Buffer s, folded MmAllocatePool_def, unfolded Let_def
      if_not_P[OF nt] if_P[OF large] r(1) bind_result_simps prod.case]
  from c show ?thesis
  proof (elim disjE conjE)
    assume st: "st = EFI_SUCCESS" and w: "wf_node (m, ?N)" "page_range (m, ?N) \<subseteq> free_pages (mMmMemoryMap s)"
      "free_pages fl = free_pages (mMmMemoryMap s) - page_range (m, ?N)"
    have "pool_shape m (EFI_PAGES_TO_SIZE ?N)" using w(1) unfolding pool_shape_def by blast
    with take_pages_taken[OF ok w(1) r(2) w(2,3)] st show ?thesis
      unfolding def by (simp add: pool_alloc_result_def bs)
  next
    assume "st = EFI_OUT_OF_RESOURCES" "fl = mMmMemoryMap s"
    then show ?thesis unfolding def by (simp add: pool_alloc_result_def)
  qed
qed

lemma MmAllocatePool_small:
  assumes ok: "pool_ok s" and sz: "size_in_range sz" and small: "\<not> sz + SIZEOF_POOL_HEADER > MAX_POOL_SIZE"
    and PT: "PT = EfiRuntimeServicesCode \<or> PT = EfiRuntimeServicesData"
  shows "\<exists>x. MmAllocatePool PT sz Buffer s = Inr x \<and> pool_alloc_result s sz Buffer x"
proof -
  let ?j = "unat (pool_index (sz + SIZEOF_POOL_HEADER))"
  have bs: "pool_block_size sz = pool_class_size ?j" using small by (simp add: pool_block_size_def)
  have nt: "\<not> (PT \<noteq> EfiRuntimeServicesCode \<and> PT \<noteq> EfiRuntimeServicesData)" using PT by blast
  have j: "?j < 6" by (rule small_class[OF sz small])
  from InternalAllocPoolByIndex_ok[OF ok less_imp_le[OF j]] obtain st h s' where
    r: "InternalAllocPoolByIndex ?j s = Inr (st, h, s')"
    and c: "st = EFI_SUCCESS \<and> class_block (h, ?j) \<and> taken s h (pool_class_size ?j) s' \<or>
      st = EFI_OUT_OF_RESOURCES \<and> s' = s" by blast
  note def = MmInternalAllocatePool_def[of PT sz Buffer s, folded MmAllocatePool_def, unfolded Let_def
      if_not_P[OF nt] if_not_P[OF small] r bind_result_simps prod.case]
  from c show ?thesis
  proof (elim disjE conjE)
    assume st: "st = EFI_SUCCESS" and h: "class_block (h, ?j)" "taken s h (pool_class_size ?j) s'"
    have "pool_shape h (pool_class_size ?j)" using h(1) j unfolding pool_shape_def by blast
    with h(2) st show ?thesis unfolding def by (simp add: pool_alloc_result_def bs)
  next
    assume "st = EFI_OUT_OF_RESOURCES" "s' = s"
    then show ?thesis unfolding def by (simp add: pool_alloc_result_def)
  qed
qed

lemma MmAllocatePool_ok:
  assumes ok: "pool_ok s" and sz: "size_in_range sz"
  shows "\<exists>st b s'. MmAllocatePool PT sz Buffer s = Inr (st, b, s') \<and>
     (if st = EFI_SUCCESS
      then taken s (b - SIZEOF_POOL_HEADER) (pool_block_size sz) s' \<and>
           pool_shape (b - SIZEOF_POOL_HEADER) (pool_block_size sz)
      else s' = s \<and> b = Buffer \<and> EFI_ERROR st)"
proof (cases "PT = EfiRuntimeServicesCode \<or> PT = EfiRuntimeServicesData")
  case False
  then show ?thesis by (simp add: MmAllocatePool_def MmInternalAllocatePool_def)
next
  case True
  then obtain x where "MmAllocatePool PT sz Buffer s = Inr x" "pool_alloc_result s sz Buffer x"
    using MmAllocatePool_large[OF ok sz] MmAllocatePool_small[OF ok sz] by blast
  then show ?thesis by (cases x) (simp add: pool_alloc_result_def)
qed

text \<open>What the asserts and the index computation of \<^verbatim>\<open>InternalFreePoolByIndex\<close> see.\<close>

lemma class_size_table:
  "list_all (\<lambda>i. let n = pool_class_size i in n AND (n - 1) = 0 \<and> n \<ge> MIN_POOL_SIZE \<and> \<not> n > MAX_POOL_SIZE \<and>
     n - 1 = mask (6 + i) \<and> word_of_int (HighBitSet32 (ucast n) - int MIN_POOL_SHIFT) = (of_nat i :: UINTN) \<and>
     \<not> (of_nat i :: UINTN) \<ge> of_nat MAX_POOL_INDEX \<and> unat (of_nat i :: UINTN) = i) [0..<6]"
  by code_simp

lemma class_aligned:
  assumes "class_block (h, i)" and "i < 6"
  shows "h AND mask (6 + i) = 0"
proof -
  have "unat (h AND mask (6 + i)) = unat h mod 2 ^ (6 + i)"
    unfolding take_bit_eq_mask[symmetric] by (subst unsigned_take_bit_eq) (use assms(2) in \<open>simp_all add: take_bit_eq_mod\<close>)
  also have "\<dots> = 0" using assms(1) by (simp add: class_bytes_def power_add)
  finally show ?thesis by (simp add: unat_eq_0)
qed

lemma InternalFreePoolByIndex_serve:
  assumes cb: "class_block (h, i)" and i: "i < 6"
    and hd: "headers s h = Some \<lparr>Available = v, Size = pool_class_size i\<rparr>"
  shows "InternalFreePoolByIndex h s =
     Inr (EFI_SUCCESS, push_block i h (put_header h True (pool_class_size i) s))"
proof -
  have "i \<in> set [0..<6]" using i by simp
  note t = class_size_table[unfolded list_all_iff, rule_format, OF this, unfolded Let_def]
  have a: "h AND (pool_class_size i - 1) = 0" using class_aligned[OF cb i] t by simp
  have g: "get_header h s = Inr \<lparr>Available = v, Size = pool_class_size i\<rparr>" using hd by (simp add: get_header_def)
  have c1: "pool_class_size i AND (pool_class_size i - 1) = 0" and c2: "pool_class_size i \<ge> MIN_POOL_SIZE"
    and c3: "word_of_int (HighBitSet32 (ucast (pool_class_size i)) - int MIN_POOL_SHIFT) = (of_nat i :: UINTN)"
    and c4: "\<not> (of_nat i :: UINTN) \<ge> of_nat MAX_POOL_INDEX" and c5: "unat (of_nat i :: UINTN) = i"
    using t by blast+
  show ?thesis
    unfolding InternalFreePoolByIndex_def g bind_result_simps POOL_HEADER.select_convs Let_def c3 if_not_P[OF c4] c5
    using a c1 c2 by (simp only: ASSERT_simps push_block_def simp_thms)
qed

section \<open>Release of a buffer\<close>

lemma after_header:
  assumes "unat h + 24 < 2 ^ 64"
  shows "(h :: UINT64) + SIZEOF_POOL_HEADER \<noteq> 0"
proof -
  have "unat (h + SIZEOF_POOL_HEADER) = unat h + 24" using assms by (subst unat_add_small) simp_all
  then show ?thesis by (metis add_is_0 unat_0 zero_neq_numeral)
qed

lemma size_pages_inverse:
  assumes N: "unat N * 4096 < 2 ^ 64"
  shows "EFI_SIZE_TO_PAGES (EFI_PAGES_TO_SIZE N) = N"
proof -
  note u = unat_pages_to_size[OF N]
  have "EFI_PAGES_TO_SIZE N AND EFI_PAGE_MASK = 0" by (simp add: page_aligned_iff u)
  moreover have "unat (drop_bit 12 (EFI_PAGES_TO_SIZE N)) = unat N" by (simp add: drop_bit_eq_div unat_div_distrib u)
  ultimately show ?thesis by (simp add: EFI_SIZE_TO_PAGES_def word_unat_eq_iff)
qed

lemma byte_range_words:
  assumes "unat a + unat n < 2 ^ 64"
  shows "(a \<le> x \<and> x - a < n) \<longleftrightarrow> unat x \<in> byte_range (a, n)"
  using assms by (auto simp: word_le_nat_alt word_less_nat_alt unat_sub_small)

text \<open>A block of bytes joins the pool; headers outside the block are not touched.\<close>

definition given :: "pool_state \<Rightarrow> nat set \<Rightarrow> pool_state \<Rightarrow> bool" where
  "given s B s' \<longleftrightarrow> pool_ok s' \<and> pool_bytes s' = pool_bytes s \<union> B \<and>
     (\<forall>x. unat x \<notin> B \<longrightarrow> headers s' x = headers s x)"

lemma pool_free_pages_ok:
  assumes ok: "pool_ok s" and b: "wf_node (a, n)" and d: "page_bytes (a, n) \<inter> pool_bytes s = {}"
  shows "\<exists>s'. pool_free_pages a n s = Inr (EFI_SUCCESS, s') \<and> given s (page_bytes (a, n)) s'"
proof -
  have "page_range (a, n) \<inter> free_pages (mMmMemoryMap s) = {}"
    using d free_bytes_iff(2)[OF b] unfolding pool_bytes_def by blast
  with pages.release_cases[OF pool_okD(1)[OF ok] b] obtain fl where
    fl: "MmInternalFreePages a n (mMmMemoryMap s) = Inr (EFI_SUCCESS, fl)" "map_ok fl"
    "free_pages fl = free_pages (mMmMemoryMap s) \<union> page_range (a, n)" by (auto simp: MmFreePages_def)
  note g = give_pages_ok[OF ok b fl(2) d fl(3)]
  have br: "byte_range (a, EFI_PAGES_TO_SIZE n) = page_bytes (a, n)" by (rule page_byte_range[OF b])
  have "unat a + unat (EFI_PAGES_TO_SIZE n) < 2 ^ 64"
    using b by (simp add: wf_node_def node_end_def unat_pages_to_size)
  note w = byte_range_words[OF this, unfolded br]
  have "headers (forget_headers a n (s\<lparr>mMmMemoryMap := fl\<rparr>)) x = headers s x" if "unat x \<notin> page_bytes (a, n)" for x
    using that w[of x] by (auto simp: forget_headers_def)
  with g fl(1) show ?thesis by (auto simp: pool_free_pages_def given_def)
qed

lemma MmFreePool_ok:
  assumes ok: "pool_ok s" and h: "pool_held s h n"
  shows "\<exists>s'. MmFreePool (h + SIZEOF_POOL_HEADER) s = Inr (EFI_SUCCESS, s') \<and> given s (byte_range (h, n)) s'"
proof -
  have hd: "headers s h = Some \<lparr>Available = False, Size = n\<rparr>" and sh: "pool_shape h n"
    and d: "byte_range (h, n) \<inter> pool_bytes s = {}" using h unfolding pool_held_def by blast+
  note bd = pool_shape_bounds[OF sh]
  have nz: "h + SIZEOF_POOL_HEADER \<noteq> 0" using bd by (intro after_header) simp
  have g: "get_header h s = Inr \<lparr>Available = False, Size = n\<rparr>" using hd by (simp add: get_header_def)
  note def = MmInternalFreePool_def[of "h + SIZEOF_POOL_HEADER" s, folded MmFreePool_def, unfolded Let_def
      if_not_P[OF nz] add_diff_cancel_right' g bind_result_simps POOL_HEADER.select_convs]
  from sh show ?thesis unfolding pool_shape_def
  proof (elim disjE exE conjE)
    fix i assume i: "i < (6 :: nat)" "n = pool_class_size i" "class_block (h, i)"
    have le: "\<not> n > MAX_POOL_SIZE"
      using class_bytes_le[of "5"] i(1) unat_class_size[of i] power_increasing[of i 5 "2 :: nat"]
      by (simp add: i(2) word_less_nat_alt class_bytes_def)
    have br: "byte_range (h, n) = class_range (h, i)" unfolding i(2) using i(1) by (intro class_byte_range) simp
    note free = InternalFreePoolByIndex_serve[OF i(3,1) hd[unfolded i(2)]]
    have "class_range (h, i) \<inter> pool_bytes (put_header h True (pool_class_size i) s) = {}"
      using d unfolding br put_header_frame .
    note push = push_block_ok[OF _ i(1,3) this, unfolded put_header_frame, OF ok]
    have "headers (push_block i h (put_header h True (pool_class_size i) s)) x = headers s x"
      if "unat x \<notin> class_range (h, i)" for x using that by (auto simp: push_block_def)
    with push free le show ?thesis unfolding def br given_def by (auto simp del: class_range.simps)
  next
    fix N assume N: "n = EFI_PAGES_TO_SIZE N" "wf_node (h, N)"
    have un: "unat n = unat N * 4096" and pos: "0 < unat N" and lt: "unat N * 4096 < 2 ^ 64"
      using N by (auto simp: unat_pages_to_size wf_node_def node_end_def)
    have gt: "n > MAX_POOL_SIZE" using un pos by (simp add: word_less_nat_alt)
    have al: "h AND EFI_PAGE_MASK = 0" "n AND EFI_PAGE_MASK = 0"
      using N(2) un by (simp_all add: page_aligned_iff wf_node_def)
    have br: "byte_range (h, n) = page_bytes (h, N)" unfolding N(1) by (rule page_byte_range[OF N(2)])
    have sp: "EFI_SIZE_TO_PAGES n = N" unfolding N(1) by (rule size_pages_inverse[OF lt])
    show ?thesis using pool_free_pages_ok[OF ok N(2) d[unfolded br]] gt al unfolding def br sp by simp
  qed
qed

section \<open>Pages and buffers from one state\<close>

datatype mem_request = PageRequest page_request | PoolRequest EFI_MEMORY_TYPE UINTN

datatype mem_block = PageBlock "UINT64 \<times> UINTN" | PoolBlock UINT64 UINTN

fun mem_alloc :: "mem_request \<Rightarrow> pool_state \<Rightarrow> (EFI_STATUS \<times> UINT64 \<times> pool_state) result" where
  "mem_alloc (PageRequest r) s =
     bind_result (serve_request r (mMmMemoryMap s)) (\<lambda>(st, m, fl). Inr (st, m, s\<lparr>mMmMemoryMap := fl\<rparr>))"
| "mem_alloc (PoolRequest PT sz) s = MmAllocatePool PT sz 0 s"

fun mem_release :: "mem_block \<Rightarrow> pool_state \<Rightarrow> (EFI_STATUS \<times> pool_state) result" where
  "mem_release (PageBlock b) s = pool_free_pages (fst b) (snd b) s"
| "mem_release (PoolBlock h n) s = MmFreePool (h + SIZEOF_POOL_HEADER) s"

text \<open>A pool buffer starts after its header.\<close>

fun mem_granted :: "mem_request \<Rightarrow> UINT64 \<Rightarrow> mem_block" where
  "mem_granted (PageRequest r) m = PageBlock (page_block r m)"
| "mem_granted (PoolRequest PT sz) b = PoolBlock (b - SIZEOF_POOL_HEADER) (pool_block_size sz)"

fun mem_request_ok :: "mem_request \<Rightarrow> bool" where
  "mem_request_ok (PageRequest r) = request_in_range r"
| "mem_request_ok (PoolRequest PT sz) = size_in_range sz"

fun mem_extent :: "mem_block \<Rightarrow> nat set" where
  "mem_extent (PageBlock b) = page_bytes b"
| "mem_extent (PoolBlock h n) = byte_range (h, n)"

fun mem_held :: "pool_state \<Rightarrow> mem_block \<Rightarrow> bool" where
  "mem_held s (PageBlock b) \<longleftrightarrow> wf_node b \<and> page_bytes b \<inter> pool_bytes s = {}"
| "mem_held s (PoolBlock h n) \<longleftrightarrow> pool_held s h n"

lemma held_header:
  assumes "pool_held s h n"
  shows "unat h \<in> byte_range (h, n)"
  using pool_shape_bounds(1)[of h n] assms by (simp add: pool_held_def)

lemma held_shrink:
  assumes "mem_held s b" and "pool_bytes s' \<subseteq> pool_bytes s"
    and "\<And>x. unat x \<notin> pool_bytes s \<Longrightarrow> headers s' x = headers s x"
  shows "mem_held s' b"
proof (cases b)
  case (PageBlock b')
  with assms(1,2) show ?thesis by auto
next
  case (PoolBlock h n)
  with assms(1) have h: "pool_held s h n" by simp
  then have "unat h \<notin> pool_bytes s" using held_header[OF h] unfolding pool_held_def by blast
  with assms(3) have "headers s' h = headers s h" by blast
  with h assms(2) PoolBlock show ?thesis by (auto simp: pool_held_def simp del: byte_range.simps)
qed

lemma held_grow:
  assumes "mem_held s b" and g: "given s B s'" and "mem_extent b \<inter> B = {}"
  shows "mem_held s' b"
proof (cases b)
  case (PageBlock b')
  with assms show ?thesis by (auto simp: given_def)
next
  case (PoolBlock h n)
  with assms(1) have h: "pool_held s h n" by simp
  then have "unat h \<notin> B" using held_header[OF h] assms(3) PoolBlock by (auto simp del: byte_range.simps)
  then have "headers s' h = headers s h" using g by (simp add: given_def)
  with h assms PoolBlock show ?thesis by (auto simp: pool_held_def given_def simp del: byte_range.simps)
qed

lemma mem_alloc_law:
  assumes ok: "pool_ok s" and r: "mem_request_ok r"
  shows "\<exists>st m s'. mem_alloc r s = Inr (st, m, s') \<and> pool_ok s' \<and>
      (if st = EFI_SUCCESS
       then mem_extent (mem_granted r m) \<subseteq> pool_bytes s \<and>
            pool_bytes s' = pool_bytes s - mem_extent (mem_granted r m) \<and>
            mem_held s' (mem_granted r m) \<and> (\<forall>b. mem_held s b \<longrightarrow> mem_held s' b)
       else s' = s)"
proof (cases r)
  case (PageRequest q)
  obtain T MT N M where q: "q = (T, MT, N, M)" by (cases q)
  have "request_in_range (T, MT, N, M)" using r PageRequest q by simp
  from serve_request_ok[OF pool_okD(1)[OF ok] this] obtain st m fl where
    a: "MmAllocatePages T MT N M (mMmMemoryMap s) = Inr (st, m, fl)" "map_ok fl"
    "if st = EFI_SUCCESS then granted (T, MT, N, M) (mMmMemoryMap s) m fl
     else fl = mMmMemoryMap s \<and> EFI_ERROR st" by blast
  show ?thesis
  proof (cases "st = EFI_SUCCESS")
    case True
    with a(3) have w: "wf_node (m, N)" "page_range (m, N) \<subseteq> free_pages (mMmMemoryMap s)"
      "free_pages fl = free_pages (mMmMemoryMap s) - page_range (m, N)" by (auto simp: granted_def)
    note t = take_pages_ok[OF ok w(1) a(2) w(2,3)]
    have "mem_held (s\<lparr>mMmMemoryMap := fl\<rparr>) b" if "mem_held s b" for b
      by (rule held_shrink[OF that]) (auto simp: t(3))
    moreover have "mem_held (s\<lparr>mMmMemoryMap := fl\<rparr>) (PageBlock (m, N))" using w(1) t(3) by auto
    ultimately show ?thesis using True a(1) t PageRequest q by auto
  qed (use a ok PageRequest q in auto)
next
  case (PoolRequest PT sz)
  let ?h = "\<lambda>b. b - SIZEOF_POOL_HEADER" and ?n = "pool_block_size sz"
  from MmAllocatePool_ok[OF ok, of sz PT 0] r PoolRequest obtain st b s' where
    a: "MmAllocatePool PT sz 0 s = Inr (st, b, s')"
    "if st = EFI_SUCCESS then taken s (?h b) ?n s' \<and> pool_shape (?h b) ?n else s' = s \<and> b = 0 \<and> EFI_ERROR st" by auto
  show ?thesis
  proof (cases "st = EFI_SUCCESS")
    case True
    with a(2) have t: "taken s (?h b) ?n s'" "pool_shape (?h b) ?n" by auto
    have "mem_held s' c" if "mem_held s c" for c
      by (rule held_shrink[OF that]) (use t(1) in \<open>auto simp: taken_def\<close>)
    moreover have "pool_held s' (?h b) ?n" using t by (auto simp: taken_def pool_held_def simp del: byte_range.simps)
    ultimately show ?thesis using True a(1) t PoolRequest by (auto simp: taken_def simp del: byte_range.simps)
  qed (use a ok PoolRequest in auto)
qed

lemma mem_release_law:
  assumes ok: "pool_ok s" and h: "mem_held s b"
  shows "\<exists>s'. mem_release b s = Inr (EFI_SUCCESS, s') \<and> given s (mem_extent b) s'"
proof (cases b)
  case (PageBlock p)
  obtain a n where p: "p = (a, n)" by (cases p)
  show ?thesis using pool_free_pages_ok[OF ok, of a n] h PageBlock p by simp
next
  case (PoolBlock a n)
  with MmFreePool_ok[OF ok, of a n] h show ?thesis by simp
qed

interpretation mem: allocator mem_alloc mem_release mem_granted mem_request_ok pool_ok mem_held pool_bytes mem_extent
proof (unfold_locales, goal_cases)
  case (1 s r)
  then show ?case by (rule mem_alloc_law)
next
  case (2 s b)
  from mem_release_law[OF 2] obtain s' where s': "mem_release b s = Inr (EFI_SUCCESS, s')" "given s (mem_extent b) s'" by blast
  with held_grow[OF _ s'(2)] show ?case by (auto simp: given_def)
next
  case (3 s b)
  show ?case
  proof (cases b)
    case (PageBlock p)
    with 3 show ?thesis by (simp add: page_bytes_def node_end_def wf_node_def)
  next
    case (PoolBlock h n)
    with 3 held_header[of s h n] show ?thesis by (auto simp: pool_held_def simp del: byte_range.simps)
  qed
qed

section \<open>Properties\<close>

text \<open>
  C9. The memory services hand out disjoint memory and lose none of it: whatever sequence of
  page requests, pool requests and releases of owned blocks a client makes (pool sizes and blocks
  asked for by address do not wrap in 64 bits, such blocks are aligned, and at least one page is asked
  for), every call
  returns without a failing assertion, the blocks the client owns (pool headers included) are
  disjoint from each other, from the free pages and from the free pool blocks, and free and
  owned bytes together are always the bytes there were at the start.
\<close>

theorem memory_conservation:
  assumes "client_ok pool_ok mem_held pool_bytes mem_extent c" and "requests_ok mem_request_ok ps"
  shows "\<exists>c'. client_run mem_alloc mem_release mem_granted ps c = Inr c' \<and>
     client_ok pool_ok mem_held pool_bytes mem_extent c' \<and>
     all_units pool_bytes mem_extent c' = all_units pool_bytes mem_extent c"
  using assms by (rule mem.run_ok)

definition ex_pool :: pool_state where
  "ex_pool = \<lparr>mMmMemoryMap = ex_map, mMmPoolLists = replicate MAX_POOL_INDEX [], headers = (\<lambda>a. None)\<rparr>"

lemma ex_pool_ok [simp]: "pool_ok ex_pool"
proof -
  have "pool_set ex_pool = {}" by (auto simp: pool_set_def ex_pool_def)
  then show ?thesis by (simp add: pool_ok_def ex_pool_def pairwise_def)
qed

definition ex_mem_ops :: "mem_request client_op list" where
  "ex_mem_ops = [Alloc (PoolRequest EfiRuntimeServicesData 5000),
     Alloc (PageRequest (AllocateAnyPages, EfiRuntimeServicesData, 1, 0)), Release 1]"

theorem memory_conservation_witness:
  "\<exists>c'. client_run mem_alloc mem_release mem_granted ex_mem_ops (ex_pool, []) = Inr c' \<and>
     client_ok pool_ok mem_held pool_bytes mem_extent c' \<and>
     all_units pool_bytes mem_extent c' = pool_bytes ex_pool \<and>
     snd c' = [PageBlock (0x201000, 1)]"
proof -
  have r: "(case client_run mem_alloc mem_release mem_granted ex_mem_ops (ex_pool, []) of
      Inl e \<Rightarrow> [] | Inr c \<Rightarrow> snd c) = [PageBlock (0x201000, 1)]"
    by code_simp
  have "client_ok pool_ok mem_held pool_bytes mem_extent (ex_pool, [])" by (simp add: client_ok_def)
  moreover have "requests_ok mem_request_ok ex_mem_ops"
    by (simp add: ex_mem_ops_def requests_ok_def size_in_range_def)
  ultimately have "\<exists>c'. client_run mem_alloc mem_release mem_granted ex_mem_ops (ex_pool, []) = Inr c' \<and>
     client_ok pool_ok mem_held pool_bytes mem_extent c' \<and>
     all_units pool_bytes mem_extent c' = all_units pool_bytes mem_extent (ex_pool, [])"
    by (rule memory_conservation)
  with r show ?thesis by (auto simp: all_units_def)
qed

text \<open>
  Releasing the block an allocation returned, pages or pool buffer, gives back exactly the
  free bytes there were before.
\<close>

theorem alloc_free_roundtrip:
  assumes "pool_ok s" and "mem_request_ok r" and "mem_alloc r s = Inr (EFI_SUCCESS, m, s')"
  shows "\<exists>s''. mem_release (mem_granted r m) s' = Inr (EFI_SUCCESS, s'') \<and> pool_ok s'' \<and>
     pool_bytes s'' = pool_bytes s"
  using assms by (rule mem.alloc_release)

theorem alloc_free_roundtrip_witness:
  "\<exists>s' s''. mem_alloc (PoolRequest EfiRuntimeServicesData 5000) ex_pool = Inr (EFI_SUCCESS, 0x202018, s') \<and>
     mem_release (PoolBlock 0x202000 0x2000) s' = Inr (EFI_SUCCESS, s'') \<and> pool_bytes s'' = pool_bytes ex_pool"
proof -
  let ?r = "PoolRequest EfiRuntimeServicesData 5000"
  have "(case mem_alloc ?r ex_pool of Inl e \<Rightarrow> None | Inr (st, b, s') \<Rightarrow> Some (st, b)) =
      Some (EFI_SUCCESS, 0x202018)" by code_simp
  then obtain s' where r: "mem_alloc ?r ex_pool = Inr (EFI_SUCCESS, 0x202018, s')"
    by (auto split: sum.splits simp del: mem_alloc.simps)
  have b: "mem_granted ?r 0x202018 = PoolBlock 0x202000 0x2000" by code_simp
  have "mem_request_ok ?r" by (simp add: size_in_range_def)
  from alloc_free_roundtrip[OF ex_pool_ok this r] r show ?thesis unfolding b by blast
qed

lemma block_room:
  assumes "size_in_range sz"
  shows "unat sz + 24 \<le> unat (pool_block_size sz)"
    and "if unat sz + 24 \<le> 2048 then unat (pool_block_size sz) = 64 \<or> unat (pool_block_size sz) < 2 * (unat sz + 24)
      else unat (pool_block_size sz) < unat sz + 24 + 4096"
proof -
  let ?S = "sz + SIZEOF_POOL_HEADER"
  have S: "unat sz + 24 \<le> 2048 \<longleftrightarrow> \<not> ?S > MAX_POOL_SIZE"
    using size_plus_header[OF assms] by (auto simp: word_less_nat_alt)
  have "unat sz + 24 \<le> unat (pool_block_size sz) \<and>
    (if unat sz + 24 \<le> 2048 then unat (pool_block_size sz) = 64 \<or> unat (pool_block_size sz) < 2 * (unat sz + 24)
      else unat (pool_block_size sz) < unat sz + 24 + 4096)"
  proof (cases "?S > MAX_POOL_SIZE")
    case True
    note l = large_pages[OF assms True]
    have bs: "unat (pool_block_size sz) = (unat sz + 24 + 4095) div 4096 * 4096"
      using True l(1,3) by (simp add: pool_block_size_def)
    have "(unat sz + 24 + 4095) div 4096 * 4096 \<le> unat sz + 24 + 4095" by (rule div_times_less_eq_dividend)
    with S True l(1,4) show ?thesis unfolding bs by simp
  next
    case False
    note c = small_class[OF assms False]
    let ?j = "unat (pool_index ?S)"
    have bs: "unat (pool_block_size sz) = class_bytes ?j"
      using False c(1) by (simp add: pool_block_size_def unat_class_size)
    have "class_bytes ?j = 64 \<or> class_bytes ?j < 2 * (unat sz + 24)"
    proof (cases ?j)
      case (Suc k)
      with c(3) show ?thesis by (simp add: class_bytes_Suc)
    qed (simp add: class_bytes_def)
    with c(2) S False show ?thesis unfolding bs by simp
  qed
  then show "unat sz + 24 \<le> unat (pool_block_size sz)"
    "if unat sz + 24 \<le> 2048 then unat (pool_block_size sz) = 64 \<or> unat (pool_block_size sz) < 2 * (unat sz + 24)
      else unat (pool_block_size sz) < unat sz + 24 + 4096" by blast+
qed

text \<open>The buffer of a block starts behind the header and holds the request.\<close>

lemma buffer_in_block:
  assumes "size_in_range sz" and "pool_shape (b - SIZEOF_POOL_HEADER) (pool_block_size sz)"
  shows "unat b = unat (b - SIZEOF_POOL_HEADER) + 24"
    and "{unat b ..< unat b + unat sz} \<subseteq> byte_range (b - SIZEOF_POOL_HEADER, pool_block_size sz)"
    and "unat b + unat sz < 2 ^ 64"
proof -
  let ?h = "b - SIZEOF_POOL_HEADER"
  note bd = pool_shape_bounds[OF assms(2)] and room = block_room(1)[OF assms(1)]
  have "unat (?h + SIZEOF_POOL_HEADER) = unat ?h + 24" using bd by (subst unat_add_small) simp_all
  then show ub: "unat b = unat ?h + 24" by simp
  show "{unat b ..< unat b + unat sz} \<subseteq> byte_range (?h, pool_block_size sz)" using ub room by auto
  show "unat b + unat sz < 2 ^ 64" using ub room bd(3) by linarith
qed



text \<open>
  C21. Releasing a pool buffer of a size class twice is caught: after the first release the
  header says the block is available, and the second stops at the assertion.
\<close>

theorem MmFreePool_double:
  assumes "pool_ok s" and "pool_held s h n" and "n \<le> MAX_POOL_SIZE"
  shows "\<exists>s'. MmFreePool (h + SIZEOF_POOL_HEADER) s = Inr (EFI_SUCCESS, s') \<and>
     MmFreePool (h + SIZEOF_POOL_HEADER) s' = Inl AssertFail"
proof -
  from MmFreePool_ok[OF assms(1,2)] obtain s' where
    r: "MmFreePool (h + SIZEOF_POOL_HEADER) s = Inr (EFI_SUCCESS, s')" by blast
  have hd: "get_header h s = Inr \<lparr>Available = False, Size = n\<rparr>"
    using assms(2) by (simp add: pool_held_def get_header_def)
  have bd: "unat h + 24 < 2 ^ 64" using pool_shape_bounds[of h n] assms(2) by (simp add: pool_held_def)
  have "InternalFreePoolByIndex h s = Inr (EFI_SUCCESS, s')"
    using r hd assms(3) after_header[OF bd] by (simp add: MmFreePool_def MmInternalFreePool_def not_less[symmetric])
  then have "\<exists>sz. headers s' h = Some \<lparr>Available = True, Size = sz\<rparr>"
    using hd by (auto simp: InternalFreePoolByIndex_def Let_def ASSERT_def split: if_splits)
  then have "MmFreePool (h + SIZEOF_POOL_HEADER) s' = Inl AssertFail"
    using after_header[OF bd] by (auto simp: MmFreePool_def MmInternalFreePool_def get_header_def)
  with r show ?thesis by blast
qed

text \<open>A state in which one block of 64 bytes is allocated, and the rest of its page is not in the pool.\<close>

definition ex_held :: pool_state where
  "ex_held = put_header 0x300000 False 64 ex_pool"

lemma ex_held_ok: "pool_ok ex_held"
  by (simp add: ex_held_def)

lemma ex_held_block: "pool_held ex_held 0x300000 64"
proof -
  have ps: "pool_set ex_held = {}" by (auto simp: pool_set_def ex_held_def ex_pool_def)
  have "pool_shape 0x300000 64" unfolding pool_shape_def
    by (rule disjI1, rule exI[of _ 0]) (simp add: pool_class_size_def class_bytes_def)
  moreover have "byte_range (0x300000, 64) \<inter> pool_bytes ex_held = {}"
    by (auto simp: pool_bytes_def ps free_bytes_def) (auto simp: ex_held_def ex_pool_def ex_map_def page_range_def)
  ultimately show ?thesis by (simp add: pool_held_def ex_held_def)
qed

theorem MmFreePool_double_witness:
  "\<exists>s'. MmFreePool 0x300018 ex_held = Inr (EFI_SUCCESS, s') \<and> MmFreePool 0x300018 s' = Inl AssertFail"
  using MmFreePool_double[OF ex_held_ok ex_held_block] by simp

text \<open>
  A pool request within the header size of the largest integer wraps around: it succeeds
  with a 64-byte block.
\<close>

lemma MmAllocatePool_wraps:
  "map_sum id (\<lambda>(st, b, s'). (st, b, headers s' (b - SIZEOF_POOL_HEADER)))
     (MmAllocatePool EfiRuntimeServicesData 0xFFFFFFFFFFFFFFF0 0
        (ex_pool\<lparr>mMmPoolLists := [[0x300000], [], [], [], [], []]\<rparr>)) =
   Inr (EFI_SUCCESS, 0x300018, Some \<lparr>Available = False, Size = 64\<rparr>)"
  by code_simp

end
