(* ===== verification/Fdt.thy ===== *)
theory Fdt
  imports Prelude
begin

text \<open>
  The manifest of the partition is a flattened device tree. The library that reads it is
  outside the repository: its functions are a record of parameters, shared by the entry point
  and the constructor of the memory library.
\<close>

text \<open>
  What the components use of \<^verbatim>\<open>FdtLib\<close>, for the manifest at one address: the data of a property
  of a node, and the offsets of nodes, negative when there is none.
\<close>

record FDT =
  FdtGetProperty :: "int \<Rightarrow> string \<Rightarrow> UINT8 list option"
  FdtNodeOffsetByCompatible :: "int \<Rightarrow> string \<Rightarrow> int"
  FdtSubnodeOffsetNameLen :: "int \<Rightarrow> string \<Rightarrow> int"
  FdtFirstSubnode :: "int \<Rightarrow> int"
  FdtNextSubnode :: "int \<Rightarrow> int"

text \<open>\<^verbatim>\<open>Fdt32ToCpu (ReadUnaligned32 (..))\<close>: cells of the tree are big-endian.\<close>

definition read_cell :: "nat \<Rightarrow> UINT8 list \<Rightarrow> 'a::len word result" where
  "read_cell n data = (if length data < n then Inl OutOfBounds else Inr (word_of_bytes (rev (take n data))))"

end
