(* ===== verification/MemoryLib.thy ===== *)
theory MemoryLib
  imports PoolContract Fdt
begin

text \<open>
  \<^verbatim>\<open>SecurePartitionMemoryAllocationLib.c\<close>: the \<^verbatim>\<open>MemoryAllocationLib\<close> interface on top of pages
  and pools, and the constructor that reads the heap region from the partition's manifest. The
  state adds the contents of memory to that of the pool allocator.
\<close>

section \<open>Pages\<close>

text \<open>Pointers are addresses and \<^verbatim>\<open>NULL\<close> is 0.\<close>

record lib_state =
  pool :: pool_state
  content :: "UINT64 \<Rightarrow> UINT8"

definition InternalAllocatePages :: "EFI_MEMORY_TYPE \<Rightarrow> UINTN \<Rightarrow> memory_map \<Rightarrow> (UINT64 \<times> memory_map) result" where
  "InternalAllocatePages MemoryType Pages fl =
     (if Pages = 0 then Inr (0, fl)
      else bind_result (MmAllocatePages AllocateAnyPages MemoryType Pages 0 fl)
             (\<lambda>(Status, Memory, fl'). Inr (if EFI_ERROR Status then 0 else Memory, fl')))"

definition AllocatePages :: "UINTN \<Rightarrow> memory_map \<Rightarrow> (UINT64 \<times> memory_map) result" where
  "AllocatePages Pages fl = InternalAllocatePages EfiRuntimeServicesData Pages fl"

definition AllocateRuntimePages :: "UINTN \<Rightarrow> memory_map \<Rightarrow> (UINT64 \<times> memory_map) result" where
  "AllocateRuntimePages Pages fl = InternalAllocatePages EfiRuntimeServicesData Pages fl"

definition AllocateReservedPages :: "UINTN \<Rightarrow> memory_map \<Rightarrow> (UINT64 \<times> memory_map) result" where
  "AllocateReservedPages Pages fl = Inr (0, fl)"

definition FreePages :: "UINT64 \<Rightarrow> UINTN \<Rightarrow> memory_map \<Rightarrow> memory_map result" where
  "FreePages Buffer Pages fl =
     ASSERT (Pages \<noteq> 0) (ASSERT (Buffer \<noteq> 0)
       (bind_result (MmFreePages Buffer Pages fl)
          (\<lambda>(Status, fl'). ASSERT (\<not> EFI_ERROR Status) (Inr fl'))))"

text \<open>The release of the unaligned pages at one end.\<close>

definition trim_pages :: "UINT64 \<Rightarrow> UINTN \<Rightarrow> memory_map \<Rightarrow> memory_map result" where
  "trim_pages Memory UnalignedPages fl =
     (if UnalignedPages > 0
      then bind_result (MmFreePages Memory UnalignedPages fl)
             (\<lambda>(Status, fl'). ASSERT (\<not> EFI_ERROR Status) (Inr fl'))
      else Inr fl)"

definition EFI_PAGE_SIZE :: UINTN where "EFI_PAGE_SIZE = 0x1000"

definition InternalAllocateAlignedPages ::
  "EFI_MEMORY_TYPE \<Rightarrow> UINTN \<Rightarrow> UINTN \<Rightarrow> memory_map \<Rightarrow> (UINT64 \<times> memory_map) result" where
  "InternalAllocateAlignedPages MemoryType Pages Alignment fl =
     ASSERT (Alignment AND (Alignment - 1) = 0)
       (if Pages = 0 then Inr (0, fl)
        else if Alignment > EFI_PAGE_SIZE
        then let AlignmentMask = Alignment - 1; RealPages = Pages + EFI_SIZE_TO_PAGES Alignment
             in ASSERT (RealPages > Pages)
                  (bind_result (MmAllocatePages AllocateAnyPages MemoryType RealPages 0 fl)
                    (\<lambda>(Status, Memory, fl1).
                       if EFI_ERROR Status then Inr (0, fl1)
                       else let AlignedMemory = (Memory + AlignmentMask) AND NOT AlignmentMask;
                                UnalignedPages = EFI_SIZE_TO_PAGES (AlignedMemory - Memory)
                            in bind_result (trim_pages Memory UnalignedPages fl1)
                                 (\<lambda>fl2. bind_result
                                    (trim_pages (AlignedMemory + EFI_PAGES_TO_SIZE Pages)
                                       (RealPages - Pages - UnalignedPages) fl2)
                                    (\<lambda>fl3. Inr (AlignedMemory, fl3)))))
        else bind_result (MmAllocatePages AllocateAnyPages MemoryType Pages 0 fl)
               (\<lambda>(Status, Memory, fl'). Inr (if EFI_ERROR Status then 0 else Memory, fl')))"

definition AllocateAlignedPages :: "UINTN \<Rightarrow> UINTN \<Rightarrow> memory_map \<Rightarrow> (UINT64 \<times> memory_map) result" where
  "AllocateAlignedPages Pages Alignment fl = InternalAllocateAlignedPages EfiRuntimeServicesData Pages Alignment fl"

definition AllocateAlignedRuntimePages :: "UINTN \<Rightarrow> UINTN \<Rightarrow> memory_map \<Rightarrow> (UINT64 \<times> memory_map) result" where
  "AllocateAlignedRuntimePages Pages Alignment fl =
     InternalAllocateAlignedPages EfiRuntimeServicesData Pages Alignment fl"

definition AllocateAlignedReservedPages :: "UINTN \<Rightarrow> UINTN \<Rightarrow> memory_map \<Rightarrow> (UINT64 \<times> memory_map) result" where
  "AllocateAlignedReservedPages Pages Alignment fl = Inr (0, fl)"

definition FreeAlignedPages :: "UINT64 \<Rightarrow> UINTN \<Rightarrow> memory_map \<Rightarrow> memory_map result" where
  "FreeAlignedPages Buffer Pages fl =
     ASSERT (Pages \<noteq> 0) (ASSERT (Buffer \<noteq> 0)
       (bind_result (MmFreePages Buffer Pages fl)
          (\<lambda>(Status, fl'). ASSERT (\<not> EFI_ERROR Status) (Inr fl'))))"

section \<open>Pool buffers and their contents\<close>

text \<open>\<^verbatim>\<open>ZeroMem\<close> and \<^verbatim>\<open>CopyMem\<close> of \<^verbatim>\<open>BaseMemoryLib\<close>; \<^verbatim>\<open>CopyMem\<close> reads its source first.\<close>

definition write_bytes :: "UINT64 \<Rightarrow> UINT64 \<Rightarrow> (UINT64 \<Rightarrow> UINT8) \<Rightarrow> lib_state \<Rightarrow> lib_state" where
  "write_bytes dst n f s = s\<lparr>content := (\<lambda>a. if a - dst < n then f (a - dst) else content s a)\<rparr>"

definition ZeroMem :: "UINT64 \<Rightarrow> UINTN \<Rightarrow> lib_state \<Rightarrow> lib_state" where
  "ZeroMem Buffer Length s = write_bytes Buffer Length (\<lambda>i. 0) s"

definition CopyMem :: "UINT64 \<Rightarrow> UINT64 \<Rightarrow> UINTN \<Rightarrow> lib_state \<Rightarrow> lib_state" where
  "CopyMem Dst Src Length s = write_bytes Dst Length (\<lambda>i. content s (Src + i)) s"

definition InternalAllocatePool :: "EFI_MEMORY_TYPE \<Rightarrow> UINTN \<Rightarrow> lib_state \<Rightarrow> (UINT64 \<times> lib_state) result" where
  "InternalAllocatePool MemoryType AllocationSize s =
     bind_result (MmAllocatePool MemoryType AllocationSize 0 (pool s))
       (\<lambda>(Status, Memory, p). Inr (if EFI_ERROR Status then 0 else Memory, s\<lparr>pool := p\<rparr>))"

definition AllocatePool :: "UINTN \<Rightarrow> lib_state \<Rightarrow> (UINT64 \<times> lib_state) result" where
  "AllocatePool AllocationSize s = InternalAllocatePool EfiRuntimeServicesData AllocationSize s"

definition AllocateRuntimePool :: "UINTN \<Rightarrow> lib_state \<Rightarrow> (UINT64 \<times> lib_state) result" where
  "AllocateRuntimePool AllocationSize s = InternalAllocatePool EfiRuntimeServicesData AllocationSize s"

definition AllocateReservedPool :: "UINTN \<Rightarrow> lib_state \<Rightarrow> (UINT64 \<times> lib_state) result" where
  "AllocateReservedPool AllocationSize s = Inr (0, s)"

definition InternalAllocateZeroPool :: "EFI_MEMORY_TYPE \<Rightarrow> UINTN \<Rightarrow> lib_state \<Rightarrow> (UINT64 \<times> lib_state) result" where
  "InternalAllocateZeroPool PoolType AllocationSize s =
     bind_result (InternalAllocatePool PoolType AllocationSize s)
       (\<lambda>(Memory, s1). Inr (Memory, if Memory \<noteq> 0 then ZeroMem Memory AllocationSize s1 else s1))"

definition AllocateZeroPool :: "UINTN \<Rightarrow> lib_state \<Rightarrow> (UINT64 \<times> lib_state) result" where
  "AllocateZeroPool AllocationSize s = InternalAllocateZeroPool EfiRuntimeServicesData AllocationSize s"

definition AllocateRuntimeZeroPool :: "UINTN \<Rightarrow> lib_state \<Rightarrow> (UINT64 \<times> lib_state) result" where
  "AllocateRuntimeZeroPool AllocationSize s = InternalAllocateZeroPool EfiRuntimeServicesData AllocationSize s"

definition AllocateReservedZeroPool :: "UINTN \<Rightarrow> lib_state \<Rightarrow> (UINT64 \<times> lib_state) result" where
  "AllocateReservedZeroPool AllocationSize s = Inr (0, s)"

definition MAX_ADDRESS :: UINT64 where "MAX_ADDRESS = - 1"

definition InternalAllocateCopyPool ::
  "EFI_MEMORY_TYPE \<Rightarrow> UINTN \<Rightarrow> UINT64 \<Rightarrow> lib_state \<Rightarrow> (UINT64 \<times> lib_state) result" where
  "InternalAllocateCopyPool PoolType AllocationSize Buffer s =
     ASSERT (Buffer \<noteq> 0) (ASSERT (AllocationSize \<le> MAX_ADDRESS - Buffer + 1)
       (bind_result (InternalAllocatePool PoolType AllocationSize s)
          (\<lambda>(Memory, s1). Inr (Memory, if Memory \<noteq> 0 then CopyMem Memory Buffer AllocationSize s1 else s1))))"

definition AllocateCopyPool :: "UINTN \<Rightarrow> UINT64 \<Rightarrow> lib_state \<Rightarrow> (UINT64 \<times> lib_state) result" where
  "AllocateCopyPool AllocationSize Buffer s = InternalAllocateCopyPool EfiRuntimeServicesData AllocationSize Buffer s"

definition AllocateRuntimeCopyPool :: "UINTN \<Rightarrow> UINT64 \<Rightarrow> lib_state \<Rightarrow> (UINT64 \<times> lib_state) result" where
  "AllocateRuntimeCopyPool AllocationSize Buffer s =
     InternalAllocateCopyPool EfiRuntimeServicesData AllocationSize Buffer s"

definition AllocateReservedCopyPool :: "UINTN \<Rightarrow> UINT64 \<Rightarrow> lib_state \<Rightarrow> (UINT64 \<times> lib_state) result" where
  "AllocateReservedCopyPool AllocationSize Buffer s = Inr (0, s)"

definition FreePool :: "UINT64 \<Rightarrow> lib_state \<Rightarrow> lib_state result" where
  "FreePool Buffer s =
     bind_result (MmFreePool Buffer (pool s))
       (\<lambda>(Status, p). ASSERT (\<not> EFI_ERROR Status) (Inr (s\<lparr>pool := p\<rparr>)))"

definition InternalReallocatePool ::
  "EFI_MEMORY_TYPE \<Rightarrow> UINTN \<Rightarrow> UINTN \<Rightarrow> UINT64 \<Rightarrow> lib_state \<Rightarrow> (UINT64 \<times> lib_state) result" where
  "InternalReallocatePool PoolType OldSize NewSize OldBuffer s =
     bind_result (InternalAllocateZeroPool PoolType NewSize s)
       (\<lambda>(NewBuffer, s1).
          if NewBuffer \<noteq> 0 \<and> OldBuffer \<noteq> 0
          then bind_result (FreePool OldBuffer (CopyMem NewBuffer OldBuffer (min OldSize NewSize) s1))
                 (\<lambda>s2. Inr (NewBuffer, s2))
          else Inr (NewBuffer, s1))"

definition ReallocatePool :: "UINTN \<Rightarrow> UINTN \<Rightarrow> UINT64 \<Rightarrow> lib_state \<Rightarrow> (UINT64 \<times> lib_state) result" where
  "ReallocatePool OldSize NewSize OldBuffer s = InternalReallocatePool EfiRuntimeServicesData OldSize NewSize OldBuffer s"

definition ReallocateRuntimePool :: "UINTN \<Rightarrow> UINTN \<Rightarrow> UINT64 \<Rightarrow> lib_state \<Rightarrow> (UINT64 \<times> lib_state) result" where
  "ReallocateRuntimePool OldSize NewSize OldBuffer s =
     InternalReallocatePool EfiRuntimeServicesData OldSize NewSize OldBuffer s"

definition ReallocateReservedPool :: "UINTN \<Rightarrow> UINTN \<Rightarrow> UINT64 \<Rightarrow> lib_state \<Rightarrow> (UINT64 \<times> lib_state) result" where
  "ReallocateReservedPool OldSize NewSize OldBuffer s = Inr (0, s)"

section \<open>The constructor\<close>

definition ReadProperty32 :: "FDT \<Rightarrow> int \<Rightarrow> string \<Rightarrow> UINT32 \<Rightarrow> (EFI_STATUS \<times> UINT32) result" where
  "ReadProperty32 dtb Offset PropName Value =
     (case FdtGetProperty dtb Offset PropName of
        None \<Rightarrow> Inr (EFI_INVALID_PARAMETER, Value)
      | Some data \<Rightarrow> bind_result (read_cell 4 data) (\<lambda>v. Inr (EFI_SUCCESS, v)))"

definition ReadProperty64 :: "FDT \<Rightarrow> int \<Rightarrow> string \<Rightarrow> UINT64 \<Rightarrow> (EFI_STATUS \<times> UINT64) result" where
  "ReadProperty64 dtb Offset PropName Value =
     (case FdtGetProperty dtb Offset PropName of
        None \<Rightarrow> Inr (EFI_INVALID_PARAMETER, Value)
      | Some data \<Rightarrow> bind_result (read_cell 8 data) (\<lambda>v. Inr (EFI_SUCCESS, v)))"

definition CheckDescription :: "FDT \<Rightarrow> int \<Rightarrow> string \<Rightarrow> bool" where
  "CheckDescription dtb Offset Description =
     (case FdtGetProperty dtb Offset ''description'' of
        None \<Rightarrow> False
      | Some data \<Rightarrow>
          let n = min (length Description) (length data)
          in take n (map of_char Description) = take n data)"

text \<open>The region, or \<open>None\<close> for \<^verbatim>\<open>FALSE\<close>; the outputs are not used then.\<close>

definition ReadRegionInfo :: "FDT \<Rightarrow> int \<Rightarrow> string \<Rightarrow> UINT32 \<Rightarrow> (UINT64 \<times> UINT64) option result" where
  "ReadRegionInfo dtb Node Region PageSize =
     (if \<not> CheckDescription dtb Node Region then Inr None
      else bind_result (ReadProperty64 dtb Node ''base-address'' 0)
        (\<lambda>(Status, Address).
           if Status \<noteq> EFI_SUCCESS then Inr None
           else bind_result (ReadProperty32 dtb Node ''pages-count'' 0)
             (\<lambda>(Status, LocalSize).
                if Status \<noteq> EFI_SUCCESS then Inr None
                else Inr (Some (Address, ucast (LocalSize * PageSize))))))"

text \<open>
  \<^verbatim>\<open>gSpst\<close> is \<open>None\<close> while it is null. The descriptor is a local variable of which only
  \<^verbatim>\<open>CpuStart\<close> and \<^verbatim>\<open>PhysicalSize\<close> are written: what the rest of it holds is an argument. The
  loop over the subnodes returns or breaks in its first round.
\<close>

definition MemoryAllocationLibConstructor ::
  "UINT64 \<Rightarrow> FDT option \<Rightarrow> EFI_MMRAM_DESCRIPTOR \<Rightarrow> pool_state \<Rightarrow> (EFI_STATUS \<times> pool_state) result" where
  "MemoryAllocationLibConstructor skip_mask gSpst MmramRange s =
     (case gSpst of
        None \<Rightarrow> Inl NullDereference
      | Some dtb \<Rightarrow>
          let Offset0 = FdtNodeOffsetByCompatible dtb (- 1) ''arm,ffa-manifest-1.0'';
              Offset = FdtSubnodeOffsetNameLen dtb Offset0 ''memory-regions''
          in if Offset < 1 then Inr (EFI_INVALID_PARAMETER, s)
             else let Node = FdtFirstSubnode dtb Offset
                  in if Node \<ge> 0
                     then bind_result (ReadRegionInfo dtb Node ''heap'' (ucast EFI_PAGE_SIZE))
                            (\<lambda>Result. case Result of
                                None \<Rightarrow> Inr (EFI_UNSUPPORTED, s)
                              | Some (base, len) \<Rightarrow>
                                  bind_result (MmInitializeMemoryServices skip_mask
                                      [MmramRange\<lparr>CpuStart := base, PhysicalSize := len\<rparr>] s)
                                    (\<lambda>s'. Inr (EFI_SUCCESS, s')))
                     else Inr (EFI_SUCCESS, s))"

end
