(* ===== verification/MemoryLibProperties.thy ===== *)
theory MemoryLibProperties
  imports MemoryLib
begin

text \<open>
  Correctness of the memory allocation library: aligned pages, contents of zeroed, copied and
  reallocated buffers, and the heap the constructor sets up.
\<close>

section \<open>Aligned pages\<close>

lemma push_drop_mask: "(x :: UINT64) AND NOT (mask k) = push_bit k (drop_bit k x)"
  by (rule bit_eqI) (auto simp: bit_simps)

lemma unat_pow2:
  assumes "k < 64"
  shows "unat (2 ^ k :: UINT64) = 2 ^ k"
proof -
  have "(2 :: nat) ^ k < 2 ^ 64" using assms by (intro power_strict_increasing) simp_all
  then have "unat (of_nat (2 ^ k) :: UINT64) = 2 ^ k" by (simp only: unat_of_nat) simp
  then show ?thesis by simp
qed

lemma unat_pow: "k < 64 \<Longrightarrow> unat (push_bit k (1 :: UINT64)) = 2 ^ k"
  by (simp add: push_bit_eq_mult unat_pow2)

lemma pow_minus_1: "push_bit k (1 :: UINT64) - 1 = mask k"
  by (simp add: mask_eq_exp_minus_1 push_bit_eq_mult)

lemma align_up_pow:
  assumes k: "k < 64" and "unat b + 2 ^ k - 1 < 2 ^ 64"
  defines "w \<equiv> push_bit k (1 :: UINT64)"
  shows "unat ((b + (w - 1)) AND NOT (w - 1)) = (unat b + 2 ^ k - 1) div 2 ^ k * 2 ^ k"
proof -
  have m: "w - 1 = mask k" unfolding w_def by (rule pow_minus_1)
  have "unat (mask k :: UINT64) = 2 ^ k - 1"
    unfolding mask_eq_exp_minus_1 using k by (subst unat_sub_small) (simp_all add: unat_pow2 word_le_nat_alt)
  then have s: "unat (b + mask k) = unat b + 2 ^ k - 1"
    using assms(2) by (subst unat_add_small) auto
  have d: "unat (drop_bit k (b + mask k)) = (unat b + 2 ^ k - 1) div 2 ^ k"
    using s k by (simp add: drop_bit_eq_div unat_div_distrib unat_pow2)
  have "(unat b + 2 ^ k - 1) div 2 ^ k * 2 ^ k < 2 ^ 64"
    using assms(2) by (meson div_times_less_eq_dividend le_less_trans)
  then show ?thesis
    unfolding m push_drop_mask using d k by (simp add: push_bit_eq_mult unat_word_ariths unat_pow2)
qed

lemma pow_assert: "push_bit k (1 :: UINT64) AND (push_bit k 1 - 1) = 0"
  unfolding pow_minus_1 by (rule bit_eqI) (auto simp: bit_simps)

lemma trim_pages_ok:
  assumes ok: "map_ok fl" and n: "0 < unat n \<Longrightarrow> wf_node (m, n) \<and> page_range (m, n) \<inter> free_pages fl = {}"
  shows "\<exists>fl'. trim_pages m n fl = Inr fl' \<and> map_ok fl' \<and> free_pages fl' = free_pages fl \<union> page_range (m, n)"
proof (cases "n > 0")
  case True
  then have "0 < unat n" by (simp add: word_less_nat_alt)
  with n pages.release_cases[OF ok, of "(m, n)"] True show ?thesis by (auto simp: trim_pages_def)
next
  case False
  then have "n = 0" using word_neq_0_conv by blast
  then show ?thesis using ok by (simp add: trim_pages_def page_range_def)
qed

lemma aligned_address:
  fixes m A :: nat
  assumes "4096 dvd m" and "4096 dvd A" and "0 < A"
  defines "D \<equiv> (m + A - 1) div A * A"
  shows "m \<le> D" and "4096 dvd D" and "D - m + 4096 \<le> A" and "D mod A = 0"
proof -
  have e: "D + (m + A - 1) mod A = m + A - 1" unfolding D_def by (rule div_mult_mod_eq)
  have lt: "(m + A - 1) mod A < A" using assms(3) by simp
  show le: "m \<le> D" using e lt by linarith
  show dD: "4096 dvd D" unfolding D_def using assms(2) by simp
  show "D mod A = 0" unfolding D_def by simp
  have "D - m < A" using e le assms(3) by linarith
  moreover have "4096 dvd D - m" using dD assms(1) by (rule dvd_diff_nat)
  ultimately show "D - m + 4096 \<le> A" using assms(2) by (elim dvdE) simp
qed

text \<open>The pages of a range of an allocated block, as a block of its own.\<close>

lemma sub_block:
  assumes b: "wf_node (m, R)" and a: "unat a = unat m + U * 4096" and n: "unat n = k" "0 < k" "U + k \<le> unat R"
  shows "wf_node (a, n)" and "page_range (a, n) = {unat m div 4096 + U ..< unat m div 4096 + U + k}"
proof -
  have m: "unat m mod 4096 = 0" "0 < unat m" "unat m + unat R * 4096 < 2 ^ 64"
    using b by (auto simp: wf_node_def node_end_def)
  have "unat m + U * 4096 + k * 4096 \<le> unat m + unat R * 4096" using n(3) by simp
  with m show "wf_node (a, n)" using n by (simp add: wf_node_def node_end_def a)
  show "page_range (a, n) = {unat m div 4096 + U ..< unat m div 4096 + U + k}"
    by (simp add: page_range_def a n add.commute)
qed

text \<open>What the aligned allocation computes from the address of the larger block.\<close>

lemma aligned_words:
  assumes k: "12 < k" "k < 64" and b: "wf_node (m, R)" and P: "unat R = unat P + 2 ^ (k - 12)"
  defines "w \<equiv> push_bit k (1 :: UINT64)"
  defines "D \<equiv> (m + (w - 1)) AND NOT (w - 1)"
  defines "U \<equiv> (unat D - unat m) div 4096"
  shows "unat D = unat m + U * 4096" and "unat (EFI_SIZE_TO_PAGES (D - m)) = U" and "unat D mod 2 ^ k = 0"
    and "U + unat P < unat R" and "unat (R - P - EFI_SIZE_TO_PAGES (D - m)) = unat R - unat P - U"
    and "0 < unat P \<Longrightarrow> unat (D + EFI_PAGES_TO_SIZE P) = unat m + (U + unat P) * 4096"
proof -
  have m: "4096 dvd unat m" "unat m + unat R * 4096 < 2 ^ 64" using b by (auto simp: wf_node_def node_end_def)
  have kk: "(2 :: nat) ^ k = 2 ^ (k - 12) * 4096" using k(1) power_add[of "2 :: nat" "k - 12" 12] by simp
  have d: "(4096 :: nat) dvd 2 ^ k" unfolding kk by simp
  have fit: "unat m + 2 ^ k - 1 < 2 ^ 64" using m(2) P unfolding kk by (simp add: add_mult_distrib)
  have uD: "unat D = (unat m + 2 ^ k - 1) div 2 ^ k * 2 ^ k" unfolding D_def w_def by (rule align_up_pow[OF k(2) fit])
  have al': "unat m \<le> unat D" "4096 dvd unat D" "unat D - unat m + 4096 \<le> 2 ^ k" "unat D mod 2 ^ k = 0"
    using aligned_address[OF m(1) d] unfolding uD by simp_all
  show "unat D mod 2 ^ k = 0" by (rule al'(4))
  have U: "unat D - unat m = U * 4096" unfolding U_def using dvd_diff_nat[OF al'(2) m(1)] by simp
  show D: "unat D = unat m + U * 4096" using U al'(1) by simp
  have "U * 4096 + 4096 \<le> 2 ^ (k - 12) * 4096" using al'(3) unfolding U kk .
  then have Uk: "Suc U \<le> 2 ^ (k - 12)" by simp
  then show UP: "U + unat P < unat R" using P by simp
  have "unat (D - m) = U * 4096" using U al'(1) by (simp add: unat_sub_small word_le_nat_alt)
  moreover have "U * 4096 + 4095 < 2 ^ 64" using UP m(2) by linarith
  ultimately show S: "unat (EFI_SIZE_TO_PAGES (D - m)) = U" by (subst unat_size_to_pages) auto
  have "unat (R - P) = unat R - unat P" using P by (simp add: unat_sub_small word_le_nat_alt)
  moreover have "EFI_SIZE_TO_PAGES (D - m) \<le> R - P" using calculation S UP by (simp add: word_le_nat_alt)
  ultimately show "unat (R - P - EFI_SIZE_TO_PAGES (D - m)) = unat R - unat P - U" by (simp add: unat_sub_small S)
  have bound: "(U + unat P) * 4096 \<le> unat R * 4096" using UP by simp
  then have p: "unat (EFI_PAGES_TO_SIZE P) = unat P * 4096" using m(2) by (intro unat_pages_to_size) simp
  show "unat (D + EFI_PAGES_TO_SIZE P) = unat m + (U + unat P) * 4096"
    using bound m(2) D p by (subst unat_add_small) (simp_all add: add_mult_distrib)
qed

text \<open>The block returned, or none and an unchanged map.\<close>

definition pages_or_null :: "UINTN \<Rightarrow> memory_map \<Rightarrow> UINT64 \<Rightarrow> memory_map \<Rightarrow> bool" where
  "pages_or_null N fl a fl' \<longleftrightarrow> map_ok fl' \<and>
     (if a = 0 then fl' = fl
      else wf_node (a, N) \<and> page_range (a, N) \<subseteq> free_pages fl \<and> free_pages fl' = free_pages fl - page_range (a, N))"

lemma any_pages_or_null:
  assumes ok: "map_ok fl" and N: "0 < N" and MT: "MT = EfiRuntimeServicesCode \<or> MT = EfiRuntimeServicesData"
  shows "\<exists>st m fl'. MmAllocatePages AllocateAnyPages MT N 0 fl = Inr (st, m, fl') \<and>
     pages_or_null N fl (if EFI_ERROR st then 0 else m) fl' \<and> (EFI_ERROR st \<longrightarrow> fl' = fl) \<and>
     (\<not> EFI_ERROR st \<longrightarrow> m \<noteq> 0)"
proof -
  from pages_alloc_any[OF ok N MT] obtain st m fl' where
    r: "MmInternalAllocatePages AllocateAnyPages MT N 0 fl = Inr (st, m, fl')" "map_ok fl'"
    and c: "st = EFI_SUCCESS \<and> wf_node (m, N) \<and> page_range (m, N) \<subseteq> free_pages fl \<and>
      free_pages fl' = free_pages fl - page_range (m, N) \<or> st = EFI_OUT_OF_RESOURCES \<and> fl' = fl" by blast
  have "wf_node (m, N) \<Longrightarrow> m \<noteq> 0" by (auto simp: wf_node_def)
  with r c show ?thesis by (auto simp: MmAllocatePages_def pages_or_null_def)
qed

lemma trim_both_ok:
  assumes k: "12 < k" "k < 64" and ok: "map_ok fl1" and b: "wf_node (m, R)"
    and sub: "page_range (m, R) \<subseteq> free_pages fl" and fp: "free_pages fl1 = free_pages fl - page_range (m, R)"
    and P: "unat R = unat P + 2 ^ (k - 12)" "0 < unat P"
  defines "w \<equiv> push_bit k (1 :: UINT64)"
  defines "D \<equiv> (m + (w - 1)) AND NOT (w - 1)"
  shows "\<exists>fl2 fl3. trim_pages m (EFI_SIZE_TO_PAGES (D - m)) fl1 = Inr fl2 \<and>
     trim_pages (D + EFI_PAGES_TO_SIZE P) (R - P - EFI_SIZE_TO_PAGES (D - m)) fl2 = Inr fl3 \<and>
     D \<noteq> 0 \<and> pages_or_null P fl D fl3 \<and> unat D mod 2 ^ k = 0"
proof -
  let ?U = "(unat D - unat m) div 4096" and ?p = "unat m div 4096" and ?n1 = "EFI_SIZE_TO_PAGES (D - m)"
  let ?n2 = "R - P - EFI_SIZE_TO_PAGES (D - m)" and ?E = "D + EFI_PAGES_TO_SIZE P"
  note w = aligned_words[OF k b P(1), folded w_def, folded D_def]
  have mR: "page_range (m, R) = {?p ..< ?p + unat R}" by (simp add: page_range_def)
  have r1: "page_range (m, ?n1) = {?p ..< ?p + ?U}" by (simp add: page_range_def w(2))
  have b1: "0 < unat ?n1 \<Longrightarrow> wf_node (m, ?n1)" using sub_block(1)[OF b, of m 0 ?n1 ?U] w(2,4) by simp
  note bD = sub_block[OF b w(1) refl P(2) less_imp_le[OF w(4)]]
  have n2: "0 < unat R - unat P - ?U" "?U + unat P + (unat R - unat P - ?U) \<le> unat R" using w(4) by simp_all
  note b2 = sub_block[OF b w(6)[OF P(2)] w(5) n2]
  have "page_range (m, ?n1) \<inter> free_pages fl1 = {}" using w(4) unfolding r1 fp mR by auto
  with trim_pages_ok[OF ok, of ?n1 m] b1 obtain fl2 where
    t1: "trim_pages m ?n1 fl1 = Inr fl2" "map_ok fl2" "free_pages fl2 = free_pages fl1 \<union> page_range (m, ?n1)" by blast
  have "page_range (?E, ?n2) \<inter> free_pages fl2 = {}" using w(4) unfolding b2(2) t1(3) r1 fp mR by auto
  with trim_pages_ok[OF t1(2), of ?n2 ?E] b2(1) obtain fl3 where
    t2: "trim_pages ?E ?n2 fl2 = Inr fl3" "map_ok fl3" "free_pages fl3 = free_pages fl2 \<union> page_range (?E, ?n2)" by blast
  have "page_range (D, P) \<subseteq> free_pages fl" using sub w(4) unfolding bD(2) mR by auto
  moreover have "free_pages fl3 = free_pages fl - page_range (D, P)"
    using sub w(4) unfolding t2(3) t1(3) fp bD(2) b2(2) r1 mR by auto
  moreover have "D \<noteq> 0" using bD(1) by (auto simp: wf_node_def)
  ultimately have "pages_or_null P fl D fl3" using t2(2) bD(1) by (simp add: pages_or_null_def)
  with t1(1) t2(1) \<open>D \<noteq> 0\<close> w(3) show ?thesis by (intro exI[of _ fl2] exI[of _ fl3] conjI)
qed

lemma pow_pages:
  assumes "12 < k" and "k < 64"
  shows "unat (EFI_SIZE_TO_PAGES (push_bit k 1)) = 2 ^ (k - 12)" and "push_bit k 1 > EFI_PAGE_SIZE"
proof -
  have kk: "(2 :: nat) ^ k = 2 ^ (k - 12) * 4096" using assms(1) power_add[of "2 :: nat" "k - 12" 12] by simp
  have k1: "(2 :: nat) \<le> 2 ^ (k - 12)" using assms(1) power_increasing[of 1 "k - 12" "2 :: nat"] by simp
  have al: "push_bit k (1 :: UINT64) AND EFI_PAGE_MASK = 0" unfolding page_aligned_iff unat_pow[OF assms(2)] kk by simp
  show "unat (EFI_SIZE_TO_PAGES (push_bit k 1)) = 2 ^ (k - 12)"
    unfolding EFI_SIZE_TO_PAGES_def al using assms(2) by (simp add: drop_bit_eq_div unat_div_distrib unat_pow2 kk)
  have "(0x1000 :: nat) < 2 ^ k" unfolding kk using k1 by simp
  then show "push_bit k 1 > EFI_PAGE_SIZE"
    by (simp add: word_less_nat_alt EFI_PAGE_SIZE_def unat_pow2[OF assms(2)])
qed

lemma small_alignment:
  assumes "k \<le> 12"
  shows "\<not> push_bit k 1 > EFI_PAGE_SIZE" and "4096 dvd n \<Longrightarrow> n mod 2 ^ k = (0 :: nat)"
proof -
  have "(2 :: nat) ^ k \<le> 2 ^ 12" using assms by (intro power_increasing) simp_all
  then show "\<not> push_bit k 1 > EFI_PAGE_SIZE"
    using assms unat_pow2[of k] by (simp add: word_less_nat_alt EFI_PAGE_SIZE_def not_less)
  have "(2 :: nat) ^ k dvd 4096" using le_imp_power_dvd[OF assms, of "2 :: nat"] by simp
  then show "4096 dvd n \<Longrightarrow> n mod 2 ^ k = 0" by (metis dvd_trans dvd_imp_mod_0)
qed

lemma aligned_enough:
  assumes A: "A = 0 \<or> (\<exists>k<64. A = push_bit k 1)" and small: "\<not> A > EFI_PAGE_SIZE"
    and r: "pages_or_null P fl a fl'" and a: "a \<noteq> 0" "A \<noteq> 0"
  shows "unat a mod unat A = 0"
proof -
  have "4096 dvd unat a" using r a by (auto simp: pages_or_null_def wf_node_def)
  moreover from A a(2) obtain k where k: "k < 64" "A = push_bit k 1" by blast
  moreover have "k \<le> 12" using pow_pages(2)[of k] k small by (meson not_less)
  ultimately show ?thesis using small_alignment(2)[of k] by (simp add: unat_pow2)
qed

text \<open>
  C12. \<^verbatim>\<open>InternalAllocateAlignedPages\<close> is correct for every power of two (and for alignment 0):
  no assertion fails, and it returns either null with the memory map unchanged, or a block of
  exactly the pages asked for, aligned as asked; every page it allocated on top to reach the
  alignment is released again.
\<close>

theorem InternalAllocateAlignedPages_correct:
  assumes ok: "map_ok fl" and MT: "MT = EfiRuntimeServicesCode \<or> MT = EfiRuntimeServicesData"
    and P: "0 < P" "unat P + 2 ^ 52 < 2 ^ 64" and A: "A = 0 \<or> (\<exists>k<64. A = push_bit k 1)"
  shows "\<exists>a fl'. InternalAllocateAlignedPages MT P A fl = Inr (a, fl') \<and> pages_or_null P fl a fl' \<and>
     (a \<noteq> 0 \<longrightarrow> A \<noteq> 0 \<longrightarrow> unat a mod unat A = 0)"
proof -
  have P0: "\<not> P = 0" and uP: "0 < unat P" using P(1) by (auto simp: word_less_nat_alt)
  have as: "A AND (A - 1) = 0" using A pow_assert by auto
  note def = InternalAllocateAlignedPages_def[of MT P A fl, unfolded as if_not_P[OF P0] Let_def]
  show ?thesis
  proof (cases "A > EFI_PAGE_SIZE")
    case False
    from any_pages_or_null[OF ok P(1) MT] obtain st m fl' where
      r: "MmAllocatePages AllocateAnyPages MT P 0 fl = Inr (st, m, fl')"
      "pages_or_null P fl (if EFI_ERROR st then 0 else m) fl'" by blast
    with aligned_enough[OF A False r(2)] False show ?thesis unfolding def by auto
  next
    case True
    then obtain k where k: "k < 64" "A = push_bit k 1" using A by (auto simp: EFI_PAGE_SIZE_def)
    have k12: "12 < k" using small_alignment(1)[of k] True k(2) by (meson not_less)
    let ?R = "P + EFI_SIZE_TO_PAGES A"
    note pp = pow_pages[OF k12 k(1), folded k(2)]
    have "(2 :: nat) ^ (k - 12) \<le> 2 ^ 52" using k by (intro power_increasing) simp_all
    then have R: "unat ?R = unat P + 2 ^ (k - 12)" using P(2) pp(1) by (subst unat_add_small) auto
    then have RP: "?R > P" "0 < ?R" using uP by (simp_all add: word_less_nat_alt)
    from any_pages_or_null[OF ok RP(2) MT] obtain st m fl1 where
      r: "MmAllocatePages AllocateAnyPages MT ?R 0 fl = Inr (st, m, fl1)"
      "pages_or_null ?R fl (if EFI_ERROR st then 0 else m) fl1" "EFI_ERROR st \<longrightarrow> fl1 = fl" "\<not> EFI_ERROR st \<longrightarrow> m \<noteq> 0"
      by blast
    show ?thesis
    proof (cases "EFI_ERROR st")
      case err: True
      with r True RP ok show ?thesis unfolding def by (auto simp: pages_or_null_def)
    next
      case False
      then have b: "map_ok fl1" "wf_node (m, ?R)" "page_range (m, ?R) \<subseteq> free_pages fl"
        "free_pages fl1 = free_pages fl - page_range (m, ?R)" using r(2,4) by (auto simp: pages_or_null_def)
      from trim_both_ok[OF k12 k(1) b R uP, folded k(2)] False True RP r(1) show ?thesis
        unfolding def by (auto simp: k unat_pow2)
    qed
  qed
qed

theorem InternalAllocateAlignedPages_correct_witness:
  "InternalAllocateAlignedPages EfiRuntimeServicesData 2 0x4000 ex_map =
     Inr (0x10C000, [(0x100000, 12), (0x10E000, 2), (0x200000, 4)]) \<and>
   pages_or_null 2 ex_map 0x10C000 [(0x100000, 12), (0x10E000, 2), (0x200000, 4)]"
proof -
  have e: "InternalAllocateAlignedPages EfiRuntimeServicesData 2 0x4000 ex_map =
     Inr (0x10C000, [(0x100000, 12), (0x10E000, 2), (0x200000, 4)])" by code_simp
  have "(0x4000 :: UINT64) = push_bit 14 1" by simp
  then have "(0x4000 :: UINT64) = 0 \<or> (\<exists>k<64. (0x4000 :: UINT64) = push_bit k 1)" by (intro disjI2 exI[of _ 14]) simp
  from InternalAllocateAlignedPages_correct[OF ex_map_ok _ _ _ this, of EfiRuntimeServicesData 2] e
  show ?thesis by simp
qed

section \<open>Buffer contents\<close>

lemma InternalAllocatePool_ok:
  assumes ok: "pool_ok (pool s)" and sz: "size_in_range sz"
  shows "\<exists>b p. InternalAllocatePool PT sz s = Inr (b, s\<lparr>pool := p\<rparr>) \<and>
     (if b = 0 then p = pool s
      else taken (pool s) (b - SIZEOF_POOL_HEADER) (pool_block_size sz) p \<and>
           pool_shape (b - SIZEOF_POOL_HEADER) (pool_block_size sz))"
proof -
  from MmAllocatePool_ok[OF assms, of PT 0] obtain st b p where
    r: "MmAllocatePool PT sz 0 (pool s) = Inr (st, b, p)"
    and c: "if st = EFI_SUCCESS
      then taken (pool s) (b - SIZEOF_POOL_HEADER) (pool_block_size sz) p \<and>
           pool_shape (b - SIZEOF_POOL_HEADER) (pool_block_size sz)
      else p = pool s \<and> b = 0 \<and> EFI_ERROR st" by blast
  show ?thesis
  proof (cases "st = EFI_SUCCESS")
    case True
    with c have t: "taken (pool s) (b - SIZEOF_POOL_HEADER) (pool_block_size sz) p"
      "pool_shape (b - SIZEOF_POOL_HEADER) (pool_block_size sz)" by auto
    have "b \<noteq> 0" using buffer_in_block(1)[OF sz t(2)] by auto
    with True r t show ?thesis unfolding InternalAllocatePool_def by (intro exI[of _ b] exI[of _ p]) simp
  next
    case False
    with c r show ?thesis unfolding InternalAllocatePool_def by (intro exI[of _ 0] exI[of _ p]) simp
  qed
qed

text \<open>A write to one range and a read from another.\<close>

lemma in_buffer:
  fixes a b n :: UINT64
  assumes "unat b + unat n < 2 ^ 64" and "a - b < n"
  shows "unat a \<in> {unat b ..< unat b + unat n}"
proof -
  have "unat (b + (a - b)) = unat b + unat (a - b)"
    using assms by (intro unat_add_small) (simp add: word_less_nat_alt)
  then show ?thesis using assms(2) by (simp add: word_less_nat_alt)
qed

lemma realloc_content:
  fixes b n m :: UINT64
  assumes b: "unat b + unat n < 2 ^ 64" and old: "unat old + unat m < 2 ^ 64"
    and d: "{unat b ..< unat b + unat n} \<inter> {unat old ..< unat old + unat m} = {}" and i: "i < n"
  shows "content (CopyMem b old (min m n) (ZeroMem b n s)) (b + i) = (if i < m then content s (old + i) else 0)"
proof -
  have "\<not> old + i - b < n" if "i < m"
  proof
    assume "old + i - b < n"
    from in_buffer[OF b this] have "unat (old + i) \<in> {unat b ..< unat b + unat n}" .
    moreover have "unat (old + i) \<in> {unat old ..< unat old + unat m}"
      using that old in_buffer[OF old, of "old + i"] by simp
    ultimately show False using d by blast
  qed
  moreover have "i < min m n \<longleftrightarrow> i < m" using i by auto
  ultimately show ?thesis using i by (simp add: CopyMem_def ZeroMem_def write_bytes_def)
qed

lemma copy_zero_pool [simp]: "pool (CopyMem a b n s) = pool s" "pool (ZeroMem a n s) = pool s"
  by (simp_all add: CopyMem_def ZeroMem_def write_bytes_def)

text \<open>The bytes a caller has written lie inside the block that holds them.\<close>

lemma held_bytes:
  assumes "pool_held p h n" and B: "B = h + SIZEOF_POOL_HEADER" and len: "unat L + 24 \<le> unat n"
  shows "B \<noteq> 0" "unat B + unat L < 2 ^ 64" "{unat B ..< unat B + unat L} \<subseteq> byte_range (h, n)"
proof -
  have bd: "64 \<le> unat n" "unat h + unat n < 2 ^ 64"
    using pool_shape_bounds[of h n] assms(1) by (simp_all add: pool_held_def)
  then have ub: "unat B = unat h + 24" unfolding B by (subst unat_add_small) simp_all
  then show "B \<noteq> 0" by auto
  show "unat B + unat L < 2 ^ 64" using ub len bd by linarith
  show "{unat B ..< unat B + unat L} \<subseteq> byte_range (h, n)" using ub len by auto
qed

text \<open>
  C19. \<^verbatim>\<open>ReallocatePool\<close> of a live buffer returns null and changes nothing, or returns a new buffer
  whose first bytes, up to the smaller of the two sizes, are those of the old buffer and whose
  other bytes are zero; the old block, and nothing else, goes back to the pool.
\<close>

theorem ReallocatePool_correct:
  assumes ok: "pool_ok (pool s)" and sz: "size_in_range NewSize"
    and old: "pool_held (pool s) h n" "OldBuffer = h + SIZEOF_POOL_HEADER" "unat OldSize + 24 \<le> unat n"
  shows "\<exists>b s'. ReallocatePool OldSize NewSize OldBuffer s = Inr (b, s') \<and>
     (if b = 0 then s' = s
      else pool_ok (pool s') \<and> pool_held (pool s') (b - SIZEOF_POOL_HEADER) (pool_block_size NewSize) \<and>
        pool_bytes (pool s') =
          (pool_bytes (pool s) - byte_range (b - SIZEOF_POOL_HEADER, pool_block_size NewSize)) \<union> byte_range (h, n) \<and>
        (\<forall>i. i < NewSize \<longrightarrow> content s' (b + i) = (if i < OldSize then content s (OldBuffer + i) else 0)))"
proof -
  let ?h = "\<lambda>b. b - SIZEOF_POOL_HEADER" and ?n = "pool_block_size NewSize"
  from InternalAllocatePool_ok[OF ok sz, of EfiRuntimeServicesData] obtain b p where
    a: "InternalAllocatePool EfiRuntimeServicesData NewSize s = Inr (b, s\<lparr>pool := p\<rparr>)"
    and c: "if b = 0 then p = pool s else taken (pool s) (?h b) ?n p \<and> pool_shape (?h b) ?n" by blast
  note def = ReallocatePool_def InternalReallocatePool_def InternalAllocateZeroPool_def a bind_result_simps prod.case
  show ?thesis
  proof (cases "b = 0")
    case True
    with c show ?thesis unfolding def by simp
  next
    case False
    with c have t: "taken (pool s) (?h b) ?n p" and sh: "pool_shape (?h b) ?n" by auto
    have held: "mem_held p (PoolBlock h n)"
      by (rule held_shrink[of "pool s"]) (use t old(1) in \<open>auto simp: taken_def\<close>)
    have newheld: "mem_held p (PoolBlock (?h b) ?n)"
      using t sh by (auto simp: taken_def pool_held_def simp del: byte_range.simps)
    have okp: "pool_ok p" using t by (simp add: taken_def)
    from MmFreePool_ok[OF okp, of h n] held obtain p' where
      f: "MmFreePool OldBuffer p = Inr (EFI_SUCCESS, p')" "given p (byte_range (h, n)) p'" by (auto simp: old(2))
    have dis: "byte_range (?h b, ?n) \<inter> byte_range (h, n) = {}"
      using t old(1) unfolding taken_def pool_held_def by blast
    have kept: "mem_held p' (PoolBlock (?h b) ?n)"
      by (rule held_grow[OF newheld f(2)]) (simp only: mem_extent.simps dis)
    note bb = buffer_in_block[OF sz sh]
    note hb = held_bytes[OF old]
    have dd: "{unat b ..< unat b + unat NewSize} \<inter> {unat OldBuffer ..< unat OldBuffer + unat OldSize} = {}"
      using dis bb(2) hb(3) by blast
    let ?s1 = "CopyMem b OldBuffer (min OldSize NewSize) (ZeroMem b NewSize (s\<lparr>pool := p\<rparr>))"
    have r: "ReallocatePool OldSize NewSize OldBuffer s = Inr (b, ?s1\<lparr>pool := p'\<rparr>)"
      unfolding def using False hb(1) f(1) by (simp add: FreePool_def)
    have ct: "content (?s1\<lparr>pool := p'\<rparr>) (b + i) = (if i < OldSize then content s (OldBuffer + i) else 0)"
      if "i < NewSize" for i using realloc_content[OF bb(3) hb(2) dd that, of "s\<lparr>pool := p\<rparr>"] by simp
    show ?thesis unfolding r
      using False f(2) kept t ct by (intro exI[of _ b] exI[of _ "?s1\<lparr>pool := p'\<rparr>"])
        (simp add: given_def taken_def del: byte_range.simps)
  qed
qed

definition ex_lib :: lib_state where
  "ex_lib = \<lparr>pool = ex_held, content = (\<lambda>a. ucast a)\<rparr>"

theorem ReallocatePool_correct_witness:
  "\<exists>s'. ReallocatePool 16 4000 0x300018 ex_lib = Inr (0x203018, s') \<and>
     content s' (0x203018 + 3) = content ex_lib (0x300018 + 3) \<and> content s' (0x203018 + 20) = 0"
proof -
  have ok: "pool_ok (pool ex_lib)" and held: "pool_held (pool ex_lib) 0x300000 64" and sz: "size_in_range 4000"
    using ex_held_ok ex_held_block by (simp_all add: ex_lib_def size_in_range_def)
  have "(case ReallocatePool 16 4000 0x300018 ex_lib of Inl e \<Rightarrow> None | Inr (b, s') \<Rightarrow> Some b) = Some 0x203018"
    by code_simp
  then obtain s' where r: "ReallocatePool 16 4000 0x300018 ex_lib = Inr (0x203018, s')"
    by (auto split: sum.splits)
  have "0x300018 = 0x300000 + SIZEOF_POOL_HEADER" "unat (16 :: UINTN) + 24 \<le> unat (64 :: UINTN)" by simp_all
  from ReallocatePool_correct[OF ok sz held this] r
  have "\<forall>i. i < 4000 \<longrightarrow> content s' (0x203018 + i) = (if i < 16 then content ex_lib (0x300018 + i) else 0)" by auto
  from spec[OF this, of 3] spec[OF this, of 20] r show ?thesis by simp
qed

section \<open>The heap region\<close>

definition usable :: "UINT64 \<Rightarrow> EFI_MMRAM_DESCRIPTOR \<Rightarrow> bool" where
  "usable skip_mask d \<longleftrightarrow> \<not> CpuStart d < BASE_1MB \<and> RegionState d AND skip_mask = 0"

definition range_pages :: "EFI_MMRAM_DESCRIPTOR \<Rightarrow> nat set" where
  "range_pages d = whole_pages (CpuStart d) (PhysicalSize d)"

lemma add_regions_ok:
  assumes "map_ok fl" and "list_all (\<lambda>d. region_ok (CpuStart d) (PhysicalSize d)) (filter (usable skip) ds)"
    and "disjoint_blocks range_pages (filter (usable skip) ds)"
    and "owned range_pages (filter (usable skip) ds) \<inter> free_pages fl = {}"
  shows "\<exists>fl'. add_regions skip ds fl = Inr fl' \<and> map_ok fl' \<and>
     free_pages fl' = free_pages fl \<union> owned range_pages (filter (usable skip) ds)"
  using assms
proof (induction ds arbitrary: fl)
  case (Cons d ds)
  consider (low) "CpuStart d < BASE_1MB" | (skip) "\<not> CpuStart d < BASE_1MB" "RegionState d AND skip \<noteq> 0"
    | (use) "\<not> CpuStart d < BASE_1MB" "RegionState d AND skip = 0" by blast
  then show ?case
  proof cases
    case low
    then show ?thesis using Cons.IH[OF Cons.prems(1)] Cons.prems by (simp add: usable_def)
  next
    case skip
    then show ?thesis using Cons.IH[OF Cons.prems(1)] Cons.prems by (simp add: usable_def MmAddMemoryRegion_def)
  next
    case use
    then have u: "filter (usable skip) (d # ds) = d # filter (usable skip) ds" by (simp add: usable_def)
    note p = Cons.prems[unfolded u]
    have d: "whole_pages (CpuStart d) (PhysicalSize d) \<inter> free_pages fl = {}" using p(4) by (auto simp: range_pages_def)
    have rg: "region_ok (CpuStart d) (PhysicalSize d)" using p(2) by simp
    from add_region_ok[OF p(1) rg d use(2)] obtain fl1 where
      a: "MmAddMemoryRegion skip (CpuStart d) (PhysicalSize d) EfiConventionalMemory (RegionState d) fl = Inr fl1"
      "map_ok fl1" "free_pages fl1 = free_pages fl \<union> range_pages d" by (auto simp: range_pages_def)
    have "\<exists>fl'. add_regions skip ds fl1 = Inr fl' \<and> map_ok fl' \<and>
        free_pages fl' = free_pages fl1 \<union> owned range_pages (filter (usable skip) ds)"
      using p a(3) by (intro Cons.IH[OF a(2)]) auto
    with a use show ?thesis unfolding u by auto
  qed
qed simp

lemma init_pools_ok:
  fixes s :: pool_state
  assumes "map_ok fl"
  defines "s' \<equiv> s\<lparr>mMmMemoryMap := fl, mMmPoolLists := replicate MAX_POOL_INDEX []\<rparr>"
  shows "pool_ok s'" and "pool_bytes s' = free_bytes fl"
proof -
  have ps: "pool_set s' = {}" by (auto simp: pool_set_def s'_def)
  show "pool_ok s'" using assms(1) ps by (simp add: pool_ok_def s'_def)
  show "pool_bytes s' = free_bytes fl" by (simp add: pool_bytes_def ps) (simp add: s'_def)
qed

lemma init_services_ok:
  assumes "map_ok (mMmMemoryMap s)"
    and "list_all (\<lambda>d. region_ok (CpuStart d) (PhysicalSize d)) (filter (usable skip) ds)"
    and "disjoint_blocks range_pages (filter (usable skip) ds)"
    and "owned range_pages (filter (usable skip) ds) \<inter> free_pages (mMmMemoryMap s) = {}"
  shows "\<exists>s'. MmInitializeMemoryServices skip ds s = Inr s' \<and> pool_ok s' \<and>
     pool_bytes s' = {x. x div 4096 \<in> free_pages (mMmMemoryMap s) \<union> owned range_pages (filter (usable skip) ds)}"
  using add_regions_ok[OF assms] init_pools_ok
  by (fastforce simp: MmInitializeMemoryServices_def free_bytes_def)

text \<open>
  \<^verbatim>\<open>MmInitializeMemoryServices\<close> makes exactly the usable memory available: for disjoint
  ranges it leaves a sound allocator state whose free bytes are the whole pages of the ranges
  that start at 1 MB or above and are neither allocated nor waiting for tests, next to what
  was free before.
\<close>

theorem MmInitializeMemoryServices_correct:
  assumes "map_ok (mMmMemoryMap s)"
    and "list_all (\<lambda>d. region_ok (CpuStart d) (PhysicalSize d)) (filter (usable skip) ds)"
    and "disjoint_blocks range_pages (filter (usable skip) ds)"
    and "owned range_pages (filter (usable skip) ds) \<inter> free_pages (mMmMemoryMap s) = {}"
  shows "\<exists>s'. MmInitializeMemoryServices skip ds s = Inr s' \<and> pool_ok s' \<and>
     pool_bytes s' = {x. x div 4096 \<in> free_pages (mMmMemoryMap s) \<union> owned range_pages (filter (usable skip) ds)}"
  using assms by (rule init_services_ok)

definition ex_empty :: pool_state where
  "ex_empty = \<lparr>mMmMemoryMap = [], mMmPoolLists = [], headers = (\<lambda>a. None)\<rparr>"

definition ex_ranges :: "EFI_MMRAM_DESCRIPTOR list" where
  "ex_ranges = [\<lparr>PhysicalStart = 0, CpuStart = 0x1000, PhysicalSize = 0x4000, RegionState = 0\<rparr>,
     \<lparr>PhysicalStart = 0, CpuStart = 0x200800, PhysicalSize = 0x4000, RegionState = 0\<rparr>]"

theorem MmInitializeMemoryServices_correct_witness:
  "\<exists>s'. MmInitializeMemoryServices 0x10 ex_ranges ex_empty = Inr s' \<and> pool_ok s' \<and>
     mMmMemoryMap s' = [(0x201000, 3)]"
proof -
  have f: "filter (usable 0x10) ex_ranges = [ex_ranges ! 1]"
    by (simp add: ex_ranges_def usable_def BASE_1MB_def)
  have "map_ok (mMmMemoryMap ex_empty)" by (simp add: ex_empty_def map_ok_def coalesced_def)
  moreover have "list_all (\<lambda>d. region_ok (CpuStart d) (PhysicalSize d)) (filter (usable 0x10) ex_ranges)"
    unfolding f by (simp add: ex_ranges_def region_ok_def)
  moreover have "disjoint_blocks range_pages (filter (usable 0x10) ex_ranges)" unfolding f by simp
  moreover have "owned range_pages (filter (usable 0x10) ex_ranges) \<inter> free_pages (mMmMemoryMap ex_empty) = {}"
    by (simp add: ex_empty_def)
  ultimately have "\<exists>s'. MmInitializeMemoryServices 0x10 ex_ranges ex_empty = Inr s' \<and> pool_ok s'"
    using MmInitializeMemoryServices_correct[of ex_empty "0x10" ex_ranges] by blast
  moreover have "(case MmInitializeMemoryServices 0x10 ex_ranges ex_empty of Inl e \<Rightarrow> [] | Inr s' \<Rightarrow> mMmMemoryMap s') =
      [(0x201000, 3)]" by code_simp
  ultimately show ?thesis by auto
qed

text \<open>
  A region shorter than the padding to its first page boundary: the length wraps around, and
  almost the whole address space becomes free memory.
\<close>

lemma MmAddMemoryRegion_wraps:
  "MmAddMemoryRegion 0x10 0x100800 0x100 EfiConventionalMemory 0 [] = Inr [(0x101000, 0xFFFFFFFFFFFFF)]"
  by code_simp

section \<open>The constructor\<close>

lemma unat_ucast32: "unat (ucast (w :: UINT32) :: UINT64) = unat w"
proof -
  have "unat w < 2 ^ 32" using unsigned_less[of w] by simp
  then have "unat w < 2 ^ 64" by (rule less_trans) simp
  then show ?thesis by (simp add: unsigned_ucast_eq take_bit_nat_eq_self_iff)
qed

lemma page_cover:
  assumes "4096 dvd b"
  shows "{x. x div 4096 \<in> {p. b \<le> p * 4096 \<and> (p + 1) * 4096 \<le> b + n * 4096}} = {b ..< b + n * (4096 :: nat)}"
proof -
  from assms obtain q where b: "b = q * 4096" by (metis dvd_def mult.commute)
  have "q \<le> x div 4096 \<longleftrightarrow> q * 4096 \<le> x" for x by (simp add: less_eq_div_iff_mult_less_eq)
  moreover have "x div 4096 < q + n \<longleftrightarrow> x < (q + n) * 4096" for x by (simp add: div_less_iff_less_mult)
  moreover have "(p + 1) * 4096 \<le> q * 4096 + n * 4096 \<longleftrightarrow> p < q + n" for p :: nat
    by (simp only: add_mult_distrib[symmetric] mult_le_cancel2) auto
  ultimately show ?thesis unfolding b by (auto simp: add_mult_distrib)
qed

text \<open>The first memory region of the manifest: a heap of \<open>cnt\<close> pages at \<open>base\<close>, in the range the library can serve.\<close>

definition heap_manifest :: "FDT \<Rightarrow> UINT64 \<Rightarrow> UINT32 \<Rightarrow> bool" where
  "heap_manifest dtb base cnt \<longleftrightarrow>
     (let regions = FdtSubnodeOffsetNameLen dtb (FdtNodeOffsetByCompatible dtb (- 1) ''arm,ffa-manifest-1.0'') ''memory-regions'';
          Node = FdtFirstSubnode dtb regions
      in 1 \<le> regions \<and> 0 \<le> Node \<and> CheckDescription dtb Node ''heap'' \<and>
         FdtGetProperty dtb Node ''base-address'' = Some (rev (bytes_of 8 base)) \<and>
         FdtGetProperty dtb Node ''pages-count'' = Some (rev (bytes_of 4 cnt)) \<and>
         \<not> base < BASE_1MB \<and> unat base mod 4096 = 0 \<and> 0 < unat cnt \<and> unat cnt < 2 ^ 20 \<and>
         unat base + unat cnt * 4096 < 2 ^ 64)"

text \<open>
  The library constructor sets up the heap of the manifest: when the first region has a
  description that agrees with \<^verbatim>\<open>heap\<close>, a page-aligned base at 1 MB or above and fewer than
  \<open>2^20\<close> pages, the constructor succeeds, and exactly the pages of the region become free memory
  unless the descriptor's unwritten state marks the range as unusable: then nothing does.
\<close>

theorem MemoryAllocationLibConstructor_correct:
  assumes man: "heap_manifest dtb base cnt"
    and empty: "mMmMemoryMap s = []"
  shows "\<exists>s'. MemoryAllocationLibConstructor skip (Some dtb) MmramRange s = Inr (EFI_SUCCESS, s') \<and> pool_ok s' \<and>
     pool_bytes s' = (if RegionState MmramRange AND skip = 0 then {unat base ..< unat base + unat cnt * 4096} else {})"
proof -
  define Node where "Node = FdtFirstSubnode dtb (FdtSubnodeOffsetNameLen dtb
      (FdtNodeOffsetByCompatible dtb (- 1) ''arm,ffa-manifest-1.0'') ''memory-regions'')"
  have node: "1 \<le> FdtSubnodeOffsetNameLen dtb (FdtNodeOffsetByCompatible dtb (- 1) ''arm,ffa-manifest-1.0'')
      ''memory-regions''" and first: "0 \<le> Node" and desc: "CheckDescription dtb Node ''heap''"
    and cells: "FdtGetProperty dtb Node ''base-address'' = Some (rev (bytes_of 8 base))"
      "FdtGetProperty dtb Node ''pages-count'' = Some (rev (bytes_of 4 cnt))"
    and rng: "\<not> base < BASE_1MB" "unat base mod 4096 = 0" "0 < unat cnt" "unat cnt < 2 ^ 20"
      "unat base + unat cnt * 4096 < 2 ^ 64"
    using man by (simp_all add: heap_manifest_def Let_def Node_def)
  let ?len = "ucast (cnt * ucast EFI_PAGE_SIZE) :: UINT64"
  let ?d = "MmramRange\<lparr>CpuStart := base, PhysicalSize := ?len\<rparr>"
  have len: "unat ?len = unat cnt * 4096"
  proof -
    have "unat (cnt * 0x1000) = unat cnt * 4096" using rng(4) by (simp add: unat_word_ariths)
    then show ?thesis by (simp add: EFI_PAGE_SIZE_def unat_ucast32)
  qed
  have "read_cell 8 (rev (bytes_of 8 base)) = Inr base" "read_cell 4 (rev (bytes_of 4 cnt)) = Inr cnt"
    by (simp_all add: read_cell_def word_of_bytes_bytes_of)
  then have r: "ReadRegionInfo dtb Node ''heap'' (ucast EFI_PAGE_SIZE) = Inr (Some (base, ?len))"
    using desc cells by (simp add: ReadRegionInfo_def ReadProperty64_def ReadProperty32_def)
  have al: "(unat base + 4095) div 4096 * 4096 = unat base" using rng(2) by auto
  have rg: "region_ok base ?len" unfolding region_ok_def len al using rng(1,3,5)
    by (auto simp: BASE_1MB_def word_less_nat_alt)
  have u: "filter (usable skip) [?d] = (if RegionState MmramRange AND skip = 0 then [?d] else [])"
    using rng(1) by (simp add: usable_def)
  have wp: "{x. x div 4096 \<in> whole_pages base ?len} = {unat base ..< unat base + unat cnt * 4096}"
    using rng(2) unfolding whole_pages_def len by (intro page_cover) auto
  have "\<exists>s'. MmInitializeMemoryServices skip [?d] s = Inr s' \<and> pool_ok s' \<and>
      pool_bytes s' = {x. x div 4096 \<in> free_pages (mMmMemoryMap s) \<union> owned range_pages (filter (usable skip) [?d])}"
    using rg empty by (intro init_services_ok) (simp_all add: u map_ok_def coalesced_def)
  then obtain s' where s': "MmInitializeMemoryServices skip [?d] s = Inr s'" "pool_ok s'"
    "pool_bytes s' = (if RegionState MmramRange AND skip = 0 then {unat base ..< unat base + unat cnt * 4096} else {})"
    unfolding u using wp by (auto simp: range_pages_def empty)
  have "MemoryAllocationLibConstructor skip (Some dtb) MmramRange s = Inr (EFI_SUCCESS, s')"
    using node first r s'(1) by (simp add: MemoryAllocationLibConstructor_def Let_def Node_def)
  with s'(2,3) show ?thesis by blast
qed

text \<open>A manifest whose only region is a heap of 16 pages at \<open>0x200000\<close>.\<close>

definition ex_fdt :: FDT where
  "ex_fdt = \<lparr>FdtGetProperty = (\<lambda>n k. if n \<noteq> 40 then None
       else if k = ''description'' then Some (map of_char ''heap'')
       else if k = ''base-address'' then Some [0, 0, 0, 0, 0, 0x20, 0, 0]
       else if k = ''pages-count'' then Some [0, 0, 0, 16] else None),
     FdtNodeOffsetByCompatible = (\<lambda>_ _. 0), FdtSubnodeOffsetNameLen = (\<lambda>_ _. 20),
     FdtFirstSubnode = (\<lambda>_. 40), FdtNextSubnode = (\<lambda>_. - 1)\<rparr>"

lemma ex_heap: "heap_manifest ex_fdt 0x200000 16"
proof -
  have b: "rev (bytes_of 8 (0x200000 :: UINT64)) = [0, 0, 0, 0, 0, 0x20, 0, 0]"
    and c: "rev (bytes_of 4 (16 :: UINT32)) = [0, 0, 0, 16]" by code_simp+
  show ?thesis unfolding heap_manifest_def b c by (simp add: CheckDescription_def ex_fdt_def BASE_1MB_def)
qed

theorem MemoryAllocationLibConstructor_correct_witness:
  "\<exists>s'. MemoryAllocationLibConstructor 0x10 (Some ex_fdt) (ex_ranges ! 0) ex_empty = Inr (EFI_SUCCESS, s') \<and>
     pool_ok s' \<and> pool_bytes s' = {0x200000 ..< 0x210000}"
proof -
  have "\<exists>s'. MemoryAllocationLibConstructor 0x10 (Some ex_fdt) (ex_ranges ! 0) ex_empty = Inr (EFI_SUCCESS, s') \<and>
     pool_ok s' \<and> pool_bytes s' = {unat (0x200000 :: UINT64) ..< unat (0x200000 :: UINT64) + unat (16 :: UINT32) * 4096}"
    using MemoryAllocationLibConstructor_correct[OF ex_heap, of ex_empty "0x10" "ex_ranges ! 0"]
    by (simp add: ex_ranges_def ex_empty_def)
  then show ?thesis by simp
qed

text \<open>
  The region size is computed in 32 bits: a region of \<open>2^20\<close> pages has size zero, and the
  constructor reports success with a free range of no pages.
\<close>

lemma region_size_truncated:
  "map_sum id (map_prod id mMmMemoryMap)
     (MemoryAllocationLibConstructor 0x10
        (Some (ex_fdt\<lparr>FdtGetProperty := (FdtGetProperty ex_fdt)(40 :=
           (FdtGetProperty ex_fdt 40)(''pages-count'' := Some [0, 0x10, 0, 0]))\<rparr>)) (ex_ranges ! 0) ex_empty) =
   Inr (EFI_SUCCESS, [(0x200000, 0)])"
  by code_simp

text \<open>
  The descriptor's region state is never written: if the stack holds a bit of the mask there,
  the heap is skipped and the constructor still reports success.
\<close>

lemma region_state_uninitialised:
  "map_sum id (map_prod id mMmMemoryMap)
     (MemoryAllocationLibConstructor 0x10 (Some ex_fdt) ((ex_ranges ! 0)\<lparr>RegionState := 0x10\<rparr>) ex_empty) =
   Inr (EFI_SUCCESS, [])"
  by code_simp

end
