(* ===== verification/PePermissions.thy ===== *)
theory PePermissions
  imports Prelude
begin

text \<open>
  \<^verbatim>\<open>SetPermissions.c\<close> of \<^verbatim>\<open>SecurePartitionEntryPoint\<close>: finding the PE/COFF image of the partition in
  its firmware volume and setting the permissions of its sections. The PE/COFF loader, the
  firmware volume library and the layout of the image headers are outside the repository and
  a record of parameters; reading a header is a function from the offset in the file. The
  calls to the permission updaters, whose status the code ignores, are a list in call order.
\<close>

section \<open>Definitions\<close>

text \<open>The fields the code reads of \<^verbatim>\<open>EFI_IMAGE_SECTION_HEADER\<close> and of the PE or TE header.\<close>

record section_header =
  VirtualSize :: UINT32
  VirtualAddress :: UINT32
  Characteristics :: UINT32

record image_header =
  Pe_Signature :: UINT32
  Pe_NumberOfSections :: UINT16
  Pe_SizeOfOptionalHeader :: UINT16
  Pe_Magic :: UINT16
  Te_NumberOfSections :: UINT8
  Te_StrippedSize :: UINT16

text \<open>The fields used of \<^verbatim>\<open>PE_COFF_LOADER_IMAGE_CONTEXT\<close>; \<open>Handle\<close> is the address of the image data.\<close>

record image_context =
  Handle :: UINT64
  ImageAddress :: UINT64
  SectionAlignment :: UINT32
  PeCoffHeaderOffset :: UINT32
  IsTeImage :: bool

text \<open>
  \<open>ImageRead\<close> of a section header or an image header: the handle and the offset give a status,
  the number of bytes read and the header.
\<close>

record pe_env =
  read_section :: "UINT64 \<Rightarrow> UINT32 \<Rightarrow> EFI_STATUS \<times> UINTN \<times> section_header"
  read_header :: "UINT64 \<Rightarrow> UINT32 \<Rightarrow> EFI_STATUS \<times> UINTN \<times> image_header"
  PeCoffLoaderGetImageInfo :: "image_context \<Rightarrow> EFI_STATUS \<times> image_context"
  sizeof_section_header :: UINT32
  sizeof_header_union :: UINTN
  sizeof_file_header :: UINT32
  sizeof_te_header :: UINT32
  EFI_IMAGE_SCN_MEM_EXECUTE :: UINT32
  EFI_IMAGE_SCN_MEM_WRITE :: UINT32
  EFI_IMAGE_NT_SIGNATURE :: UINT32
  HDR32_MAGIC :: UINT16
  HDR64_MAGIC :: UINT16

datatype perm_call =
    TextUpdater UINT64 UINT64        \<comment> \<open>base and length: remove execute\<close>
  | ReadWriteUpdater UINT64 UINT64   \<comment> \<open>base and length: allow writes\<close>

definition section_calls :: "pe_env \<Rightarrow> UINT64 \<Rightarrow> section_header \<Rightarrow> perm_call list" where
  "section_calls env ImageBase h =
     (if Characteristics h AND EFI_IMAGE_SCN_MEM_EXECUTE env = 0
      then let Base = ImageBase + ucast (VirtualAddress h); Len = ucast (VirtualSize h)
           in TextUpdater Base Len #
              (if Characteristics h AND EFI_IMAGE_SCN_MEM_WRITE env \<noteq> 0 then [ReadWriteUpdater Base Len] else [])
      else [])"

text \<open>The loop over the sections, with the number of rounds left; a section of size 0 is skipped.\<close>

fun section_loop :: "pe_env \<Rightarrow> UINT64 \<Rightarrow> UINT64 \<Rightarrow> UINT32 \<Rightarrow> nat \<Rightarrow> EFI_STATUS \<times> perm_call list" where
  "section_loop env hdl ImageBase off 0 = (EFI_SUCCESS, [])"
| "section_loop env hdl ImageBase off (Suc n) =
     (let (Status, Size, h) = read_section env hdl off
      in if EFI_ERROR Status \<or> Size \<noteq> ucast (sizeof_section_header env) then (Status, [])
         else if VirtualSize h = 0 then section_loop env hdl ImageBase off n
         else let (Status', calls) = section_loop env hdl ImageBase (off + sizeof_section_header env) n
              in (Status', section_calls env ImageBase h @ calls))"

definition UpdateMmFoundationPeCoffPermissions ::
  "pe_env \<Rightarrow> image_context \<Rightarrow> UINT64 \<Rightarrow> UINT32 \<Rightarrow> UINT16 \<Rightarrow> EFI_STATUS \<times> perm_call list" where
  "UpdateMmFoundationPeCoffPermissions env ImageContext ImageBase SectionHeaderOffset NumberOfSections =
     section_loop env (Handle ImageContext) ImageBase SectionHeaderOffset (unat NumberOfSections)"

text \<open>The firmware volume library: the file of a type, and the data of a section of a file.\<close>

datatype ffs_section = EFI_SECTION_PE32 | EFI_SECTION_TE

record ffs_env =
  FfsFindSecurityCore :: "UINT64 \<Rightarrow> EFI_STATUS \<times> UINT64"
  FfsFindSectionData :: "ffs_section \<Rightarrow> UINT64 \<Rightarrow> EFI_STATUS \<times> UINT64 \<times> UINTN"

text \<open>The status, and the address and size of the image data when it is a success.\<close>

definition LocateStandaloneMmCorePeCoffData :: "ffs_env \<Rightarrow> UINT64 \<Rightarrow> EFI_STATUS \<times> UINT64 \<times> UINTN" where
  "LocateStandaloneMmCorePeCoffData ffs BfvAddress =
     (let (Status, FileHeader) = FfsFindSecurityCore ffs BfvAddress
      in if EFI_ERROR Status then (Status, 0, 0)
         else let (Status1, TeData, TeDataSize) = FfsFindSectionData ffs EFI_SECTION_PE32 FileHeader
              in if EFI_ERROR Status1 then FfsFindSectionData ffs EFI_SECTION_TE FileHeader
                 else (Status1, TeData, TeDataSize))"

definition EFI_PAGE_SIZE32 :: UINT32 where "EFI_PAGE_SIZE32 = 0x1000"

text \<open>
  The status, the updated context and, when the function gets to write them, the image base,
  the offset of the section headers and their number.
\<close>

definition GetPeCoffSectionInformation ::
  "pe_env \<Rightarrow> image_context \<Rightarrow> (EFI_STATUS \<times> image_context \<times> (UINT64 \<times> UINT32 \<times> UINT16) option) result" where
  "GetPeCoffSectionInformation env ctx0 =
     (let (Status, ctx) = PeCoffLoaderGetImageInfo env ctx0
      in if EFI_ERROR Status then Inr (Status, ctx, None)
         else if SectionAlignment ctx < EFI_PAGE_SIZE32 \<and> \<not> IsTeImage ctx then Inr (EFI_UNSUPPORTED, ctx, None)
         else let ctx1 = (if SectionAlignment ctx < EFI_PAGE_SIZE32 then ctx\<lparr>SectionAlignment := EFI_PAGE_SIZE32\<rparr>
                          else ctx);
                  (Status1, Size, Hdr) = read_header env (Handle ctx1) (PeCoffHeaderOffset ctx1)
              in if EFI_ERROR Status1 \<or> Size \<noteq> sizeof_header_union env then Inr (Status1, ctx1, None)
                 else if \<not> IsTeImage ctx1
                 then ASSERT (Pe_Signature Hdr = EFI_IMAGE_NT_SIGNATURE env)
                        (ASSERT (Pe_Magic Hdr = HDR32_MAGIC env \<or> Pe_Magic Hdr = HDR64_MAGIC env)
                           (Inr (EFI_SUCCESS, ctx1,
                              Some (ImageAddress ctx1,
                                PeCoffHeaderOffset ctx1 + 4 + sizeof_file_header env +
                                  ucast (Pe_SizeOfOptionalHeader Hdr),
                                Pe_NumberOfSections Hdr))))
                 else Inr (EFI_SUCCESS, ctx1,
                        Some (ImageAddress ctx1 - (ucast (Te_StrippedSize Hdr) - ucast (sizeof_te_header env)),
                              sizeof_te_header env, ucast (Te_NumberOfSections Hdr))))"

definition GetStandaloneMmCorePeCoffSections ::
  "pe_env \<Rightarrow> UINT64 \<Rightarrow> (EFI_STATUS \<times> image_context \<times> (UINT64 \<times> UINT32 \<times> UINT16) option) result" where
  "GetStandaloneMmCorePeCoffSections env TeData =
     GetPeCoffSectionInformation env
       \<lparr>Handle = TeData, ImageAddress = 0, SectionAlignment = 0, PeCoffHeaderOffset = 0, IsTeImage = False\<rparr>"

section \<open>Properties\<close>

text \<open>Every region that becomes writable has lost the right to execute just before.\<close>

fun xn_first :: "perm_call list \<Rightarrow> bool" where
  "xn_first (TextUpdater b l # ReadWriteUpdater b' l' # cs) \<longleftrightarrow> b' = b \<and> l' = l \<and> xn_first cs"
| "xn_first (ReadWriteUpdater b l # cs) \<longleftrightarrow> False"
| "xn_first (TextUpdater b l # cs) \<longleftrightarrow> xn_first cs"
| "xn_first [] \<longleftrightarrow> True"

lemma xn_first_text: "xn_first cs \<Longrightarrow> xn_first (TextUpdater b l # cs)"
  by (cases cs rule: xn_first.cases) auto

lemma xn_first_section: "xn_first cs \<Longrightarrow> xn_first (section_calls env base h @ cs)"
  by (auto simp: section_calls_def Let_def xn_first_text)

lemma xn_first_append: "xn_first cs \<Longrightarrow> xn_first ds \<Longrightarrow> xn_first (cs @ ds)"
  by (induction cs rule: xn_first.induct) (auto simp: xn_first_text)

lemma section_loop_xn: "xn_first (snd (section_loop env hdl base off n))"
  by (induction env hdl base off n rule: section_loop.induct)
    (auto simp: Let_def split: prod.splits intro: xn_first_section)

text \<open>The headers of the sections, when the image can be read.\<close>

definition section_at :: "pe_env \<Rightarrow> UINT64 \<Rightarrow> UINT32 \<Rightarrow> nat \<Rightarrow> section_header" where
  "section_at env hdl off i = snd (snd (read_section env hdl (off + of_nat i * sizeof_section_header env)))"

definition readable :: "pe_env \<Rightarrow> UINT64 \<Rightarrow> UINT32 \<Rightarrow> nat \<Rightarrow> bool" where
  "readable env hdl off n \<longleftrightarrow> list_all (\<lambda>i. let r = read_section env hdl (off + of_nat i * sizeof_section_header env)
     in \<not> EFI_ERROR (fst r) \<and> fst (snd r) = ucast (sizeof_section_header env)) [0..<n]"

text \<open>The number of sections before the first empty one.\<close>

definition live_sections :: "pe_env \<Rightarrow> UINT64 \<Rightarrow> UINT32 \<Rightarrow> nat \<Rightarrow> nat" where
  "live_sections env hdl off n = (case first_index (\<lambda>i. VirtualSize (section_at env hdl off i) = 0) n of
     None \<Rightarrow> n | Some i \<Rightarrow> i)"

lemma section_at_Suc: "section_at env hdl off (Suc i) = section_at env hdl (off + sizeof_section_header env) i"
  by (simp add: section_at_def algebra_simps)

lemma readable_Suc:
  "readable env hdl off (Suc n) \<longleftrightarrow>
     \<not> EFI_ERROR (fst (read_section env hdl off)) \<and>
     fst (snd (read_section env hdl off)) = ucast (sizeof_section_header env) \<and>
     readable env hdl (off + sizeof_section_header env) n"
proof -
  have "[0..<Suc n] = 0 # map Suc [0..<n]" by (simp add: map_Suc_upt upt_conv_Cons)
  then show ?thesis by (simp add: readable_def Let_def list.pred_map comp_def algebra_simps del: upt_Suc)
qed

lemma find_mapped: "find P (map f xs) = map_option f (find (\<lambda>x. P (f x)) xs)"
  by (induction xs) simp_all

lemma live_sections_Suc:
  "live_sections env hdl off (Suc n) =
     (if VirtualSize (section_at env hdl off 0) = 0 then 0
      else Suc (live_sections env hdl (off + sizeof_section_header env) n))"
proof -
  have "[0..<Suc n] = 0 # map Suc [0..<n]" by (simp add: map_Suc_upt upt_conv_Cons)
  then have "first_index P (Suc n) = (if P 0 then Some 0 else map_option Suc (first_index (\<lambda>i. P (Suc i)) n))" for P
    by (simp add: first_index_def find_mapped del: upt_Suc)
  then show ?thesis by (simp add: live_sections_def section_at_Suc split: option.split)
qed

text \<open>An empty section is read again in every later round.\<close>

lemma section_loop_stalls:
  assumes "read_section env hdl off = (st, sz, h)" "\<not> EFI_ERROR st" "sz = ucast (sizeof_section_header env)"
    and "VirtualSize h = 0"
  shows "section_loop env hdl base off n = (EFI_SUCCESS, [])"
  using assms by (induction n) simp_all

lemma section_loop_exact:
  assumes "readable env hdl off n"
  shows "section_loop env hdl base off n =
     (EFI_SUCCESS, concat (map (\<lambda>i. section_calls env base (section_at env hdl off i)) [0..<live_sections env hdl off n]))"
  using assms
proof (induction n arbitrary: off)
  case 0
  then show ?case by (simp add: live_sections_def first_index_def)
next
  case (Suc n)
  obtain st sz h where r: "read_section env hdl off = (st, sz, h)" by (cases "read_section env hdl off") auto
  have ok: "\<not> EFI_ERROR st" "sz = ucast (sizeof_section_header env)" "readable env hdl (off + sizeof_section_header env) n"
    using Suc.prems r unfolding readable_Suc by auto
  have h: "section_at env hdl off 0 = h" by (simp add: section_at_def r)
  show ?case
  proof (cases "VirtualSize h = 0")
    case True
    then show ?thesis unfolding section_loop_stalls[OF r ok(1,2) True] by (simp add: live_sections_Suc h)
  next
    case False
    let ?k = "live_sections env hdl (off + sizeof_section_header env) n"
    have u: "[0..<Suc ?k] = 0 # map Suc [0..<?k]" by (simp add: map_Suc_upt upt_conv_Cons)
    have "section_loop env hdl base off (Suc n) =
        (EFI_SUCCESS, section_calls env base h @
          concat (map (\<lambda>i. section_calls env base (section_at env hdl (off + sizeof_section_header env) i)) [0..<?k]))"
      using r ok False Suc.IH[OF ok(3)] by simp
    with False show ?thesis unfolding live_sections_Suc h
      by (simp add: u h section_at_Suc comp_def del: upt_Suc)
  qed
qed


text \<open>An image with a data section, an empty section and a second data section.\<close>

definition ex_pe :: pe_env where
  "ex_pe = \<lparr>read_section = (\<lambda>_ off. (EFI_SUCCESS, 40,
       \<lparr>VirtualSize = (if off = 0x228 then 0 else 0x1000), VirtualAddress = off * 0x1000,
        Characteristics = 0x80000000\<rparr>)),
     read_header = (\<lambda>_ _. (EFI_SUCCESS, 264, \<lparr>Pe_Signature = 0x4550, Pe_NumberOfSections = 3,
       Pe_SizeOfOptionalHeader = 0xF0, Pe_Magic = 0x20B, Te_NumberOfSections = 0, Te_StrippedSize = 0\<rparr>)),
     PeCoffLoaderGetImageInfo = (\<lambda>ctx. (EFI_SUCCESS, ctx\<lparr>ImageAddress := 0x400000, SectionAlignment := 0x1000,
       PeCoffHeaderOffset := 0xF8\<rparr>)),
     sizeof_section_header = 40, sizeof_header_union = 264, sizeof_file_header = 20, sizeof_te_header = 40,
     EFI_IMAGE_SCN_MEM_EXECUTE = 0x20000000, EFI_IMAGE_SCN_MEM_WRITE = 0x80000000, EFI_IMAGE_NT_SIGNATURE = 0x4550,
     HDR32_MAGIC = 0x10B, HDR64_MAGIC = 0x20B\<rparr>"

definition ex_ctx :: image_context where
  "ex_ctx = \<lparr>Handle = 0x10000, ImageAddress = 0x400000, SectionAlignment = 0x1000, PeCoffHeaderOffset = 0xF8,
     IsTeImage = False\<rparr>"


end
