(* ===== verification/EntryPoint.thy ===== *)
theory EntryPoint
  imports Fdt PePermissions
begin

text \<open>
  \<^verbatim>\<open>StandaloneMmCoreEntryPoint.c\<close>: the entry point of a secure partition. It checks the FF-A
  version, finds the manifest through the boot information, reads the load address from it,
  locates the PE/COFF image, sets section permissions, publishes the services table, relocates
  the image and runs the library constructors and the module's entry points. What is outside
  the repository is a record of parameters; the effects are a list of events.
\<close>

section \<open>Definitions\<close>

text \<open>
  The boot information: \<open>BootDesc\<close> gives the type and the content of the descriptor at an
  offset. \<open>uninit_offset\<close> is what the local variable \<^verbatim>\<open>EntryPointOffset\<close> holds before it is written.
\<close>

record boot_info =
  Magic :: UINT32
  OffsetBootInfoDesc :: UINT32
  BootDesc :: "UINT32 \<Rightarrow> UINT8 \<times> UINT64"

record entry_env =
  ArmFfaLibGetVersion :: "UINT16 \<Rightarrow> UINT16 \<Rightarrow> EFI_STATUS \<times> UINT16 \<times> UINT16"
  ARM_FFA_MAJOR_VERSION :: UINT16
  ARM_FFA_MINOR_VERSION :: UINT16
  FFA_BOOT_INFO_SIGNATURE :: UINT32
  FFA_BOOT_INFO_FDT_TYPE :: UINT8
  dtb_at :: "UINT64 \<Rightarrow> FDT"
  uninit_offset :: UINT32
  ffs :: ffs_env
  pe :: pe_env
  PeCoffLoaderRelocateImage :: "image_context \<Rightarrow> EFI_STATUS"

record SP_BOOT_INFO =
  SpMemBase :: UINT64
  SpMemSize :: UINT64
  SpHeapBase :: UINT64
  SpHeapSize :: UINT64

definition CheckFfaCompatibility :: "entry_env \<Rightarrow> EFI_STATUS \<times> bool" where
  "CheckFfaCompatibility env =
     (let (Status, SpmcMajorVer, SpmcMinorVer) =
            ArmFfaLibGetVersion env (ARM_FFA_MAJOR_VERSION env) (ARM_FFA_MINOR_VERSION env)
      in if EFI_ERROR Status then (Status, False)
         else if SpmcMajorVer \<noteq> ARM_FFA_MAJOR_VERSION env then (EFI_UNSUPPORTED, False)
         else (EFI_SUCCESS, SpmcMinorVer \<ge> ARM_FFA_MINOR_VERSION env))"

definition ReadProperty32 :: "FDT \<Rightarrow> int \<Rightarrow> string \<Rightarrow> UINT32 \<Rightarrow> (EFI_STATUS \<times> UINT32) result" where
  "ReadProperty32 dtb Offset PropName Value =
     (case FdtGetProperty dtb Offset PropName of
        None \<Rightarrow> Inr (EFI_INVALID_PARAMETER, Value)
      | Some data \<Rightarrow> bind_result (read_cell 4 data) (\<lambda>v. Inr (EFI_SUCCESS, v)))"

definition ReadProperty64 :: "FDT \<Rightarrow> int \<Rightarrow> string \<Rightarrow> UINT64 \<Rightarrow> (EFI_STATUS \<times> UINT64) result" where
  "ReadProperty64 dtb Offset PropName Value =
     (case FdtGetProperty dtb Offset PropName of
        None \<Rightarrow> Inr (EFI_INVALID_PARAMETER, Value)
      | Some data \<Rightarrow> bind_result (read_cell 8 data) (\<lambda>v. Inr (EFI_SUCCESS, v)))"

text \<open>The granule codes \<^verbatim>\<open>FFA_PAGE_4K\<close>, \<^verbatim>\<open>FFA_PAGE_16K\<close> and \<^verbatim>\<open>FFA_PAGE_64K\<close>.\<close>

definition granule_valid :: "UINT32 \<Rightarrow> bool" where
  "granule_valid g \<longleftrightarrow> g = 0 \<or> g = 1 \<or> g = 2"

definition PopulateBootinformation :: "UINT32 \<Rightarrow> SP_BOOT_INFO \<Rightarrow> FDT \<Rightarrow> (EFI_STATUS \<times> SP_BOOT_INFO) result" where
  "PopulateBootinformation EntryPointOffset0 SpBootInfo dtb =
     (let Offset = FdtNodeOffsetByCompatible dtb (- 1) ''arm,ffa-manifest-1.0''
      in if Offset < 0 then Inr (EFI_NOT_FOUND, SpBootInfo)
         else bind_result (ReadProperty64 dtb Offset ''load-address'' 0)
           (\<lambda>(Status, MemBase).
              if Status \<noteq> EFI_SUCCESS then Inr (Status, SpBootInfo)
              else bind_result (ReadProperty32 dtb Offset ''entrypoint-offset'' EntryPointOffset0)
                (\<lambda>(_, EntryPointOffset).
                   let info = SpBootInfo\<lparr>SpMemBase := MemBase + ucast EntryPointOffset\<rparr>
                   in bind_result (ReadProperty64 dtb Offset ''image-size'' (SpMemSize info))
                        (\<lambda>(Status, sz).
                           if Status \<noteq> EFI_SUCCESS then Inr (Status, info)
                           else let info = info\<lparr>SpMemSize := sz\<rparr>
                                in bind_result (ReadProperty32 dtb Offset ''xlat-granule'' 0)
                                     (\<lambda>(Status, PageSize).
                                        if Status \<noteq> EFI_SUCCESS then Inr (Status, info)
                                        else if granule_valid PageSize then Inr (EFI_SUCCESS, info)
                                        else Inr (EFI_INVALID_PARAMETER, info))))))"

text \<open>The boot information is \<open>None\<close> when its address is null.\<close>

definition GetSpManifest :: "entry_env \<Rightarrow> boot_info option \<Rightarrow> EFI_STATUS \<times> UINT64" where
  "GetSpManifest env BootInfoAddr =
     (case BootInfoAddr of
        None \<Rightarrow> (EFI_INVALID_PARAMETER, 0)
      | Some b \<Rightarrow>
          if Magic b \<noteq> FFA_BOOT_INFO_SIGNATURE env then (EFI_INVALID_PARAMETER, 0)
          else let (Type, Content) = BootDesc b (OffsetBootInfoDesc b)
               in if Type = FFA_BOOT_INFO_FDT_TYPE env then (EFI_SUCCESS, Content) else (EFI_NOT_FOUND, 0))"

datatype event =
    Perm perm_call
  | SetSpst UINT64       \<comment> \<open>\<^verbatim>\<open>gSpst\<close> published with this manifest address\<close>
  | Relocate
  | Constructors         \<comment> \<open>\<^verbatim>\<open>ProcessLibraryConstructorList\<close>\<close>
  | MmEntryPoints        \<comment> \<open>\<^verbatim>\<open>ProcessModuleEntryPointList\<close>\<close>

text \<open>The final status, the local variable \<^verbatim>\<open>Ret\<close> and the events.\<close>

definition entry_ret :: "EFI_STATUS \<Rightarrow> int" where
  "entry_ret Status = (if Status = EFI_UNSUPPORTED then - 1 else if Status = EFI_INVALID_PARAMETER then - 2
     else if Status = EFI_NOT_FOUND then - 7 else 0)"

definition finish :: "EFI_STATUS \<Rightarrow> event list \<Rightarrow> (EFI_STATUS \<times> int \<times> event list) result" where
  "finish Status ev = Inr (Status, entry_ret Status, ev)"

text \<open>From the publication of the services table on.\<close>

definition start_module ::
  "entry_env \<Rightarrow> EFI_STATUS \<Rightarrow> UINT64 \<Rightarrow> UINT64 \<Rightarrow> UINT64 \<Rightarrow> image_context \<Rightarrow> event list \<Rightarrow> (EFI_STATUS \<times> int \<times> event list) result" where
  "start_module env Status0 DtbAddress TeData ImageBase ctx ev =
     (if ImageAddress ctx \<noteq> TeData
      then let Status = PeCoffLoaderRelocateImage env (ctx\<lparr>ImageAddress := TeData\<rparr>)
           in ASSERT (\<not> EFI_ERROR Status)
                (finish Status (ev @ [SetSpst DtbAddress, Perm (TextUpdater ImageBase 0x1000),
                   Perm (ReadWriteUpdater ImageBase 0x1000), Relocate, Constructors, MmEntryPoints]))
      else finish Status0 (ev @ [SetSpst DtbAddress, Constructors, MmEntryPoints]))"

text \<open>The sections of the image and their permissions.\<close>

definition prepare_image :: "entry_env \<Rightarrow> UINT64 \<Rightarrow> UINT64 \<Rightarrow> (EFI_STATUS \<times> int \<times> event list) result" where
  "prepare_image env DtbAddress TeData =
     bind_result (GetStandaloneMmCorePeCoffSections (pe env) TeData)
       (\<lambda>(Status, ctx, info).
          if EFI_ERROR Status then finish Status []
          else (case info of
             None \<Rightarrow> Inl UninitialisedRead
           | Some (ImageBase0, SectionHeaderOffset, NumberOfSections) \<Rightarrow>
               let ImageBase = ImageBase0 + (TeData - ImageAddress ctx);
                   (Status, calls) = UpdateMmFoundationPeCoffPermissions (pe env) ctx
                      ImageBase SectionHeaderOffset NumberOfSections
               in if EFI_ERROR Status then finish Status (map Perm calls)
                  else start_module env Status DtbAddress TeData ImageBase ctx (map Perm calls)))"

text \<open>The load address from the manifest, and the image in the firmware volume there.\<close>

definition find_image :: "entry_env \<Rightarrow> UINT64 \<Rightarrow> (EFI_STATUS \<times> int \<times> event list) result" where
  "find_image env DtbAddress =
     bind_result (PopulateBootinformation (uninit_offset env)
         \<lparr>SpMemBase = 0, SpMemSize = 0, SpHeapBase = 0, SpHeapSize = 0\<rparr> (dtb_at env DtbAddress))
       (\<lambda>(Status, SpBootInfo).
          if Status \<noteq> EFI_SUCCESS then finish Status []
          else let (Status, TeData, TeDataSize) =
                     LocateStandaloneMmCorePeCoffData (ffs env) (SpMemBase SpBootInfo)
               in if EFI_ERROR Status then finish Status [] else prepare_image env DtbAddress TeData)"

definition ModuleEntryPoint :: "entry_env \<Rightarrow> boot_info option \<Rightarrow> (EFI_STATUS \<times> int \<times> event list) result" where
  "ModuleEntryPoint env SharedBufAddress =
     (let (Status, UseOnlyFfaAbis) = CheckFfaCompatibility env
      in if EFI_ERROR Status \<or> \<not> UseOnlyFfaAbis then finish Status []
         else let (Status, DtbAddress) = GetSpManifest env SharedBufAddress
              in if Status \<noteq> EFI_SUCCESS then finish Status [] else find_image env DtbAddress)"

section \<open>Properties\<close>

text \<open>The permission changes among the events.\<close>

fun perms_of :: "event list \<Rightarrow> perm_call list" where
  "perms_of [] = []"
| "perms_of (Perm c # ev) = c # perms_of ev"
| "perms_of (_ # ev) = perms_of ev"

lemma perms_of_append [simp]: "perms_of (xs @ ys) = perms_of xs @ perms_of ys"
  by (induction xs rule: perms_of.induct) simp_all

lemma perms_of_map [simp]: "perms_of (map Perm cs) = cs"
  by (induction cs) simp_all

text \<open>The two shapes a run can have: it stops early, or it goes all the way.\<close>

definition early :: "event list \<Rightarrow> bool" where
  "early ev \<longleftrightarrow> (\<exists>calls. ev = map Perm calls)"

definition started :: "UINT64 \<Rightarrow> event list \<Rightarrow> bool" where
  "started dtb ev \<longleftrightarrow> (\<exists>calls mid. ev = map Perm calls @ SetSpst dtb # mid @ [Constructors, MmEntryPoints] \<and>
     (mid = [] \<or> (\<exists>base. mid = [Perm (TextUpdater base 0x1000), Perm (ReadWriteUpdater base 0x1000), Relocate])))"

lemma finish_iff: "finish st ev = Inr (st', ret, ev') \<longleftrightarrow> st' = st \<and> ret = entry_ret st \<and> ev' = ev"
  by (auto simp: finish_def)

text \<open>A run stopped early or went through, and kept the order of permission changes.\<close>

definition proper_run :: "UINT64 \<Rightarrow> EFI_STATUS \<times> int \<times> event list \<Rightarrow> bool" where
  "proper_run dtb r \<longleftrightarrow> (case r of (st, ret, ev) \<Rightarrow>
     (early ev \<or> started dtb ev) \<and> xn_first (perms_of ev) \<and> ret = entry_ret st)"

lemma proper_early: "xn_first calls \<Longrightarrow> finish st (map Perm calls) = Inr r \<Longrightarrow> proper_run dtb r"
  by (auto simp: finish_def proper_run_def early_def)

lemma proper_empty: "finish st [] = Inr r \<Longrightarrow> proper_run dtb r"
  using proper_early[of "[]"] by simp

lemma proper_start_module:
  assumes "start_module env st0 dtb te base ctx (map Perm calls) = Inr r" and "xn_first calls"
  shows "proper_run dtb r"
proof (cases "ImageAddress ctx = te")
  case True
  let ?ev = "map Perm calls @ SetSpst dtb # [] @ [Constructors, MmEntryPoints]"
  have "r = (st0, entry_ret st0, ?ev)" using assms(1) True by (simp add: start_module_def finish_def)
  moreover have "started dtb ?ev" unfolding started_def by blast
  ultimately show ?thesis using assms(2) by (simp add: proper_run_def)
next
  case False
  let ?mid = "[Perm (TextUpdater base 0x1000), Perm (ReadWriteUpdater base 0x1000), Relocate]"
  let ?ev = "map Perm calls @ SetSpst dtb # ?mid @ [Constructors, MmEntryPoints]"
  have "\<exists>st. r = (st, entry_ret st, ?ev)"
    using assms(1) False by (auto simp: start_module_def Let_def ASSERT_Inr_iff finish_def)
  moreover have "started dtb ?ev" unfolding started_def by blast
  ultimately show ?thesis using assms(2) by (auto simp: proper_run_def xn_first_append)
qed

lemma proper_prepare_image:
  assumes "prepare_image env dtb te = Inr r"
  shows "proper_run dtb r"
proof -
  from assms obtain st ctx info where s: "(if EFI_ERROR st then finish st []
      else (case info of None \<Rightarrow> Inl UninitialisedRead
        | Some (ImageBase0, off, n) \<Rightarrow>
            let ImageBase = ImageBase0 + (te - ImageAddress ctx);
                (Status, calls) = UpdateMmFoundationPeCoffPermissions (pe env) ctx ImageBase off n
            in if EFI_ERROR Status then finish Status (map Perm calls)
               else start_module env Status dtb te ImageBase ctx (map Perm calls))) = Inr r"
    unfolding prepare_image_def bind_result_Inr_iff by auto
  show ?thesis
  proof (cases "EFI_ERROR st")
    case True
    with s proper_empty show ?thesis by simp
  next
    case False
    with s obtain base off n where i: "info = Some (base, off, n)" by (cases info) auto
    let ?base = "base + (te - ImageAddress ctx)"
    obtain st' calls where u: "UpdateMmFoundationPeCoffPermissions (pe env) ctx ?base off n = (st', calls)" by fastforce
    have x: "xn_first calls"
      using section_loop_xn[of "pe env" "Handle ctx" ?base off "unat n"] u
      by (simp add: UpdateMmFoundationPeCoffPermissions_def)
    from s False i u have "(if EFI_ERROR st' then finish st' (map Perm calls)
        else start_module env st' dtb te ?base ctx (map Perm calls)) = Inr r" by simp
    with proper_early[OF x] proper_start_module[OF _ x] show ?thesis by (cases "EFI_ERROR st'") auto
  qed
qed

lemma proper_find_image:
  assumes "find_image env dtb = Inr r"
  shows "proper_run dtb r"
proof -
  from assms obtain x :: "EFI_STATUS \<times> SP_BOOT_INFO" where x: "(case x of (st, info) \<Rightarrow> if st \<noteq> EFI_SUCCESS then finish st []
      else let (Status, TeData, TeDataSize) = LocateStandaloneMmCorePeCoffData (ffs env) (SpMemBase info)
           in if EFI_ERROR Status then finish Status [] else prepare_image env dtb TeData) = Inr r"
    unfolding find_image_def bind_result_Inr_iff by blast
  obtain st info where xi: "x = (st, info)" by (cases x)
  obtain st1 te tsz where l: "LocateStandaloneMmCorePeCoffData (ffs env) (SpMemBase info) = (st1, te, tsz)"
    by (cases "LocateStandaloneMmCorePeCoffData (ffs env) (SpMemBase info)") auto
  note s = x[unfolded xi prod.case l Let_def]
  show ?thesis
  proof (cases "st = EFI_SUCCESS \<and> \<not> EFI_ERROR st1")
    case True
    with s have "prepare_image env dtb te = Inr r" by simp
    then show ?thesis by (rule proper_prepare_image)
  next
    case False
    with s have "finish st [] = Inr r \<or> finish st1 [] = Inr r" by (auto split: if_splits)
    then show ?thesis using proper_empty by blast
  qed
qed

lemma proper_entry:
  assumes "ModuleEntryPoint env b = Inr (st, ret, ev)"
  shows "(early ev \<or> started (snd (GetSpManifest env b)) ev \<and> fst (GetSpManifest env b) = EFI_SUCCESS \<and>
       CheckFfaCompatibility env = (EFI_SUCCESS, True)) \<and> xn_first (perms_of ev) \<and> ret = entry_ret st"
proof -
  obtain st0 abis where c: "CheckFfaCompatibility env = (st0, abis)" by fastforce
  have st0: "\<not> EFI_ERROR st0 \<Longrightarrow> st0 = EFI_SUCCESS"
    using c by (auto simp: CheckFfaCompatibility_def Let_def split: prod.splits if_splits)
  obtain st1 dtb where g: "GetSpManifest env b = (st1, dtb)" by fastforce
  show ?thesis
  proof (cases "EFI_ERROR st0 \<or> \<not> abis \<or> st1 \<noteq> EFI_SUCCESS")
    case True
    then have "ev = [] \<and> ret = entry_ret st"
      using assms by (auto simp: ModuleEntryPoint_def c g finish_iff split: if_splits)
    then show ?thesis by (simp add: early_def)
  next
    case False
    then have "find_image env dtb = Inr (st, ret, ev)" using assms by (simp add: ModuleEntryPoint_def c g)
    from proper_find_image[OF this] False st0 c g show ?thesis by (auto simp: proper_run_def)
  qed
qed

text \<open>
  The image the entry point works on, computed from what its checks look at: its context, the
  base and the sections, when the FF-A version is compatible, the boot information gives a
  manifest, the manifest can be read, the firmware volume holds an image and the headers of the
  image are valid; \<open>None\<close> when one of these checks fails.
\<close>

definition image_found :: "entry_env \<Rightarrow> boot_info option \<Rightarrow> (image_context \<times> UINT64 \<times> UINT32 \<times> UINT16) option" where
  "image_found env b =
     (case PopulateBootinformation (uninit_offset env)
             \<lparr>SpMemBase = 0, SpMemSize = 0, SpHeapBase = 0, SpHeapSize = 0\<rparr> (dtb_at env (snd (GetSpManifest env b))) of
        Inr (st, info) \<Rightarrow>
          (case LocateStandaloneMmCorePeCoffData (ffs env) (SpMemBase info) of
             (st1, te, sz) \<Rightarrow>
               (case GetStandaloneMmCorePeCoffSections (pe env) te of
                  Inr (st2, ctx, Some (base, off, n)) \<Rightarrow>
                    if CheckFfaCompatibility env = (EFI_SUCCESS, True) \<and> fst (GetSpManifest env b) = EFI_SUCCESS \<and>
                       st = EFI_SUCCESS \<and> \<not> EFI_ERROR st1 \<and> \<not> EFI_ERROR st2
                    then Some (ctx, base + (te - ImageAddress ctx), off, n) else None
                | _ \<Rightarrow> None))
      | Inl e \<Rightarrow> None)"

text \<open>Every check has passed: an image was found and the permissions of its sections are set.\<close>

definition checks_pass :: "entry_env \<Rightarrow> boot_info option \<Rightarrow> bool" where
  "checks_pass env b = (case image_found env b of None \<Rightarrow> False
     | Some (ctx, base, off, n) \<Rightarrow> \<not> EFI_ERROR (fst (UpdateMmFoundationPeCoffPermissions (pe env) ctx base off n)))"

text \<open>A run of a stage goes through exactly when the stage's checks pass, and has events only with an image.\<close>

definition gated_run :: "bool \<Rightarrow> bool \<Rightarrow> UINT64 \<Rightarrow> event list \<Rightarrow> bool" where
  "gated_run found pass dtb ev \<longleftrightarrow> (if pass then started dtb ev else early ev) \<and> (found \<or> ev = [])"

lemma start_module_started:
  assumes "start_module env st0 dtb te base ctx (map Perm calls) = Inr (st, ret, ev)"
  shows "started dtb ev"
proof -
  have "ev = map Perm calls @ SetSpst dtb #
      (if ImageAddress ctx = te then [] else [Perm (TextUpdater base 0x1000), Perm (ReadWriteUpdater base 0x1000), Relocate]) @
      [Constructors, MmEntryPoints]"
    using assms by (auto simp: start_module_def Let_def ASSERT_Inr_iff finish_iff split: if_splits)
  then show ?thesis unfolding started_def by auto
qed

lemma prepare_image_gated:
  assumes run: "prepare_image env dtb te = Inr (st, ret, ev)"
  shows "case GetStandaloneMmCorePeCoffSections (pe env) te of
      Inr (st2, ctx, Some (base, off, n)) \<Rightarrow>
        gated_run (\<not> EFI_ERROR st2) (\<not> EFI_ERROR st2 \<and>
          \<not> EFI_ERROR (fst (UpdateMmFoundationPeCoffPermissions (pe env) ctx (base + (te - ImageAddress ctx)) off n))) dtb ev
    | _ \<Rightarrow> ev = []"
proof -
  from run obtain st2 ctx info where g: "GetStandaloneMmCorePeCoffSections (pe env) te = Inr (st2, ctx, info)"
    unfolding prepare_image_def bind_result_Inr_iff by auto
  show ?thesis
  proof (cases "EFI_ERROR st2")
    case True
    with run g have "ev = []" by (simp add: prepare_image_def finish_iff)
    with True g show ?thesis by (auto simp: gated_run_def early_def split: option.split)
  next
    case False
    with run g obtain base off n where i: "info = Some (base, off, n)" by (cases info) (auto simp: prepare_image_def)
    let ?base = "base + (te - ImageAddress ctx)"
    obtain st3 calls where u: "UpdateMmFoundationPeCoffPermissions (pe env) ctx ?base off n = (st3, calls)" by fastforce
    have "if EFI_ERROR st3 then ev = map Perm calls else started dtb ev"
      using run False g i u start_module_started by (auto simp: prepare_image_def finish_iff split: if_splits)
    with False g i u show ?thesis by (auto simp: gated_run_def early_def)
  qed
qed

lemma ModuleEntryPoint_gated:
  assumes run: "ModuleEntryPoint env b = Inr (st, ret, ev)"
  shows "gated_run (image_found env b \<noteq> None) (checks_pass env b) (snd (GetSpManifest env b)) ev"
proof -
  have none: "gated_run (image_found env b \<noteq> None) (checks_pass env b) d []" if "image_found env b = None" for d
    using that by (simp add: gated_run_def checks_pass_def early_def)
  obtain st0 abis where c: "CheckFfaCompatibility env = (st0, abis)" by fastforce
  have st0: "\<not> EFI_ERROR st0 \<Longrightarrow> st0 = EFI_SUCCESS"
    using c by (auto simp: CheckFfaCompatibility_def Let_def split: prod.splits if_splits)
  obtain stm dtb where g: "GetSpManifest env b = (stm, dtb)" by fastforce
  show ?thesis
  proof (cases "EFI_ERROR st0 \<or> \<not> abis \<or> stm \<noteq> EFI_SUCCESS")
    case True
    then have "ev = []" using run by (auto simp: ModuleEntryPoint_def c g finish_iff split: if_splits)
    moreover have "image_found env b = None"
      using True c g by (auto simp: image_found_def split: sum.split prod.split option.split)
    ultimately show ?thesis using none by simp
  next
    case False
    then have ok: "CheckFfaCompatibility env = (EFI_SUCCESS, True)" "GetSpManifest env b = (EFI_SUCCESS, dtb)"
      using st0 c g by auto
    from run have "find_image env dtb = Inr (st, ret, ev)" by (simp add: ModuleEntryPoint_def ok)
    then obtain stp info where p: "PopulateBootinformation (uninit_offset env)
        \<lparr>SpMemBase = 0, SpMemSize = 0, SpHeapBase = 0, SpHeapSize = 0\<rparr> (dtb_at env dtb) = Inr (stp, info)"
      and rest: "(if stp \<noteq> EFI_SUCCESS then finish stp []
        else let (Status, TeData, TeDataSize) = LocateStandaloneMmCorePeCoffData (ffs env) (SpMemBase info)
             in if EFI_ERROR Status then finish Status [] else prepare_image env dtb TeData) = Inr (st, ret, ev)"
      unfolding find_image_def bind_result_Inr_iff by auto
    obtain st1 te sz where l: "LocateStandaloneMmCorePeCoffData (ffs env) (SpMemBase info) = (st1, te, sz)"
      by (cases "LocateStandaloneMmCorePeCoffData (ffs env) (SpMemBase info)") auto
    show ?thesis
    proof (cases "stp = EFI_SUCCESS \<and> \<not> EFI_ERROR st1")
      case False
      with rest l have "ev = []" by (auto simp: finish_iff split: if_splits)
      moreover have "image_found env b = None"
        using False ok p l by (auto simp: image_found_def split: sum.split option.split)
      ultimately show ?thesis using none by simp
    next
      case True
      with rest l have "prepare_image env dtb te = Inr (st, ret, ev)" by simp
      from prepare_image_gated[OF this] show ?thesis
        using True ok p l
        by (auto simp: image_found_def checks_pass_def gated_run_def early_def split: sum.splits option.splits)
    qed
  qed
qed


text \<open>A manifest and an image that boot.\<close>

definition ex_manifest :: FDT where
  "ex_manifest = \<lparr>FdtGetProperty = (\<lambda>n k. if k = ''load-address'' then Some [0, 0, 0, 0, 0x10, 0, 0, 0]
       else if k = ''entrypoint-offset'' then Some [0, 0, 0x40, 0]
       else if k = ''image-size'' then Some [0, 0, 0, 0, 0, 0x30, 0, 0]
       else if k = ''xlat-granule'' then Some [0, 0, 0, 0] else None),
     FdtNodeOffsetByCompatible = (\<lambda>_ _. 0), FdtSubnodeOffsetNameLen = (\<lambda>_ _. - 1),
     FdtFirstSubnode = (\<lambda>_. - 1), FdtNextSubnode = (\<lambda>_. - 1)\<rparr>"

definition ex_entry :: entry_env where
  "ex_entry = \<lparr>ArmFfaLibGetVersion = (\<lambda>a b. (EFI_SUCCESS, 1, 2)), ARM_FFA_MAJOR_VERSION = 1,
     ARM_FFA_MINOR_VERSION = 1, FFA_BOOT_INFO_SIGNATURE = 0xFFA, FFA_BOOT_INFO_FDT_TYPE = 0,
     dtb_at = (\<lambda>_. ex_manifest), uninit_offset = 0xDEAD,
     ffs = \<lparr>FfsFindSecurityCore = (\<lambda>a. (EFI_SUCCESS, a)), FfsFindSectionData = (\<lambda>t f. (EFI_SUCCESS, f + 0x100, 0x2000))\<rparr>,
     pe = ex_pe, PeCoffLoaderRelocateImage = (\<lambda>_. EFI_SUCCESS)\<rparr>"

definition ex_boot_info :: boot_info where
  "ex_boot_info = \<lparr>Magic = 0xFFA, OffsetBootInfoDesc = 32, BootDesc = (\<lambda>_. (0, 0x8000))\<rparr>"

definition ex_events :: "event list" where
  "ex_events = [Perm (TextUpdater 0x10204100 0x1000), Perm (ReadWriteUpdater 0x10204100 0x1000), SetSpst 0x8000,
     Perm (TextUpdater 0x10004100 0x1000), Perm (ReadWriteUpdater 0x10004100 0x1000), Relocate, Constructors,
     MmEntryPoints]"


text \<open>
  A manifest without an entry point offset: the failing read is not looked at, and the load
  address is off by what the local variable happens to hold.
\<close>

lemma entrypoint_offset_uninitialised:
  "PopulateBootinformation 0xDEAD \<lparr>SpMemBase = 0, SpMemSize = 0, SpHeapBase = 0, SpHeapSize = 0\<rparr>
     (ex_manifest\<lparr>FdtGetProperty := (\<lambda>n k. if k = ''entrypoint-offset'' then None
        else FdtGetProperty ex_manifest n k)\<rparr>) =
   Inr (EFI_SUCCESS, \<lparr>SpMemBase = 0x1000DEAD, SpMemSize = 0x300000, SpHeapBase = 0, SpHeapSize = 0\<rparr>)"
  by code_simp

end
