(* ===== verification/ArchTimer.thy ===== *)
theory ArchTimer
  imports Prelude
begin

text \<open>
  \<^verbatim>\<open>ArmArchTimerLibEx.c\<close>: delays and time conversion. The frequency and the system count come from
  \<^verbatim>\<open>ArmGenericTimerCounterLib\<close>, outside the repository, and are arguments. A delay counts in a
  local variable; the number of rounds of its loop is part of the result.
\<close>

section \<open>Definitions\<close>

definition GetPlatformTimerFreq :: "UINTN \<Rightarrow> UINTN result" where
  "GetPlatformTimerFreq freq = ASSERT (freq \<noteq> 0) (Inr freq)"

function delay_loop :: "UINT64 \<Rightarrow> UINT64 \<Rightarrow> nat" where
  "delay_loop TimerTicks64 SystemCounterVal =
     (if SystemCounterVal < TimerTicks64 then Suc (delay_loop TimerTicks64 (SystemCounterVal + 1)) else 0)"
  by pat_completeness auto

lemma unat_step: "(v :: UINT64) < t \<Longrightarrow> unat (v + 1) = unat v + 1"
proof -
  assume "v < t"
  then have "unat v < unat t" by (simp add: word_less_nat_alt)
  moreover have "unat t < 2 ^ 64" using unsigned_less[of t] by simp
  ultimately show ?thesis by (simp add: unat_word_ariths)
qed

termination delay_loop
  by (relation "measure (\<lambda>(t, v). unat t - unat v)") (auto simp: unat_step word_less_nat_alt)

declare delay_loop.simps [simp del]

text \<open>\<^verbatim>\<open>MultU64x64\<close> and \<^verbatim>\<open>DivU64x32\<close> of \<^verbatim>\<open>BaseLib\<close>: the product modulo \<open>2^64\<close>, and the quotient.\<close>

definition MicroSecondDelay :: "UINTN \<Rightarrow> UINTN \<Rightarrow> (UINTN \<times> nat) result" where
  "MicroSecondDelay freq MicroSeconds =
     bind_result (GetPlatformTimerFreq freq)
       (\<lambda>f. let TimerTicks64 = MicroSeconds * f div 1000000
            in Inr (MicroSeconds, delay_loop TimerTicks64 0))"

definition NanoSecondDelay :: "UINTN \<Rightarrow> UINTN \<Rightarrow> (UINTN \<times> nat) result" where
  "NanoSecondDelay freq NanoSeconds =
     (let MicroSeconds = NanoSeconds div 1000 + (if NanoSeconds mod 1000 = 0 then 0 else 1)
      in bind_result (MicroSecondDelay freq MicroSeconds) (\<lambda>(_, n). Inr (NanoSeconds, n)))"

definition GetPerformanceCounter :: "UINT64 \<Rightarrow> UINT64" where
  "GetPerformanceCounter count = count"

text \<open>The start and end values, written where the pointer is not null, and the frequency.\<close>

definition GetPerformanceCounterProperties ::
  "UINTN \<Rightarrow> UINT64 option \<Rightarrow> UINT64 option \<Rightarrow> UINT64 \<times> UINT64 option \<times> UINT64 option" where
  "GetPerformanceCounterProperties freq StartValue EndValue =
     (freq, map_option (\<lambda>_. 0) StartValue, map_option (\<lambda>_. 0xFFFFFFFFFFFFFFFF) EndValue)"

definition GetTimeInNanoSecond :: "UINTN \<Rightarrow> UINT64 \<Rightarrow> UINT64 result" where
  "GetTimeInNanoSecond freq Ticks =
     bind_result (GetPlatformTimerFreq freq)
       (\<lambda>TimerFreq.
          let NanoSeconds = Ticks div TimerFreq * 1000000000; Remainder = Ticks mod TimerFreq
          in Inr (NanoSeconds + Remainder * 1000000000 div TimerFreq))"

section \<open>Properties\<close>

lemma delay_loop_rounds: "delay_loop t v = unat t - unat v"
proof (induction t v rule: delay_loop.induct)
  case (1 t v)
  show ?case
  proof (cases "v < t")
    case True
    with 1 have "delay_loop t v = Suc (unat t - unat (v + 1))" by (subst delay_loop.simps) simp
    with True show ?thesis by (simp add: unat_step word_less_nat_alt Suc_diff_Suc)
  qed (subst delay_loop.simps, simp add: word_less_nat_alt)
qed

lemma MicroSecondDelay_rounds:
  assumes "freq \<noteq> 0" and "unat us * unat freq < 2 ^ 64"
  shows "MicroSecondDelay freq us = Inr (us, unat us * unat freq div 1000000)"
proof -
  have "unat (us * freq div 1000000) = unat us * unat freq div 1000000"
    using assms(2) by (simp add: unat_div_distrib unat_word_ariths)
  with assms(1) show ?thesis by (simp add: MicroSecondDelay_def GetPlatformTimerFreq_def delay_loop_rounds)
qed

text \<open>Rounding up to microseconds.\<close>

definition ceil1000 :: "nat \<Rightarrow> nat" where
  "ceil1000 n = n div 1000 + (if n mod 1000 = 0 then 0 else 1)"

lemma ceil1000_bounds: "n \<le> ceil1000 n * 1000" "ceil1000 n * 1000 \<le> n + 1000"
proof -
  have e: "n div 1000 * 1000 + n mod 1000 = n" by (rule div_mult_mod_eq)
  have l: "n mod 1000 < 1000" by simp
  show "n \<le> ceil1000 n * 1000" unfolding ceil1000_def using e l by (cases "n mod 1000 = 0") simp_all
  show "ceil1000 n * 1000 \<le> n + 1000" unfolding ceil1000_def using e by (cases "n mod 1000 = 0") simp_all
qed

lemma unat_ceil1000:
  "unat (ns div 1000 + (if ns mod 1000 = 0 then 0 else 1) :: UINT64) = ceil1000 (unat ns)"
proof -
  have d: "unat (ns div 1000) = unat ns div 1000" and m: "unat (ns mod 1000) = unat ns mod 1000"
    by (simp_all add: unat_div_distrib unat_mod_distrib)
  have z: "ns mod 1000 = 0 \<longleftrightarrow> unat ns mod 1000 = 0" using m by (metis unat_0 unat_eq_0)
  have "unat ns < 2 ^ 64" using unsigned_less[of ns] by simp
  then have "unat ns div 1000 + 1 < 2 ^ 64" by simp
  then show ?thesis using d z by (auto simp: ceil1000_def unat_word_ariths)
qed

text \<open>
  C31. A delay ends and is never short in ticks: unless the product of the time and the
  frequency overflows, \<^verbatim>\<open>NanoSecondDelay\<close> returns its argument after at least as many rounds as
  the timer has ticks in that time, and at most the ticks of one more microsecond.
\<close>

theorem NanoSecondDelay_rounds:
  assumes "freq \<noteq> 0" and "(unat ns + 1000) * unat freq < 2 ^ 64"
  shows "\<exists>n. NanoSecondDelay freq ns = Inr (ns, n) \<and> unat ns * unat freq div 1000000000 \<le> n \<and>
     n \<le> (unat ns + 1000) * unat freq div 1000000000"
proof -
  let ?us = "ns div 1000 + (if ns mod 1000 = 0 then 0 else 1)" and ?k = "ceil1000 (unat ns)" and ?f = "unat freq"
  note c = ceil1000_bounds[of "unat ns"]
  have "?k * ?f \<le> ?k * 1000 * ?f" by simp
  also have "\<dots> \<le> (unat ns + 1000) * ?f" using c(2) by (rule mult_le_mono1)
  finally have fit: "unat ?us * ?f < 2 ^ 64" unfolding unat_ceil1000 using assms(2) by (rule le_less_trans)
  have r: "NanoSecondDelay freq ns = Inr (ns, ?k * ?f div 1000000)"
    using MicroSecondDelay_rounds[OF assms(1) fit] unfolding unat_ceil1000 by (simp add: NanoSecondDelay_def Let_def)
  have e: "?k * ?f div 1000000 = ?k * 1000 * ?f div 1000000000"
    using div_mult_mult1[of 1000 "?k * ?f" 1000000] by (simp add: algebra_simps)
  have "unat ns * ?f div 1000000000 \<le> ?k * ?f div 1000000" "?k * ?f div 1000000 \<le> (unat ns + 1000) * ?f div 1000000000"
    unfolding e by (intro div_le_mono mult_le_mono1 c)+
  with r show ?thesis by blast
qed

theorem NanoSecondDelay_rounds_witness:
  "\<exists>n. NanoSecondDelay 62500000 2500 = Inr (2500, n) \<and> 156 \<le> n \<and> n \<le> 218"
  using NanoSecondDelay_rounds[of 62500000 2500] by simp

text \<open>
  C27. \<^verbatim>\<open>GetTimeInNanoSecond\<close> agrees with exact arithmetic: for every tick count and every frequency
  below \<open>2^32\<close> Hz the two-step computation gives the number of whole nanoseconds, modulo \<open>2^64\<close>.
\<close>

theorem GetTimeInNanoSecond_exact:
  assumes "freq \<noteq> 0" and "unat freq < 2 ^ 32"
  shows "\<exists>r. GetTimeInNanoSecond freq t = Inr r \<and> unat r = (unat t * 1000000000 div unat freq) mod 2 ^ 64"
proof -
  let ?f = "unat freq" and ?t = "unat t" and ?q = "t div freq" and ?r = "t mod freq"
  have f: "0 < ?f" using assms(1) by (simp add: unat_gt_0)
  have q: "unat ?q = ?t div ?f" and m: "unat ?r = ?t mod ?f" by (simp_all add: unat_div_distrib unat_mod_distrib)
  have "?t mod ?f < 2 ^ 32" using f assms(2) by (meson less_trans mod_less_divisor)
  then have "unat (?r * 1000000000) = ?t mod ?f * 1000000000" using m by (simp add: unat_word_ariths)
  then have rr: "unat (?r * 1000000000 div freq) = ?t mod ?f * 1000000000 div ?f" by (simp add: unat_div_distrib)
  have "?t * 1000000000 = (?t div ?f * 1000000000) * ?f + ?t mod ?f * 1000000000"
  proof -
    have "?t * 1000000000 = (?t div ?f * ?f + ?t mod ?f) * 1000000000" by simp
    then show ?thesis by (simp only: add_mult_distrib mult.assoc mult.commute mult.left_commute)
  qed
  then have "?t * 1000000000 div ?f = ?t div ?f * 1000000000 + ?t mod ?f * 1000000000 div ?f"
    using f by simp
  then have "unat (?q * 1000000000 + ?r * 1000000000 div freq) = (?t * 1000000000 div ?f) mod 2 ^ 64"
    by (simp add: unat_word_ariths(1,2) q rr mod_add_left_eq)
  with assms(1) show ?thesis by (simp add: GetTimeInNanoSecond_def GetPlatformTimerFreq_def Let_def)
qed

theorem GetTimeInNanoSecond_exact_witness:
  "GetTimeInNanoSecond 62500000 1000000007 = Inr 16000000112"
proof -
  have "\<exists>r. GetTimeInNanoSecond 62500000 1000000007 = Inr r \<and>
      unat r = (unat (1000000007 :: UINT64) * 1000000000 div unat (62500000 :: UINTN)) mod 2 ^ 64"
    by (rule GetTimeInNanoSecond_exact) simp_all
  then obtain r where r: "GetTimeInNanoSecond 62500000 1000000007 = Inr r" "unat r = 16000000112" by auto
  then have "r = 16000000112" by (simp add: word_unat_eq_iff)
  with r show ?thesis by simp
qed

end
