(* ===== verification/PartitionTest.thy ===== *)
theory PartitionTest
  imports TestService TpmService
begin

text \<open>
  \<^verbatim>\<open>FfaPartitionTestApp.c\<close>: the application that exercises the services from the normal world.
  Its test functions run on the FF-A calls of \<^verbatim>\<open>ArmFfaLibEx\<close>; \<^verbatim>\<open>ArmFfaLib\<close>, the boot services, the
  interrupt protocol and the unit test framework are outside the repository and fields of
  \<open>app_env\<close>, over a world \<open>'w\<close>. An assertion macro of the framework leaves the test with the status
  \<open>UNIT_TEST_ERROR_TEST_FAILED\<close> when it does not hold.
\<close>

section \<open>Data\<close>

datatype UNIT_TEST_STATUS =
    UNIT_TEST_PASSED
  | UNIT_TEST_ERROR_PREREQUISITE_NOT_MET
  | UNIT_TEST_ERROR_TEST_FAILED

record FFA_TEST_CONTEXT =
  IsMmCommunicationServiceAvailable :: bool
  IsTestServiceAvailable :: bool
  IsTpm2ServiceAvailable :: bool
  IsNotificationServiceAvailable :: bool
  FfaMmCommunicationPartId :: UINT16
  FfaTestServicePartId :: UINT16
  FfaTpm2ServicePartId :: UINT16
  FfaNotificationServicePartId :: UINT16
  SriIndex :: UINTN

text \<open>\<^verbatim>\<open>DIRECT_MSG_ARGS\<close> of \<^verbatim>\<open>ArmFfaLib\<close>: the message words \<^verbatim>\<open>Arg0\<close> to \<^verbatim>\<open>Arg13\<close>.\<close>

record DIRECT_MSG_ARGS =
  DArg0 :: UINTN
  DArg1 :: UINTN
  DArg2 :: UINTN
  DArg3 :: UINTN
  DArg4 :: UINTN
  DArg5 :: UINTN
  DArg6 :: UINTN
  DArg7 :: UINTN
  DArg8 :: UINTN
  DArg9 :: UINTN
  DArg10 :: UINTN
  DArg11 :: UINTN
  DArg12 :: UINTN
  DArg13 :: UINTN

definition args_zero :: DIRECT_MSG_ARGS where
  "args_zero = \<lparr> DArg0 = 0, DArg1 = 0, DArg2 = 0, DArg3 = 0, DArg4 = 0, DArg5 = 0, DArg6 = 0,
     DArg7 = 0, DArg8 = 0, DArg9 = 0, DArg10 = 0, DArg11 = 0, DArg12 = 0, DArg13 = 0 \<rparr>"

definition gEfiNotificationServiceFfaGuid :: EFI_GUID where
  "gEfiNotificationServiceFfaGuid = \<lparr> Data1 = 0xe474d87e, Data2 = 0x5731, Data3 = 0x4044,
     Data4 = [0xa7, 0x27, 0xcb, 0x3e, 0x8c, 0xf3, 0xc8, 0xdf] \<rparr>"

definition gEfiTestServiceFfaGuid :: EFI_GUID where
  "gEfiTestServiceFfaGuid = \<lparr> Data1 = 0xe0fad9b3, Data2 = 0x7f5c, Data3 = 0x42c5,
     Data4 = [0xb2, 0xee, 0xb7, 0xa8, 0x23, 0x13, 0xcd, 0xb2] \<rparr>"

text \<open>
  What the application calls outside the repository. Output parameters the application reads
  only after a success are part of the result.
\<close>

record 'w app_env =
  ffa_lib :: "'w ffa_env"
  ARM_FFA_MAJOR_VERSION :: UINT16
  ARM_FFA_MINOR_VERSION :: UINT16
  ARM_FFA_FEATURE_ID_SCHEDULE_RECEIVER_INTERRUPT :: UINT32
  TPM2_ENABLE :: bool
  app_tpm2 :: "tpm2_ffa \<Rightarrow> UINT64"
  gEfiMmCommunication2ProtocolGuid :: EFI_GUID
  gTpm2ServiceFfaGuid :: EFI_GUID
  ArmFfaLibGetVersion :: "UINT16 \<Rightarrow> UINT16 \<Rightarrow> 'w \<Rightarrow> EFI_STATUS \<times> UINT16 \<times> UINT16 \<times> 'w"
  ArmFfaLibPartitionInfoGet :: "EFI_GUID \<Rightarrow> UINT32 \<Rightarrow> 'w \<Rightarrow> EFI_STATUS \<times> 'w"
  PcdFfaRxBuffer :: "'w \<Rightarrow> UINT8 list"  \<comment> \<open>the bytes at the address of the receive buffer\<close>
  ArmFfaLibRxRelease :: "UINT16 \<Rightarrow> 'w \<Rightarrow> EFI_STATUS \<times> 'w"
  ArmFfaLibGetFeatures :: "UINT32 \<Rightarrow> UINT32 \<Rightarrow> 'w \<Rightarrow> EFI_STATUS \<times> UINTN \<times> UINTN \<times> 'w"
  ArmFfaLibMsgSendDirectReq2 ::
    "UINT16 \<Rightarrow> EFI_GUID \<Rightarrow> DIRECT_MSG_ARGS \<Rightarrow> 'w \<Rightarrow> EFI_STATUS \<times> DIRECT_MSG_ARGS \<times> 'w"
  ArmFfaLibGetRxTxBuffers :: "'w \<Rightarrow> EFI_STATUS \<times> 'w"
  LocateHardwareInterrupt :: "'w \<Rightarrow> EFI_STATUS \<times> 'w"
  RegisterInterruptSource :: "UINTN \<Rightarrow> 'w \<Rightarrow> EFI_STATUS \<times> 'w"
  EndOfInterrupt :: "UINTN \<Rightarrow> 'w \<Rightarrow> 'w"
  Stall :: "UINTN \<Rightarrow> 'w \<Rightarrow> 'w"
  TakeInterrupts :: "'w \<Rightarrow> UINTN list \<times> 'w"
    \<comment> \<open>the sources the registered handler is called for up to now\<close>

text \<open>
  The globals of the application, the object its \<^verbatim>\<open>Context\<close> pointers point to (\<open>None\<close> for NULL),
  and the state of the FF-A library. Of \<^verbatim>\<open>gInterrupt\<close> only matters whether it has been set.
\<close>

record 'w app_state =
  Context :: "FFA_TEST_CONTEXT option"
  gInterrupt :: bool
  mIsInterruptFired :: bool
  ffa :: "'w ffa_state"

abbreviation app_world :: "'w app_state \<Rightarrow> 'w" where
  "app_world s \<equiv> world (ffa s)"

definition set_world :: "'w \<Rightarrow> 'w app_state \<Rightarrow> 'w app_state" where
  "set_world w s = s\<lparr>ffa := (ffa s)\<lparr>world := w\<rparr>\<rparr>"

type_synonym 'w test = "'w app_state \<Rightarrow> (UNIT_TEST_STATUS \<times> 'w app_state) result"

text \<open>\<^verbatim>\<open>UT_ASSERT_...\<close>: go on or leave the test.\<close>

definition UT_ASSERT :: "bool \<Rightarrow> 'w app_state \<Rightarrow> (UNIT_TEST_STATUS \<times> 'w app_state) result \<Rightarrow>
    (UNIT_TEST_STATUS \<times> 'w app_state) result" where
  "UT_ASSERT b s k = (if b then k else Inr (UNIT_TEST_ERROR_TEST_FAILED, s))"

text \<open>\<^verbatim>\<open>FfaTestContext = (FFA_TEST_CONTEXT *)Context; UT_ASSERT_NOT_NULL (FfaTestContext);\<close>\<close>

definition with_context :: "'w app_state \<Rightarrow> (FFA_TEST_CONTEXT \<Rightarrow> (UNIT_TEST_STATUS \<times> 'w app_state) result) \<Rightarrow>
    (UNIT_TEST_STATUS \<times> 'w app_state) result" where
  "with_context s k = (case Context s of None \<Rightarrow> Inr (UNIT_TEST_ERROR_TEST_FAILED, s) | Some c \<Rightarrow> k c)"

section \<open>Helper functions\<close>

definition ApIrqInterruptHandler :: "'w app_env \<Rightarrow> UINTN \<Rightarrow> 'w app_state \<Rightarrow> 'w app_state result" where
  "ApIrqInterruptHandler env Source s =
     (case FfaNotificationGet (ffa_lib env) 0 (ARM_FFA_NOTIFICATION_FLAG_BITMAP_SP (ffa_lib env)) 0 (ffa s) of
        (Status, Bitmap, f) \<Rightarrow>
          (let s1 = s\<lparr>ffa := f, mIsInterruptFired := True\<rparr>
           in if gInterrupt s1 then Inr (set_world (EndOfInterrupt env Source (app_world s1)) s1)
              else Inl NullDereference))"

fun handle_interrupts :: "'w app_env \<Rightarrow> UINTN list \<Rightarrow> 'w app_state \<Rightarrow> 'w app_state result" where
  "handle_interrupts env [] s = Inr s"
| "handle_interrupts env (Source # rest) s =
     bind_result (ApIrqInterruptHandler env Source s) (handle_interrupts env rest)"

text \<open>The interrupts that arrive during a call outside the application.\<close>

definition take_interrupts :: "'w app_env \<Rightarrow> 'w app_state \<Rightarrow> 'w app_state result" where
  "take_interrupts env s =
     (case TakeInterrupts env (app_world s) of (sources, w) \<Rightarrow> handle_interrupts env sources (set_world w s))"

definition check_available :: "bool \<Rightarrow> UNIT_TEST_STATUS" where
  "check_available available =
     (if \<not> available then UNIT_TEST_ERROR_PREREQUISITE_NOT_MET else UNIT_TEST_PASSED)"

definition CheckNotificationService :: "FFA_TEST_CONTEXT option \<Rightarrow> UNIT_TEST_STATUS" where
  "CheckNotificationService ctx =
     (case ctx of None \<Rightarrow> UNIT_TEST_ERROR_TEST_FAILED
      | Some c \<Rightarrow> check_available (IsNotificationServiceAvailable c))"

definition CheckTestService :: "FFA_TEST_CONTEXT option \<Rightarrow> UNIT_TEST_STATUS" where
  "CheckTestService ctx =
     (case ctx of None \<Rightarrow> UNIT_TEST_ERROR_TEST_FAILED
      | Some c \<Rightarrow> check_available (IsTestServiceAvailable c))"

text \<open>The test is compiled in under \<^verbatim>\<open>TPM2_ENABLE\<close> only.\<close>

definition CheckTPMService :: "'w app_env \<Rightarrow> FFA_TEST_CONTEXT option \<Rightarrow> UNIT_TEST_STATUS" where
  "CheckTPMService env ctx =
     (case ctx of None \<Rightarrow> UNIT_TEST_ERROR_TEST_FAILED
      | Some c \<Rightarrow> check_available (IsTpm2ServiceAvailable c \<and> TPM2_ENABLE env))"

section \<open>Framework and discovery tests\<close>

definition FfaMiscVerifyVersion :: "'w app_env \<Rightarrow> 'w test" where
  "FfaMiscVerifyVersion env s =
     (case ArmFfaLibGetVersion env (ARM_FFA_MAJOR_VERSION env) (ARM_FFA_MINOR_VERSION env) (app_world s) of
        (Status, CurrentMajorVersion, CurrentMinorVersion, w) \<Rightarrow>
          (let s1 = set_world w s
           in UT_ASSERT (\<not> EFI_ERROR Status) s1
                (UT_ASSERT (CurrentMajorVersion \<ge> ARM_FFA_MAJOR_VERSION env \<and>
                            CurrentMinorVersion \<ge> ARM_FFA_MINOR_VERSION env) s1
                   (Inr (UNIT_TEST_PASSED, s1)))))"

definition desc_zero :: EFI_FFA_PART_INFO_DESC where
  "desc_zero = \<lparr> PartitionId = 0, ExecContextCountOrProxyPartitionId = 0, PartitionProps = 0,
     PartitionUuid = guid_zero \<rparr>"

text \<open>One query: the status and the descriptor the zeroed registers hold afterwards.\<close>

definition query_partition :: "'w app_env \<Rightarrow> EFI_GUID \<Rightarrow> 'w ffa_state \<Rightarrow>
    (EFI_STATUS \<times> EFI_FFA_PART_INFO_DESC \<times> 'w ffa_state) result" where
  "query_partition env g f =
     bind_result (FfaPartitionInfoGetRegs (ffa_lib env) (Some g) 0 None 1 (Some [desc_zero]) f)
       (\<lambda>(Status, _, _, descs, f'). case descs of
          Some (FfaPartInfo # _) \<Rightarrow> Inr (Status, FfaPartInfo, f')
        | _ \<Rightarrow> Inl OutOfBounds)"

text \<open>The chain of \<^verbatim>\<open>CompareGuid\<close> after a successful query.\<close>

definition note_partition :: "'w app_env \<Rightarrow> EFI_GUID \<Rightarrow> UINT16 \<Rightarrow> FFA_TEST_CONTEXT \<Rightarrow> FFA_TEST_CONTEXT" where
  "note_partition env g part c =
     (if g = gEfiMmCommunication2ProtocolGuid env
      then c\<lparr>IsMmCommunicationServiceAvailable := True, FfaMmCommunicationPartId := part\<rparr>
      else if g = gEfiTestServiceFfaGuid
      then c\<lparr>IsTestServiceAvailable := True, FfaTestServicePartId := part\<rparr>
      else if g = gTpm2ServiceFfaGuid env
      then c\<lparr>IsTpm2ServiceAvailable := True, FfaTpm2ServicePartId := part\<rparr>
      else if g = gEfiNotificationServiceFfaGuid
      then c\<lparr>IsNotificationServiceAvailable := True, FfaNotificationServicePartId := part\<rparr>
      else c)"

definition GuidsOfInterest :: "'w app_env \<Rightarrow> EFI_GUID list" where
  "GuidsOfInterest env = [gEfiMmCommunication2ProtocolGuid env, gEfiTestServiceFfaGuid,
     gTpm2ServiceFfaGuid env, gEfiNotificationServiceFfaGuid]"

text \<open>
  The loop over the GUIDs. A failed query ends the test for the MM communication service and
  is skipped for the others.
\<close>

fun discover :: "'w app_env \<Rightarrow> EFI_GUID list \<Rightarrow> FFA_TEST_CONTEXT \<Rightarrow> 'w test" where
  "discover env [] c s = UT_ASSERT (IsMmCommunicationServiceAvailable c) s (Inr (UNIT_TEST_PASSED, s))"
| "discover env (g # gs) c s =
     bind_result (query_partition env g (ffa s)) (\<lambda>(Status, FfaPartInfo, f).
       if EFI_ERROR Status
       then (if g = gEfiMmCommunication2ProtocolGuid env
             then Inr (UNIT_TEST_ERROR_TEST_FAILED, s\<lparr>ffa := f\<rparr>)
             else discover env gs c (s\<lparr>ffa := f\<rparr>))
       else let c' = note_partition env g (PartitionId FfaPartInfo) c;
                s' = s\<lparr>Context := Some c', ffa := f\<rparr>
            in UT_ASSERT (PartitionUuid FfaPartInfo = guid_zero) s' (discover env gs c' s'))"

definition FfaMiscGetPartitionInfoRegs :: "'w app_env \<Rightarrow> 'w test" where
  "FfaMiscGetPartitionInfoRegs env s = with_context s (\<lambda>c. discover env (GuidsOfInterest env) c s)"

definition FfaMiscGetPartitionInfo :: "'w app_env \<Rightarrow> 'w test" where
  "FfaMiscGetPartitionInfo env s =
     (case ArmFfaLibPartitionInfoGet env (gEfiMmCommunication2ProtocolGuid env) 0 (app_world s) of
        (Status, w) \<Rightarrow>
          (let s1 = set_world w s
           in UT_ASSERT (\<not> EFI_ERROR Status) s1
                (if length (PcdFfaRxBuffer env w) < PART_DESC_SIZE then Inl OutOfBounds
                 else let FfaPartInfo = desc_of_bytes (take PART_DESC_SIZE (PcdFfaRxBuffer env w))
                      in UT_ASSERT (PartitionUuid FfaPartInfo = guid_zero) s1
                           (case ArmFfaLibRxRelease env 0 w of
                              (Status', w') \<Rightarrow>
                                let s2 = set_world w' s1
                                in UT_ASSERT (\<not> EFI_ERROR Status') s2 (Inr (UNIT_TEST_PASSED, s2))))))"

definition FfaMiscSetupNotifications :: "'w app_env \<Rightarrow> 'w test" where
  "FfaMiscSetupNotifications env s = with_context s (\<lambda>c.
     case FfaNotificationBitmapCreate (ffa_lib env) 1 (ffa s) of
       (Status, f) \<Rightarrow>
         (let s1 = s\<lparr>ffa := f\<rparr>
          in UT_ASSERT (\<not> EFI_ERROR Status) s1
               (let BindBitPos = 2;
                    f' = snd (FfaNotificationBind (ffa_lib env) (FfaTestServicePartId c) 0
                                (push_bit BindBitPos 1) f);
                    s2 = s1\<lparr>ffa := f'\<rparr>
                in UT_ASSERT (\<not> EFI_ERROR Status) s2 (Inr (UNIT_TEST_PASSED, s2)))))"

text \<open>
  The source does not assign the status of \<^verbatim>\<open>FfaNotificationBind\<close>: its second check looks at the
  status of the first call again.
\<close>

definition FfaMiscRegisterNotifications :: "'w app_env \<Rightarrow> 'w test" where
  "FfaMiscRegisterNotifications env s =
     (case ArmFfaLibGetFeatures env (ARM_FFA_FEATURE_ID_SCHEDULE_RECEIVER_INTERRUPT env) 0 (app_world s) of
        (Status, Sri, _, w) \<Rightarrow>
          (let s1 = set_world w s
           in UT_ASSERT (\<not> EFI_ERROR Status) s1
                (case LocateHardwareInterrupt env w of
                   (Status1, w1) \<Rightarrow>
                     if \<not> EFI_ERROR Status1
                     then (case RegisterInterruptSource env Sri w1 of
                             (Status2, w2) \<Rightarrow>
                               let s2 = set_world w2 s1\<lparr>gInterrupt := True\<rparr>
                               in UT_ASSERT (\<not> EFI_ERROR Status2) s2 (Inr (UNIT_TEST_PASSED, s2)))
                     else Inr (UNIT_TEST_PASSED, set_world w1 s1))))"

section \<open>Notification service tests\<close>

text \<open>\<^verbatim>\<open>Mapping.Uint64 = 0; Mapping.Bits.Cookie = ...; Mapping.Bits.Id = ...;\<close>\<close>

definition mapping_word :: "UINTN \<Rightarrow> UINTN \<Rightarrow> UINTN" where
  "mapping_word Cookie MappingId = push_bit 32 Cookie OR push_bit 23 MappingId"

text \<open>
  The tail the tests of the notification service share: send the request, and compare the
  \<^verbatim>\<open>INT8\<close> in word 6 of the answer with the expected status.
\<close>

definition expect_status :: "'w app_env \<Rightarrow> DIRECT_MSG_ARGS \<Rightarrow> NotificationStatus \<Rightarrow> 'w test" where
  "expect_status env DirectMsgArgs expected s = with_context s (\<lambda>c.
     case ArmFfaLibMsgSendDirectReq2 env (FfaNotificationServicePartId c) gEfiNotificationServiceFfaGuid
            DirectMsgArgs (app_world s) of
       (Status, answer, w) \<Rightarrow>
         (let s1 = set_world w s; ResponseVal = ucast (DArg6 answer) :: NotificationStatus
          in UT_ASSERT (\<not> EFI_ERROR Status) s1
               (UT_ASSERT (ResponseVal = expected) s1 (Inr (UNIT_TEST_PASSED, s1)))))"

text \<open>The two services the tests register mappings for.\<close>

definition battery_request :: "UINTN \<Rightarrow> UINTN \<Rightarrow> DIRECT_MSG_ARGS" where
  "battery_request Opcode NumMappings = args_zero\<lparr> DArg3 := 0xba7aff2eb1eac765, DArg4 := 0xb710b3a359f64054,
     DArg5 := Opcode, DArg6 := NumMappings \<rparr>"

definition thermal_request :: "UINTN \<Rightarrow> UINTN \<Rightarrow> DIRECT_MSG_ARGS" where
  "thermal_request Opcode NumMappings = args_zero\<lparr> DArg3 := 0xba7aff2eb1eac765, DArg4 := 0xb610b3a359f64054,
     DArg5 := Opcode, DArg6 := NumMappings \<rparr>"

definition FfaMiscTestInterPartitionNormal :: "'w app_env \<Rightarrow> 'w test" where
  "FfaMiscTestInterPartitionNormal env = expect_status env
     ((battery_request NOTIFICATION_OPCODE_REGISTER 5)\<lparr> DArg7 := mapping_word 0 0, DArg8 := mapping_word 1 1,
        DArg9 := mapping_word 2 2, DArg10 := mapping_word 3 3, DArg11 := mapping_word 4 4 \<rparr>)
     NOTIFICATION_STATUS_SUCCESS"

definition FfaMiscTestInterPartitionSecondary :: "'w app_env \<Rightarrow> 'w test" where
  "FfaMiscTestInterPartitionSecondary env = expect_status env
     ((thermal_request NOTIFICATION_OPCODE_REGISTER 3)\<lparr> DArg7 := mapping_word 0 5, DArg8 := mapping_word 1 6,
        DArg9 := mapping_word 2 7 \<rparr>)
     NOTIFICATION_STATUS_SUCCESS"

definition FfaMiscTestInterPartitionDuplicateCookie :: "'w app_env \<Rightarrow> 'w test" where
  "FfaMiscTestInterPartitionDuplicateCookie env = expect_status env
     ((thermal_request NOTIFICATION_OPCODE_REGISTER 1)\<lparr>DArg7 := mapping_word 2 8\<rparr>)
     NOTIFICATION_STATUS_INVALID_PARAMETER"

definition FfaMiscTestInterPartitionInvalidDuplicateId :: "'w app_env \<Rightarrow> 'w test" where
  "FfaMiscTestInterPartitionInvalidDuplicateId env = expect_status env
     ((thermal_request NOTIFICATION_OPCODE_REGISTER 1)\<lparr>DArg7 := mapping_word 3 7\<rparr>)
     NOTIFICATION_STATUS_INVALID_PARAMETER"

definition FfaMiscTestInterPartitionInvalidMappingCountMin :: "'w app_env \<Rightarrow> 'w test" where
  "FfaMiscTestInterPartitionInvalidMappingCountMin env = expect_status env
     (thermal_request NOTIFICATION_OPCODE_REGISTER 0) NOTIFICATION_STATUS_INVALID_PARAMETER"

definition FfaMiscTestInterPartitionInvalidMappingCountMax :: "'w app_env \<Rightarrow> 'w test" where
  "FfaMiscTestInterPartitionInvalidMappingCountMax env = expect_status env
     (thermal_request NOTIFICATION_OPCODE_REGISTER 8) NOTIFICATION_STATUS_INVALID_PARAMETER"

definition FfaMiscTestInterPartitionUnregisterNormal :: "'w app_env \<Rightarrow> 'w test" where
  "FfaMiscTestInterPartitionUnregisterNormal env = expect_status env
     ((thermal_request NOTIFICATION_OPCODE_UNREGISTER 1)\<lparr>DArg7 := mapping_word 1 6\<rparr>)
     NOTIFICATION_STATUS_SUCCESS"

definition FfaMiscTestInterPartitionUnregisterInvalidCookie :: "'w app_env \<Rightarrow> 'w test" where
  "FfaMiscTestInterPartitionUnregisterInvalidCookie env = expect_status env
     ((thermal_request NOTIFICATION_OPCODE_UNREGISTER 1)\<lparr>DArg7 := mapping_word 1 6\<rparr>)
     NOTIFICATION_STATUS_INVALID_PARAMETER"

definition FfaMiscTestInterPartitionUnregisterInvalidId :: "'w app_env \<Rightarrow> 'w test" where
  "FfaMiscTestInterPartitionUnregisterInvalidId env = expect_status env
     ((thermal_request NOTIFICATION_OPCODE_UNREGISTER 1)\<lparr>DArg7 := mapping_word 0 0\<rparr>)
     NOTIFICATION_STATUS_INVALID_PARAMETER"

definition FfaMiscTestInterPartitionUnregisterInvalidUuid :: "'w app_env \<Rightarrow> 'w test" where
  "FfaMiscTestInterPartitionUnregisterInvalidUuid env = expect_status env
     (args_zero\<lparr>DArg5 := NOTIFICATION_OPCODE_UNREGISTER\<rparr>) NOTIFICATION_STATUS_INVALID_PARAMETER"

section \<open>Test service and TPM service tests\<close>

definition event_request :: DIRECT_MSG_ARGS where
  "event_request = args_zero\<lparr> DArg0 := TEST_OPCODE_TEST_NOTIFICATION, DArg1 := 0xba7aff2eb1eac765,
     DArg2 := 0xb710b3a359f64054, DArg3 := 2 \<rparr>"

definition FfaMiscTestNotificationEvent :: "'w app_env \<Rightarrow> 'w test" where
  "FfaMiscTestNotificationEvent env s = with_context s (\<lambda>c.
     case ArmFfaLibMsgSendDirectReq2 env (FfaTestServicePartId c) gEfiTestServiceFfaGuid event_request (app_world s) of
       (Status, answer, w) \<Rightarrow>
         bind_result (take_interrupts env (set_world w (s\<lparr>mIsInterruptFired := False\<rparr>))) (\<lambda>s1.
           UT_ASSERT (\<not> EFI_ERROR Status) s1
             (UT_ASSERT (DArg0 answer = scast TEST_STATUS_SUCCESS) s1
                (bind_result (take_interrupts env (set_world (Stall env 1000 (app_world s1)) s1)) (\<lambda>s2.
                   UT_ASSERT (mIsInterruptFired s2) s2 (Inr (UNIT_TEST_PASSED, s2)))))))"

text \<open>The tests of the TPM service compare word 0 of the answer.\<close>

definition expect_tpm :: "'w app_env \<Rightarrow> DIRECT_MSG_ARGS \<Rightarrow> tpm2_ffa \<Rightarrow> 'w test" where
  "expect_tpm env DirectMsgArgs expected s = with_context s (\<lambda>c.
     case ArmFfaLibMsgSendDirectReq2 env (FfaTpm2ServicePartId c) (gTpm2ServiceFfaGuid env)
            DirectMsgArgs (app_world s) of
       (Status, answer, w) \<Rightarrow>
         (let s1 = set_world w s
          in UT_ASSERT (\<not> EFI_ERROR Status) s1
               (UT_ASSERT (DArg0 answer = app_tpm2 env expected) s1 (Inr (UNIT_TEST_PASSED, s1)))))"

definition FfaMiscTestTpmGetVersion :: "'w app_env \<Rightarrow> 'w test" where
  "FfaMiscTestTpmGetVersion env = expect_tpm env
     (args_zero\<lparr>DArg0 := app_tpm2 env TPM2_FFA_GET_INTERFACE_VERSION\<rparr>) TPM2_FFA_SUCCESS_OK_RESULTS_RETURNED"

definition FfaMiscTestTpmCloseLocality :: "'w app_env \<Rightarrow> 'w test" where
  "FfaMiscTestTpmCloseLocality env = expect_tpm env
     (args_zero\<lparr> DArg0 := app_tpm2 env TPM2_FFA_MANAGE_LOCALITY,
                 DArg1 := app_tpm2 env TPM2_FFA_MANAGE_LOCALITY_CLOSE, DArg2 := 0 \<rparr>) TPM2_FFA_ERROR_DENIED"

text \<open>After the last check the source only prints what the receive buffer holds.\<close>

definition FfaMiscTestFfaNsResInfoGet :: "'w app_env \<Rightarrow> 'w test" where
  "FfaMiscTestFfaNsResInfoGet env s = with_context s (\<lambda>c.
     case ArmFfaLibGetFeatures env (fid (ffa_lib env) ARM_FID_FFA_NS_RES_INFO_GET) 0 (app_world s) of
       (Status, _, _, w) \<Rightarrow>
         (let s1 = set_world w s
          in if EFI_ERROR Status then Inr (UNIT_TEST_PASSED, s1)
             else case FfaNsResInfoGet (ffa_lib env) 0 0 (Some 0) (Some 0) (ffa s1) of
                    (Status1, WrittenSize, _, f) \<Rightarrow>
                      let s2 = s1\<lparr>ffa := f\<rparr>
                      in UT_ASSERT (\<not> EFI_ERROR Status1) s2
                           (UT_ASSERT (WrittenSize \<noteq> Some 0) s2
                              (case ArmFfaLibGetRxTxBuffers env (app_world s2) of
                                 (Status2, w2) \<Rightarrow>
                                   let s3 = set_world w2 s2
                                   in UT_ASSERT (\<not> EFI_ERROR Status2) s3 (Inr (UNIT_TEST_PASSED, s3))))))"

section \<open>The test suite\<close>

datatype test_function =
    VerifyVersion | GetPartitionInfoRegs | GetPartitionInfo | SetupNotifications | RegisterNotifications
  | InterPartitionNormal | InterPartitionSecondary | DuplicateCookie | InvalidDuplicateId
  | InvalidMappingCountMin | InvalidMappingCountMax | UnregisterNormal | UnregisterInvalidCookie
  | UnregisterInvalidId | UnregisterInvalidUuid | NotificationEvent | TpmGetVersion | TpmCloseLocality
  | NsResInfoGet

datatype prerequisite = NoPrerequisite | NeedsTestService | NeedsNotificationService | NeedsTpmService

text \<open>The cases in the order in which they are added, with their prerequisites.\<close>

definition test_cases :: "(test_function \<times> prerequisite) list" where
  "test_cases =
     [(VerifyVersion, NoPrerequisite), (GetPartitionInfoRegs, NoPrerequisite), (GetPartitionInfo, NoPrerequisite),
      (SetupNotifications, NeedsTestService), (RegisterNotifications, NoPrerequisite),
      (InterPartitionNormal, NeedsNotificationService), (InterPartitionSecondary, NeedsNotificationService),
      (DuplicateCookie, NeedsNotificationService), (InvalidDuplicateId, NeedsNotificationService),
      (InvalidMappingCountMin, NeedsNotificationService), (InvalidMappingCountMax, NeedsNotificationService),
      (UnregisterNormal, NeedsNotificationService), (UnregisterInvalidCookie, NeedsNotificationService),
      (UnregisterInvalidId, NeedsNotificationService), (UnregisterInvalidUuid, NeedsNotificationService),
      (NotificationEvent, NeedsTestService), (TpmGetVersion, NeedsTpmService), (TpmCloseLocality, NeedsTpmService),
      (NsResInfoGet, NoPrerequisite)]"

text \<open>The functions the cases stand for.\<close>

fun test_of :: "'w app_env \<Rightarrow> test_function \<Rightarrow> 'w test" where
  "test_of env VerifyVersion = FfaMiscVerifyVersion env"
| "test_of env GetPartitionInfoRegs = FfaMiscGetPartitionInfoRegs env"
| "test_of env GetPartitionInfo = FfaMiscGetPartitionInfo env"
| "test_of env SetupNotifications = FfaMiscSetupNotifications env"
| "test_of env RegisterNotifications = FfaMiscRegisterNotifications env"
| "test_of env InterPartitionNormal = FfaMiscTestInterPartitionNormal env"
| "test_of env InterPartitionSecondary = FfaMiscTestInterPartitionSecondary env"
| "test_of env DuplicateCookie = FfaMiscTestInterPartitionDuplicateCookie env"
| "test_of env InvalidDuplicateId = FfaMiscTestInterPartitionInvalidDuplicateId env"
| "test_of env InvalidMappingCountMin = FfaMiscTestInterPartitionInvalidMappingCountMin env"
| "test_of env InvalidMappingCountMax = FfaMiscTestInterPartitionInvalidMappingCountMax env"
| "test_of env UnregisterNormal = FfaMiscTestInterPartitionUnregisterNormal env"
| "test_of env UnregisterInvalidCookie = FfaMiscTestInterPartitionUnregisterInvalidCookie env"
| "test_of env UnregisterInvalidId = FfaMiscTestInterPartitionUnregisterInvalidId env"
| "test_of env UnregisterInvalidUuid = FfaMiscTestInterPartitionUnregisterInvalidUuid env"
| "test_of env NotificationEvent = FfaMiscTestNotificationEvent env"
| "test_of env TpmGetVersion = FfaMiscTestTpmGetVersion env"
| "test_of env TpmCloseLocality = FfaMiscTestTpmCloseLocality env"
| "test_of env NsResInfoGet = FfaMiscTestFfaNsResInfoGet env"

fun check_of :: "'w app_env \<Rightarrow> prerequisite \<Rightarrow> FFA_TEST_CONTEXT option \<Rightarrow> UNIT_TEST_STATUS" where
  "check_of env NoPrerequisite ctx = UNIT_TEST_PASSED"
| "check_of env NeedsTestService ctx = CheckTestService ctx"
| "check_of env NeedsNotificationService ctx = CheckNotificationService ctx"
| "check_of env NeedsTpmService ctx = CheckTPMService env ctx"

text \<open>
  The calls into the framework, in order. Their status is a function of the calls made before;
  \<open>fw_handle\<close> says whether \<^verbatim>\<open>InitUnitTestFramework\<close> has stored a handle.
\<close>

datatype fw_call =
    InitUnitTestFramework
  | CreateUnitTestSuite
  | AddTestCase test_function prerequisite
  | RunAllTestSuites
  | FreeUnitTestFramework

record fw_env =
  fw_status :: "fw_call list \<Rightarrow> fw_call \<Rightarrow> EFI_STATUS"
  fw_handle :: bool

fun add_test_cases :: "fw_env \<Rightarrow> (test_function \<times> prerequisite) list \<Rightarrow> fw_call list \<Rightarrow>
    EFI_STATUS \<times> fw_call list" where
  "add_test_cases fw [] calls = (fw_status fw calls RunAllTestSuites, calls @ [RunAllTestSuites])"
| "add_test_cases fw ((t, p) # ts) calls =
     (if EFI_ERROR (fw_status fw calls (AddTestCase t p))
      then (EFI_OUT_OF_RESOURCES, calls @ [AddTestCase t p])
      else add_test_cases fw ts (calls @ [AddTestCase t p]))"

definition FfaPartitionTestAppEntry :: "fw_env \<Rightarrow> EFI_STATUS \<times> fw_call list" where
  "FfaPartitionTestAppEntry fw =
     (let (Status, calls) =
        (let Status0 = fw_status fw [] InitUnitTestFramework; calls0 = [InitUnitTestFramework]
         in if EFI_ERROR Status0 then (Status0, calls0)
            else let Status1 = fw_status fw calls0 CreateUnitTestSuite; calls1 = calls0 @ [CreateUnitTestSuite]
                 in if EFI_ERROR Status1 then (EFI_OUT_OF_RESOURCES, calls1)
                    else add_test_cases fw test_cases calls1)
      in (Status, if fw_handle fw then calls @ [FreeUnitTestFramework] else calls))"

end
