(* ===== verification/PartitionTestProperties.thy ===== *)
theory PartitionTestProperties
  imports PartitionTest TpmProperties
begin

text \<open>
  The test application against the services: what its tests find when their requests reach the
  notification, test and TPM services, what the discovery of partitions leaves in the context, and
  the calls into the test framework.
\<close>

section \<open>Requests and answers\<close>

text \<open>
  The message a service receives for a request from the endpoint \<open>src\<close>, and the words of its
  answer.
\<close>

definition request_msg :: "UINT16 \<Rightarrow> EFI_GUID \<Rightarrow> DIRECT_MSG_ARGS \<Rightarrow> DIRECT_MSG_ARGS_EX" where
  "request_msg src g a = msg_zero\<lparr> SourceId := src, ServiceGuid := g, Arg0 := DArg0 a, Arg1 := DArg1 a,
     Arg2 := DArg2 a, Arg3 := DArg3 a, Arg4 := DArg4 a, Arg5 := DArg5 a, Arg6 := DArg6 a, Arg7 := DArg7 a,
     Arg8 := DArg8 a, Arg9 := DArg9 a, Arg10 := DArg10 a, Arg11 := DArg11 a, Arg12 := DArg12 a,
     Arg13 := DArg13 a \<rparr>"

definition answer_args :: "DIRECT_MSG_ARGS_EX \<Rightarrow> DIRECT_MSG_ARGS" where
  "answer_args r = \<lparr> DArg0 = Arg0 r, DArg1 = Arg1 r, DArg2 = Arg2 r, DArg3 = Arg3 r, DArg4 = Arg4 r,
     DArg5 = Arg5 r, DArg6 = Arg6 r, DArg7 = Arg7 r, DArg8 = Arg8 r, DArg9 = Arg9 r, DArg10 = Arg10 r,
     DArg11 = Arg11 r, DArg12 = Arg12 r, DArg13 = Arg13 r \<rparr>"

text \<open>
  What the SPMC and the partition promise of a direct request to the notification service: the
  service of the partition handles it with a zeroed response buffer, and the sender gets the
  words of the answer. \<open>svc\<close> is the service's state in the world.
\<close>

definition notification_link :: "'w app_env \<Rightarrow> UINT16 \<Rightarrow> UINT16 \<Rightarrow> ('w \<Rightarrow> notif_state) \<Rightarrow> bool" where
  "notification_link env src part svc \<longleftrightarrow>
     (\<forall>a w r st. NotificationServiceHandle (Some (request_msg src gEfiNotificationServiceFfaGuid a))
          (Some msg_zero) (svc w) = Inr (Some r, st) \<longrightarrow>
        (\<exists>w'. ArmFfaLibMsgSendDirectReq2 env part gEfiNotificationServiceFfaGuid a w =
                (EFI_SUCCESS, answer_args r, w') \<and> svc w' = st))"

text \<open>The same for the test service, which runs on the partition's own FF-A library \<open>lib\<close>.\<close>

definition test_link :: "'w app_env \<Rightarrow> 'v ffa_env \<Rightarrow> UINT16 \<Rightarrow> UINT16 \<Rightarrow> ('w \<Rightarrow> notif_state) \<Rightarrow>
    ('w \<Rightarrow> 'v ffa_state) \<Rightarrow> bool" where
  "test_link env lib src part svc lib_state \<longleftrightarrow>
     (\<forall>a w r f. TestServiceHandle lib (Some (request_msg src gEfiTestServiceFfaGuid a)) (Some msg_zero)
          (svc w) (lib_state w) = Inr (Some r, f) \<longrightarrow>
        (\<exists>w'. ArmFfaLibMsgSendDirectReq2 env part gEfiTestServiceFfaGuid a w =
                (EFI_SUCCESS, answer_args r, w') \<and> svc w' = svc w \<and> lib_state w' = f))"

text \<open>And for the TPM service.\<close>

definition tpm_link :: "'w app_env \<Rightarrow> 'v tpm_cfg \<Rightarrow> UINT16 \<Rightarrow> UINT16 \<Rightarrow> ('w \<Rightarrow> 'v tpm_state) \<Rightarrow> bool" where
  "tpm_link env cfg src part tpm \<longleftrightarrow>
     (\<forall>a w r st. TpmServiceHandle cfg (Some (request_msg src (gTpm2ServiceFfaGuid env) a)) (Some msg_zero)
          (tpm w) = Some (Inr (Some r, st)) \<longrightarrow>
        (\<exists>w'. ArmFfaLibMsgSendDirectReq2 env part (gTpm2ServiceFfaGuid env) a w =
                (EFI_SUCCESS, answer_args r, w') \<and> tpm w' = st))"

text \<open>
  A case of the suite behind its prerequisite, and cases in order, with the status of each.
\<close>

definition run_case :: "'w app_env \<Rightarrow> test_function \<times> prerequisite \<Rightarrow> 'w test" where
  "run_case env tc s =
     (let st = check_of env (snd tc) (Context s)
      in if st = UNIT_TEST_PASSED then test_of env (fst tc) s else Inr (st, s))"

fun run_cases :: "'w app_env \<Rightarrow> (test_function \<times> prerequisite) list \<Rightarrow> 'w app_state \<Rightarrow>
    (UNIT_TEST_STATUS list \<times> 'w app_state) result" where
  "run_cases env [] s = Inr ([], s)"
| "run_cases env (tc # tcs) s =
     bind_result (run_case env tc s) (\<lambda>(st, s1).
       bind_result (run_cases env tcs s1) (\<lambda>(sts, s2). Inr (st # sts, s2)))"

section \<open>A concrete application\<close>

text \<open>
  An SPMC that knows every partition but the TPM's, and a platform whose interrupt 42 is always
  pending. The delivery of direct requests is left open.
\<close>

definition ex_app_call :: "ARM_SXC_ARGS \<Rightarrow> 'w \<Rightarrow> ARM_SXC_ARGS \<times> 'w" where
  "ex_app_call r w =
     (if X0 r = 0xC400008B \<and> X1 r = 0x0104030202000000 then sxc_zero\<lparr>X0 := 0x84000060\<rparr>
      else sxc_zero\<lparr>X0 := 0x84000061, X3 := 0x18002\<rparr>, w)"

definition ex_app_lib :: "'w ffa_env" where
  "ex_app_lib = \<lparr> fid = ex_fid, PcdFfaLibConduitSmc = True, ArmCallSmc = ex_app_call, ArmCallSvc = ex_app_call,
     FfaStatusToEfiStatus = (\<lambda>_. EFI_UNSUPPORTED), ArmFfaLibPartitionIdGet = (\<lambda>w. (Some 1, w)),
     InterruptHandler = SecurePartitionInterruptHandler, ARM_FFA_NOTIFICATION_FLAG_BITMAP_SP = 1,
     ARM_FFA_NOTIFICATION_FLAG_BITMAP_VM = 2, ARM_FFA_NOTIFICATION_FLAG_BITMAP_HYP = 4,
     ARM_FFA_MEM_PERM_RESERVED_MASK = 0xFFFFFFF8 \<rparr>"

definition app_guid :: "UINT32 \<Rightarrow> EFI_GUID" where
  "app_guid n = \<lparr> Data1 = n, Data2 = 0x0203, Data3 = 0x0401, Data4 = replicate 8 0 \<rparr>"

definition ex_app ::
  "(UINT16 \<Rightarrow> EFI_GUID \<Rightarrow> DIRECT_MSG_ARGS \<Rightarrow> 'w \<Rightarrow> EFI_STATUS \<times> DIRECT_MSG_ARGS \<times> 'w) \<Rightarrow> 'w app_env" where
  "ex_app send = \<lparr> ffa_lib = ex_app_lib, ARM_FFA_MAJOR_VERSION = 1, ARM_FFA_MINOR_VERSION = 2,
     ARM_FFA_FEATURE_ID_SCHEDULE_RECEIVER_INTERRUPT = 2, TPM2_ENABLE = True, app_tpm2 = tpm2 ex_cfg,
     gEfiMmCommunication2ProtocolGuid = app_guid 1, gTpm2ServiceFfaGuid = app_guid 2,
     ArmFfaLibGetVersion = (\<lambda>a b w. (EFI_SUCCESS, 1, 2, w)), ArmFfaLibPartitionInfoGet = (\<lambda>g n w. (EFI_SUCCESS, w)),
     PcdFfaRxBuffer = (\<lambda>w. replicate 24 0), ArmFfaLibRxRelease = (\<lambda>n w. (EFI_SUCCESS, w)),
     ArmFfaLibGetFeatures = (\<lambda>n m w. (EFI_SUCCESS, 42, 0, w)), ArmFfaLibMsgSendDirectReq2 = send,
     ArmFfaLibGetRxTxBuffers = (\<lambda>w. (EFI_SUCCESS, w)), LocateHardwareInterrupt = (\<lambda>w. (EFI_SUCCESS, w)),
     RegisterInterruptSource = (\<lambda>n w. (EFI_SUCCESS, w)), EndOfInterrupt = (\<lambda>n w. w), Stall = (\<lambda>n w. w),
     TakeInterrupts = (\<lambda>w. ([42], w)) \<rparr>"

definition ex_context :: FFA_TEST_CONTEXT where
  "ex_context = \<lparr> IsMmCommunicationServiceAvailable = True, IsTestServiceAvailable = True,
     IsTpm2ServiceAvailable = True, IsNotificationServiceAvailable = True, FfaMmCommunicationPartId = 0x8001,
     FfaTestServicePartId = 0x8002, FfaTpm2ServicePartId = 0x8003, FfaNotificationServicePartId = 0x8002,
     SriIndex = 42 \<rparr>"

definition ex_app_state :: "FFA_TEST_CONTEXT \<Rightarrow> 'w \<Rightarrow> 'w app_state" where
  "ex_app_state c w = \<lparr> Context = Some c, gInterrupt = True, mIsInterruptFired = False,
     ffa = \<lparr> mPartitionId = INVALID_SOURCE_ID, world = w \<rparr> \<rparr>"

lemma ex_app_sel [simp]:
  "Context (ex_app_state c w) = Some c" "gInterrupt (ex_app_state c w)" "app_world (ex_app_state c w) = w"
  "ArmFfaLibMsgSendDirectReq2 (ex_app send) = send" "TPM2_ENABLE (ex_app send)"
  "app_tpm2 (ex_app send) = tpm2 ex_cfg"
  by (simp_all add: ex_app_state_def ex_app_def)

text \<open>Direct requests of endpoint 1 to a partition with one of the services.\<close>

definition ex_notif_send :: "UINT16 \<Rightarrow> EFI_GUID \<Rightarrow> DIRECT_MSG_ARGS \<Rightarrow> notif_state \<Rightarrow>
    EFI_STATUS \<times> DIRECT_MSG_ARGS \<times> notif_state" where
  "ex_notif_send part g a st =
     (case NotificationServiceHandle (Some (request_msg 1 g a)) (Some msg_zero) st of
        Inr (Some r, st') \<Rightarrow> (EFI_SUCCESS, answer_args r, st')
      | _ \<Rightarrow> (EFI_DEVICE_ERROR, a, st))"

definition ex_test_send :: "UINT16 \<Rightarrow> EFI_GUID \<Rightarrow> DIRECT_MSG_ARGS \<Rightarrow> notif_state \<times> script ffa_state \<Rightarrow>
    EFI_STATUS \<times> DIRECT_MSG_ARGS \<times> notif_state \<times> script ffa_state" where
  "ex_test_send part g a w =
     (case TestServiceHandle ex_env (Some (request_msg 1 g a)) (Some msg_zero) (fst w) (snd w) of
        Inr (Some r, f) \<Rightarrow> (EFI_SUCCESS, answer_args r, fst w, f)
      | _ \<Rightarrow> (EFI_DEVICE_ERROR, a, w))"

definition ex_tpm_send :: "UINT16 \<Rightarrow> EFI_GUID \<Rightarrow> DIRECT_MSG_ARGS \<Rightarrow> tpm_script tpm_state \<Rightarrow>
    EFI_STATUS \<times> DIRECT_MSG_ARGS \<times> tpm_script tpm_state" where
  "ex_tpm_send part g a st =
     (case TpmServiceHandle ex_cfg (Some (request_msg 1 g a)) (Some msg_zero) st of
        Some (Inr (Some r, st')) \<Rightarrow> (EFI_SUCCESS, answer_args r, st')
      | _ \<Rightarrow> (EFI_DEVICE_ERROR, a, st))"

section \<open>The notification service under the tests\<close>

definition mapped :: "UINT16 \<Rightarrow> UINT32 \<Rightarrow> UINT16 \<Rightarrow> NotifInfo" where
  "mapped src c i = \<lparr> NI_Cookie = c, NI_Id = i, NI_PerVcpu = False, NI_SourceId = src, NI_InUse = True \<rparr>"

definition registered :: "UINT64 \<Rightarrow> NotifInfo list \<Rightarrow> NotifService" where
  "registered hi infos = \<lparr> NS_ServiceUuid = NotificationServiceExtractUuid 0xba7aff2eb1eac765 hi,
     NS_ServiceInfo = infos @ replicate (NOTIFICATION_MAX_MAPPINGS - length infos) info_zero, NS_InUse = True \<rparr>"

definition notif_table :: "UINT64 \<Rightarrow> NotifService list \<Rightarrow> notif_state" where
  "notif_table b svs = \<lparr> GlobalBitmask = b,
     NotificationServices = svs @ replicate (NOTIFICATION_MAX_SERVICES - length svs) service_zero \<rparr>"

definition battery :: "UINT16 \<Rightarrow> NotifService" where
  "battery src = registered 0xb710b3a359f64054
     [mapped src 0 0, mapped src 1 1, mapped src 2 2, mapped src 3 3, mapped src 4 4]"

definition thermal :: "UINT16 \<Rightarrow> NotifService" where
  "thermal src = registered 0xb610b3a359f64054 [mapped src 0 5, mapped src 1 6, mapped src 2 7]"

text \<open>The tables after the first, the second and the last request of the tests.\<close>

definition one_service :: "UINT16 \<Rightarrow> notif_state" where
  "one_service src = notif_table 0x1F [battery src]"

definition two_services :: "UINT16 \<Rightarrow> notif_state" where
  "two_services src = notif_table 0xFF [battery src, thermal src]"

definition tested_table :: "UINT16 \<Rightarrow> notif_state" where
  "tested_table src = notif_table 0xBF
     [battery src, registered 0xb610b3a359f64054 [mapped src 0 5, info_zero, mapped src 2 7]]"

definition answers :: "UINT16 \<Rightarrow> DIRECT_MSG_ARGS \<Rightarrow> notif_state \<Rightarrow> NotificationStatus \<Rightarrow> notif_state \<Rightarrow> bool" where
  "answers src a st rv st' \<longleftrightarrow>
     (case NotificationServiceHandle (Some (request_msg src gEfiNotificationServiceFfaGuid a)) (Some msg_zero) st of
        Inr (Some r, st'') \<Rightarrow> ucast (Arg6 r) = rv \<and> st'' = st'
      | _ \<Rightarrow> False)"

lemma expect_status_passes:
  assumes link: "notification_link env src (FfaNotificationServicePartId c) svc"
    and c: "Context s = Some c" and ans: "answers src a (svc (app_world s)) rv st'"
  obtains s' where "expect_status env a rv s = Inr (UNIT_TEST_PASSED, s')" "Context s' = Some c"
    "svc (app_world s') = st'" "gInterrupt s' = gInterrupt s"
proof -
  from ans obtain r where
    h: "NotificationServiceHandle (Some (request_msg src gEfiNotificationServiceFfaGuid a)) (Some msg_zero)
          (svc (app_world s)) = Inr (Some r, st')" and rv: "ucast (Arg6 r) = rv"
    by (auto simp: answers_def split: sum.splits prod.splits option.splits)
  from link h obtain w' where
    send: "ArmFfaLibMsgSendDirectReq2 env (FfaNotificationServicePartId c) gEfiNotificationServiceFfaGuid a
             (app_world s) = (EFI_SUCCESS, answer_args r, w')" and w': "svc w' = st'"
    unfolding notification_link_def by blast
  have "expect_status env a rv s = Inr (UNIT_TEST_PASSED, set_world w' s)"
    using c send rv by (simp add: expect_status_def with_context_def UT_ASSERT_def answer_args_def)
  then show ?thesis using that c w' by (simp add: set_world_def)
qed

lemma answers_normal:
  "answers src ((battery_request NOTIFICATION_OPCODE_REGISTER 5)\<lparr> DArg7 := mapping_word 0 0,
      DArg8 := mapping_word 1 1, DArg9 := mapping_word 2 2, DArg10 := mapping_word 3 3, DArg11 := mapping_word 4 4 \<rparr>)
    NotificationServiceInit NOTIFICATION_STATUS_SUCCESS (one_service src)"
  by code_simp

lemma answers_secondary:
  "answers src ((thermal_request NOTIFICATION_OPCODE_REGISTER 3)\<lparr> DArg7 := mapping_word 0 5,
      DArg8 := mapping_word 1 6, DArg9 := mapping_word 2 7 \<rparr>)
    (one_service src) NOTIFICATION_STATUS_SUCCESS (two_services src)"
  by code_simp

lemma answers_duplicates:
  "answers src ((thermal_request NOTIFICATION_OPCODE_REGISTER 1)\<lparr>DArg7 := mapping_word 2 8\<rparr>)
    (two_services src) NOTIFICATION_STATUS_INVALID_PARAMETER (two_services src)"
  "answers src ((thermal_request NOTIFICATION_OPCODE_REGISTER 1)\<lparr>DArg7 := mapping_word 3 7\<rparr>)
    (two_services src) NOTIFICATION_STATUS_INVALID_PARAMETER (two_services src)"
  by code_simp+

lemma answers_counts:
  "answers src (thermal_request NOTIFICATION_OPCODE_REGISTER 0)
    (two_services src) NOTIFICATION_STATUS_INVALID_PARAMETER (two_services src)"
  "answers src (thermal_request NOTIFICATION_OPCODE_REGISTER 8)
    (two_services src) NOTIFICATION_STATUS_INVALID_PARAMETER (two_services src)"
  by code_simp+

lemma answers_unregister:
  "answers src ((thermal_request NOTIFICATION_OPCODE_UNREGISTER 1)\<lparr>DArg7 := mapping_word 1 6\<rparr>)
    (two_services src) NOTIFICATION_STATUS_SUCCESS (tested_table src)"
  "answers src ((thermal_request NOTIFICATION_OPCODE_UNREGISTER 1)\<lparr>DArg7 := mapping_word 1 6\<rparr>)
    (tested_table src) NOTIFICATION_STATUS_INVALID_PARAMETER (tested_table src)"
  "answers src ((thermal_request NOTIFICATION_OPCODE_UNREGISTER 1)\<lparr>DArg7 := mapping_word 0 0\<rparr>)
    (tested_table src) NOTIFICATION_STATUS_INVALID_PARAMETER (tested_table src)"
  "answers src (args_zero\<lparr>DArg5 := NOTIFICATION_OPCODE_UNREGISTER\<rparr>)
    (tested_table src) NOTIFICATION_STATUS_INVALID_PARAMETER (tested_table src)"
  by code_simp+

text \<open>Cases that pass from one state of the notification service to another.\<close>

definition cases_pass :: "'w app_env \<Rightarrow> FFA_TEST_CONTEXT \<Rightarrow> ('w \<Rightarrow> notif_state) \<Rightarrow>
    (test_function \<times> prerequisite) list \<Rightarrow> notif_state \<Rightarrow> notif_state \<Rightarrow> bool" where
  "cases_pass env c svc tcs st st' \<longleftrightarrow>
     (\<forall>s. Context s = Some c \<longrightarrow> svc (app_world s) = st \<longrightarrow>
        (\<exists>s'. run_cases env tcs s = Inr (replicate (length tcs) UNIT_TEST_PASSED, s') \<and>
           svc (app_world s') = st' \<and> Context s' = Some c))"

lemma cases_pass_Nil: "cases_pass env c svc [] st st"
  by (simp add: cases_pass_def)

lemma cases_pass_Cons:
  assumes "test_of env t = expect_status env a rv" and "answers src a st rv st1"
    and "cases_pass env c svc tcs st1 st'"
    and "IsNotificationServiceAvailable c" and "notification_link env src (FfaNotificationServicePartId c) svc"
  shows "cases_pass env c svc ((t, NeedsNotificationService) # tcs) st st'"
  unfolding cases_pass_def
proof (intro allI impI)
  fix s assume s: "Context s = Some c" "svc (app_world s) = st"
  from expect_status_passes[OF assms(5) s(1), of a rv st1] assms(2) s(2) obtain s1 where
    s1: "expect_status env a rv s = Inr (UNIT_TEST_PASSED, s1)" "Context s1 = Some c" "svc (app_world s1) = st1"
    by blast
  from assms(3) s1(2,3) obtain s' where
    "run_cases env tcs s1 = Inr (replicate (length tcs) UNIT_TEST_PASSED, s')"
    "svc (app_world s') = st'" "Context s' = Some c" unfolding cases_pass_def by blast
  then show "\<exists>s'. run_cases env ((t, NeedsNotificationService) # tcs) s =
      Inr (replicate (length ((t, NeedsNotificationService) # tcs)) UNIT_TEST_PASSED, s') \<and>
      svc (app_world s') = st' \<and> Context s' = Some c"
    using assms(1,4) s(1) s1(1) by (simp add: run_case_def CheckNotificationService_def check_available_def)
qed

lemma notification_cases:
  "filter (\<lambda>tc. snd tc = NeedsNotificationService) test_cases =
     map (\<lambda>t. (t, NeedsNotificationService))
       [InterPartitionNormal, InterPartitionSecondary, DuplicateCookie, InvalidDuplicateId, InvalidMappingCountMin,
        InvalidMappingCountMax, UnregisterNormal, UnregisterInvalidCookie, UnregisterInvalidId, UnregisterInvalidUuid]"
  by (simp add: test_cases_def)

lemmas notification_test_defs =
  FfaMiscTestInterPartitionNormal_def FfaMiscTestInterPartitionSecondary_def
  FfaMiscTestInterPartitionDuplicateCookie_def FfaMiscTestInterPartitionInvalidDuplicateId_def
  FfaMiscTestInterPartitionInvalidMappingCountMin_def FfaMiscTestInterPartitionInvalidMappingCountMax_def
  FfaMiscTestInterPartitionUnregisterNormal_def FfaMiscTestInterPartitionUnregisterInvalidCookie_def
  FfaMiscTestInterPartitionUnregisterInvalidId_def FfaMiscTestInterPartitionUnregisterInvalidUuid_def

lemmas notification_answers =
  answers_normal answers_secondary answers_duplicates answers_counts answers_unregister

text \<open>
  C7. The notification service passes the repository's own tests: when the requests of the
  application reach a freshly initialised notification service, the ten inter-partition cases of
  the suite, run in the order in which the application adds them, all pass, whatever endpoint the
  application is. They leave the battery service with its five mappings, the thermal service with
  the two that were not unregistered, and exactly their identifiers taken.
\<close>

theorem notification_tests_pass:
  assumes "Context s = Some c" and "IsNotificationServiceAvailable c"
    and "notification_link env src (FfaNotificationServicePartId c) svc"
    and "svc (app_world s) = NotificationServiceInit"
  shows "\<exists>s'. run_cases env (filter (\<lambda>tc. snd tc = NeedsNotificationService) test_cases) s =
        Inr (replicate 10 UNIT_TEST_PASSED, s') \<and>
      svc (app_world s') = tested_table src \<and> Context s' = Some c"
proof -
  have "cases_pass env c svc (filter (\<lambda>tc. snd tc = NeedsNotificationService) test_cases)
      NotificationServiceInit (tested_table src)"
    unfolding notification_cases list.map
    by (rule cases_pass_Cons[OF _ _ _ assms(2,3)] cases_pass_Nil notification_answers |
        simp only: test_of.simps notification_test_defs)+
  moreover have "length (filter (\<lambda>tc. snd tc = NeedsNotificationService) test_cases) = 10"
    by (simp add: notification_cases)
  ultimately show ?thesis using assms(1,4) by (simp only: cases_pass_def)
qed

theorem notification_tests_pass_witness:
  "\<exists>s'. run_cases (ex_app ex_notif_send) (filter (\<lambda>tc. snd tc = NeedsNotificationService) test_cases)
        (ex_app_state ex_context NotificationServiceInit) = Inr (replicate 10 UNIT_TEST_PASSED, s') \<and>
      app_world s' = tested_table 1 \<and> Context s' = Some ex_context"
proof (rule notification_tests_pass[of _ _ _ 1 "\<lambda>w. w"])
  show "notification_link (ex_app ex_notif_send) 1 (FfaNotificationServicePartId ex_context) (\<lambda>w. w)"
    by (simp add: notification_link_def ex_notif_send_def)
qed (simp_all add: ex_context_def)

section \<open>From the test service to the notification\<close>

lemma event_service: "LocateService (NotificationServiceExtractUuid (DArg1 event_request) (DArg2 event_request))
    False (tested_table src) = Some 0"
  by code_simp

lemma event_mapping:
  "first_index (\<lambda>j. NI_Cookie (NS_ServiceInfo (NotificationServices (tested_table src) ! 0) ! j) = 2)
     NOTIFICATION_MAX_MAPPINGS = Some 2"
  "NS_ServiceInfo (NotificationServices (tested_table src) ! 0) ! 2 = mapped src 2 2"
  by code_simp+

lemma event_constants:
  "int_bit 2 = Inr 4" "(ucast (2 ^ DELAYED_SRI_BIT_POS :: UINT32) :: UINT64) = 2"
  "(ucast (DArg3 event_request) :: UINT32) = 2" "DArg0 event_request = TEST_OPCODE_TEST_NOTIFICATION"
  by code_simp+

text \<open>The request of the event test raises notification 2 for the endpoint that registered it.\<close>

lemma event_request_handled:
  "TestServiceHandle lib (Some (request_msg src g event_request)) (Some msg_zero) (tested_table src) f =
     (case FfaNotificationSet lib src 2 4 f of
        (st, f') \<Rightarrow> Inr (Some (msg_zero\<lparr>Arg0 := scast (if EFI_ERROR st then TEST_STATUS_INVALID_PARAMETER
                                             else TEST_STATUS_SUCCESS)\<rparr>), f'))"
proof -
  have fields: "Arg0 (request_msg src g a) = DArg0 a" "Arg1 (request_msg src g a) = DArg1 a"
    "Arg2 (request_msg src g a) = DArg2 a" "Arg3 (request_msg src g a) = DArg3 a" for a
    by (simp_all add: request_msg_def)
  have m: "NI_Id (mapped src 2 2) = 2" "\<not> NI_PerVcpu (mapped src 2 2)" "NI_SourceId (mapped src 2 2) = src"
    by (simp_all add: mapped_def)
  have "NotificationServiceIdSet lib 2 (Some (NotificationServiceExtractUuid (DArg1 event_request)
      (DArg2 event_request))) (push_bit DELAYED_SRI_BIT_POS 1) (tested_table src) f =
      (case FfaNotificationSet lib src 2 4 f of
         (st, f') \<Rightarrow> Inr (if EFI_ERROR st then NOTIFICATION_STATUS_INVALID_PARAMETER
                          else NOTIFICATION_STATUS_SUCCESS, f'))"
    by (simp add: NotificationServiceIdSet_def event_service event_mapping event_constants m split: prod.split)
  then show ?thesis
    by (simp add: TestServiceHandle_def TestNotificationHandler_def fields event_constants notif_status_defs
        split: prod.split)
qed

lemma handle_interrupts_total:
  assumes "gInterrupt s"
  shows "\<exists>s'. handle_interrupts env srcs s = Inr s' \<and> gInterrupt s'"
  using assms
proof (induction srcs arbitrary: s)
  case (Cons a srcs)
  have "\<exists>s1. ApIrqInterruptHandler env a s = Inr s1 \<and> gInterrupt s1"
    using Cons.prems by (simp add: ApIrqInterruptHandler_def set_world_def Let_def split: prod.split)
  then obtain s1 where "ApIrqInterruptHandler env a s = Inr s1" "gInterrupt s1" by blast
  with Cons.IH show ?case by simp
qed simp

lemma take_interrupts_total:
  assumes "gInterrupt s"
  shows "\<exists>s'. take_interrupts env s = Inr s' \<and> gInterrupt s'"
  using assms by (auto simp: take_interrupts_def set_world_def split: prod.split intro!: handle_interrupts_total)

text \<open>The flag is set exactly by a call of the handler.\<close>

lemma handle_interrupts_flag:
  assumes "handle_interrupts env srcs s = Inr s'"
  shows "mIsInterruptFired s' \<longleftrightarrow> mIsInterruptFired s \<or> srcs \<noteq> []"
  using assms
proof (induction srcs arbitrary: s)
  case (Cons a srcs)
  then obtain s1 where h: "ApIrqInterruptHandler env a s = Inr s1" "handle_interrupts env srcs s1 = Inr s'"
    by (auto simp: bind_result_Inr_iff)
  have "mIsInterruptFired s1"
    using h(1) by (auto simp: ApIrqInterruptHandler_def set_world_def Let_def split: prod.splits if_splits)
  with Cons.IH[OF h(2)] show ?case by simp
qed simp

lemma take_interrupts_flag:
  assumes "take_interrupts env s = Inr s'"
  shows "mIsInterruptFired s' \<longleftrightarrow> mIsInterruptFired s \<or> fst (TakeInterrupts env (app_world s)) \<noteq> []"
  using assms handle_interrupts_flag by (fastforce simp: take_interrupts_def set_world_def split: prod.splits)

text \<open>
  C15. A notification from end to end: with the tables the inter-partition tests leave, the event
  test makes the test service of the partition set exactly bit 2, the bit the application has
  bound, with a delayed interrupt for the endpoint that registered the mappings, and, whatever the
  flag of the handler held before, the test passes exactly when the SPMC accepts that call and the
  interrupt handler is called at least once, while the request is sent or during the stall (after
  the handler calls of the first phase).
\<close>

theorem notification_event_delivered:
  assumes c: "Context s = Some c" and i: "gInterrupt s"
    and link: "test_link env lib src (FfaTestServicePartId c) svc lib_state"
    and st: "svc (app_world s) = tested_table src"
  shows "\<exists>st s' a w s1. FfaMiscTestNotificationEvent env s = Inr (st, s') \<and>
     ArmFfaLibMsgSendDirectReq2 env (FfaTestServicePartId c) gEfiTestServiceFfaGuid event_request (app_world s) =
       (EFI_SUCCESS, a, w) \<and>
     lib_state w = snd (FfaNotificationSet lib src 2 4 (lib_state (app_world s))) \<and>
     take_interrupts env (set_world w (s\<lparr>mIsInterruptFired := False\<rparr>)) = Inr s1 \<and>
     (st = UNIT_TEST_PASSED \<longleftrightarrow>
        \<not> EFI_ERROR (fst (FfaNotificationSet lib src 2 4 (lib_state (app_world s)))) \<and>
        fst (TakeInterrupts env w) @ fst (TakeInterrupts env (Stall env 1000 (app_world s1))) \<noteq> [])"
proof -
  obtain r f where set: "FfaNotificationSet lib src 2 4 (lib_state (app_world s)) = (r, f)" by fastforce
  let ?m = "msg_zero\<lparr>Arg0 := scast (if EFI_ERROR r then TEST_STATUS_INVALID_PARAMETER else TEST_STATUS_SUCCESS)\<rparr>"
  have "TestServiceHandle lib (Some (request_msg src gEfiTestServiceFfaGuid event_request)) (Some msg_zero)
      (svc (app_world s)) (lib_state (app_world s)) = Inr (Some ?m, f)"
    by (simp add: st event_request_handled set)
  with link obtain w where send: "ArmFfaLibMsgSendDirectReq2 env (FfaTestServicePartId c) gEfiTestServiceFfaGuid
      event_request (app_world s) = (EFI_SUCCESS, answer_args ?m, w)" and w: "lib_state w = f"
    unfolding test_link_def by blast
  obtain s1 where s1: "take_interrupts env (set_world w (s\<lparr>mIsInterruptFired := False\<rparr>)) = Inr s1" "gInterrupt s1"
    using take_interrupts_total[of "set_world w (s\<lparr>mIsInterruptFired := False\<rparr>)"] i by (auto simp: set_world_def)
  obtain s2 where s2: "take_interrupts env (set_world (Stall env 1000 (app_world s1)) s1) = Inr s2"
    using take_interrupts_total[of "set_world (Stall env 1000 (app_world s1)) s1"] s1(2) by (auto simp: set_world_def)
  have "DArg0 (answer_args ?m) = scast TEST_STATUS_SUCCESS \<longleftrightarrow> \<not> EFI_ERROR r"
    by (simp add: answer_args_def TEST_STATUS_INVALID_PARAMETER_def TEST_STATUS_SUCCESS_def scast_minus_2)
  then have "FfaMiscTestNotificationEvent env s =
      (if EFI_ERROR r then Inr (UNIT_TEST_ERROR_TEST_FAILED, s1)
       else if mIsInterruptFired s2 then Inr (UNIT_TEST_PASSED, s2) else Inr (UNIT_TEST_ERROR_TEST_FAILED, s2))"
    using c send s1(1) s2
    by (simp add: FfaMiscTestNotificationEvent_def with_context_def UT_ASSERT_def)
  moreover have "mIsInterruptFired s2 \<longleftrightarrow>
      fst (TakeInterrupts env w) @ fst (TakeInterrupts env (Stall env 1000 (app_world s1))) \<noteq> []"
    using take_interrupts_flag[OF s1(1)] take_interrupts_flag[OF s2] by (auto simp: set_world_def)
  ultimately show ?thesis using send w set s1(1) by (cases "EFI_ERROR r"; cases "mIsInterruptFired s2") auto
qed

text \<open>
  With an interrupt the test passes; without one it fails even if the flag was set before it ran.
\<close>

definition ex_stale_flag :: "(notif_state \<times> script ffa_state) app_state" where
  "ex_stale_flag = (ex_app_state ex_context (tested_table 1, ex_ffa []))\<lparr>mIsInterruptFired := True\<rparr>"

definition ex_quiet_app :: "(notif_state \<times> script ffa_state) app_env" where
  "ex_quiet_app = (ex_app ex_test_send)\<lparr>TakeInterrupts := (\<lambda>w. ([], w))\<rparr>"

theorem notification_event_delivered_witness:
  "map_sum (\<lambda>e. e) fst (FfaMiscTestNotificationEvent (ex_app ex_test_send) ex_stale_flag) = Inr UNIT_TEST_PASSED \<and>
   (\<exists>st. map_sum (\<lambda>e. e) fst (FfaMiscTestNotificationEvent ex_quiet_app ex_stale_flag) = Inr st \<and>
      st \<noteq> UNIT_TEST_PASSED)"
proof -
  have l: "test_link env ex_env 1 (FfaTestServicePartId ex_context) fst snd"
    if "ArmFfaLibMsgSendDirectReq2 env = ex_test_send" for env
    using that by (simp add: test_link_def ex_test_send_def)
  have c: "Context ex_stale_flag = Some ex_context" "gInterrupt ex_stale_flag"
    "fst (app_world ex_stale_flag) = tested_table 1" "snd (app_world ex_stale_flag) = ex_ffa []"
    by (simp_all add: ex_stale_flag_def ex_app_state_def)
  have ok: "\<not> EFI_ERROR (fst (FfaNotificationSet ex_env 1 2 4 (ex_ffa [])))" by code_simp
  have e: "ArmFfaLibMsgSendDirectReq2 (ex_app ex_test_send) = ex_test_send" "ArmFfaLibMsgSendDirectReq2 ex_quiet_app = ex_test_send"
    "fst (TakeInterrupts (ex_app ex_test_send) w) = [42]" "fst (TakeInterrupts ex_quiet_app w) = []" for w
    by (simp_all add: ex_app_def ex_quiet_app_def)
  note delivered = notification_event_delivered[OF c(1,2) l c(3)]
  from delivered[OF e(1)] delivered[OF e(2)] show ?thesis by (fastforce simp: c(4) ok e)
qed

text \<open>A failed bind goes unnoticed: the setup passes whatever \<^verbatim>\<open>FfaNotificationBind\<close> returns.\<close>

lemma failed_bind_unnoticed:
  assumes "Context s = Some c" and "FfaNotificationBitmapCreate (ffa_lib env) 1 (ffa s) = (EFI_SUCCESS, f)"
  shows "FfaMiscSetupNotifications env s = Inr (UNIT_TEST_PASSED,
     s\<lparr>ffa := snd (FfaNotificationBind (ffa_lib env) (FfaTestServicePartId c) 0 4 f)\<rparr>)"
  using assms by (simp add: FfaMiscSetupNotifications_def with_context_def UT_ASSERT_def)

text \<open>A newer major version with a smaller minor number is refused.\<close>

lemma newer_major_refused:
  assumes "ArmFfaLibGetVersion env (ARM_FFA_MAJOR_VERSION env) (ARM_FFA_MINOR_VERSION env) (app_world s) =
      (EFI_SUCCESS, ARM_FFA_MAJOR_VERSION env + 1, 0, w)" and "0 < ARM_FFA_MINOR_VERSION env"
  shows "FfaMiscVerifyVersion env s = Inr (UNIT_TEST_ERROR_TEST_FAILED, set_world w s)"
  using assms by (auto simp: FfaMiscVerifyVersion_def UT_ASSERT_def Let_def)

section \<open>The TPM service under the tests\<close>

lemma expect_tpm_passes:
  assumes link: "tpm_link env cfg src (FfaTpm2ServicePartId c) tpm" and c: "Context s = Some c"
    and h: "TpmServiceHandle cfg (Some (request_msg src (gTpm2ServiceFfaGuid env) a)) (Some msg_zero)
        (tpm (app_world s)) = Some (Inr (Some r, st))"
  obtains s' where "expect_tpm env a x s =
      Inr (if Arg0 r = app_tpm2 env x then UNIT_TEST_PASSED else UNIT_TEST_ERROR_TEST_FAILED, s')"
    "Context s' = Some c" "tpm (app_world s') = st"
proof -
  from link h obtain w where send: "ArmFfaLibMsgSendDirectReq2 env (FfaTpm2ServicePartId c)
      (gTpm2ServiceFfaGuid env) a (app_world s) = (EFI_SUCCESS, answer_args r, w)" and w: "tpm w = st"
    unfolding tpm_link_def by blast
  have "expect_tpm env a x s =
      Inr (if Arg0 r = app_tpm2 env x then UNIT_TEST_PASSED else UNIT_TEST_ERROR_TEST_FAILED, set_world w s)"
    using c send by (simp add: expect_tpm_def with_context_def UT_ASSERT_def answer_args_def)
  then show ?thesis using that c w by (simp add: set_world_def)
qed

lemma version_answer:
  assumes "Arg0 req = tpm2 cfg TPM2_FFA_GET_INTERFACE_VERSION"
  shows "TpmServiceHandle cfg (Some req) (Some resp) st =
     Some (Inr (Some (resp\<lparr> Arg0 := tpm2 cfg TPM2_FFA_SUCCESS_OK_RESULTS_RETURNED,
                             Arg1 := push_bit 16 TPM_MAJOR_VER OR TPM_MINOR_VER \<rparr>), st))"
  using assms by (simp add: TpmServiceHandle_def GetInterfaceVersionHandler_def)

lemma manage_answer:
  assumes "Arg0 req = tpm2 cfg TPM2_FFA_MANAGE_LOCALITY" and "opcodes_distinct cfg"
    and "SourceId req AND 0xFF00 \<noteq> 0xFF00"
  shows "TpmServiceHandle cfg (Some req) (Some resp) st =
     Some (Inr (Some (resp\<lparr>Arg0 := tpm2 cfg TPM2_FFA_ERROR_DENIED\<rparr>), st))"
  using assms by (auto simp: TpmServiceHandle_def ManageLocalityHandler_def opcodes_distinct_def)

text \<open>
  C23. The TPM service under the application's tests, run in the order of the suite: the version
  query passes, and the attempt to close a locality passes because the service denies it to
  every endpoint that is not a logical partition of the secure monitor. Neither changes the
  state of the service.
\<close>

theorem tpm_tests_pass:
  assumes "Context s = Some c" and "IsTpm2ServiceAvailable c" and "TPM2_ENABLE env" and "app_tpm2 env = tpm2 cfg"
    and "opcodes_distinct cfg" and "src AND 0xFF00 \<noteq> 0xFF00"
    and "tpm_link env cfg src (FfaTpm2ServicePartId c) tpm"
  shows "\<exists>s'. run_cases env (filter (\<lambda>tc. snd tc = NeedsTpmService) test_cases) s =
        Inr ([UNIT_TEST_PASSED, UNIT_TEST_PASSED], s') \<and> tpm (app_world s') = tpm (app_world s)"
proof -
  let ?v = "args_zero\<lparr>DArg0 := app_tpm2 env TPM2_FFA_GET_INTERFACE_VERSION\<rparr>"
  let ?m = "args_zero\<lparr> DArg0 := app_tpm2 env TPM2_FFA_MANAGE_LOCALITY,
                      DArg1 := app_tpm2 env TPM2_FFA_MANAGE_LOCALITY_CLOSE, DArg2 := 0 \<rparr>"
  have req: "Arg0 (request_msg src g a) = DArg0 a" "SourceId (request_msg src g a) = src" for g a
    by (simp_all add: request_msg_def)
  obtain s1 where s1: "FfaMiscTestTpmGetVersion env s = Inr (UNIT_TEST_PASSED, s1)" "Context s1 = Some c"
      "tpm (app_world s1) = tpm (app_world s)"
    using expect_tpm_passes[OF assms(7,1) version_answer, of ?v TPM2_FFA_SUCCESS_OK_RESULTS_RETURNED]
    by (auto simp: FfaMiscTestTpmGetVersion_def assms(4) req)
  obtain s2 where s2: "FfaMiscTestTpmCloseLocality env s1 = Inr (UNIT_TEST_PASSED, s2)"
      "tpm (app_world s2) = tpm (app_world s1)"
    using expect_tpm_passes[OF assms(7) s1(2) manage_answer, of ?m TPM2_FFA_ERROR_DENIED]
    by (auto simp: FfaMiscTestTpmCloseLocality_def assms(4-6) req)
  have "filter (\<lambda>tc. snd tc = NeedsTpmService) test_cases =
      [(TpmGetVersion, NeedsTpmService), (TpmCloseLocality, NeedsTpmService)]" by (simp add: test_cases_def)
  then show ?thesis
    using s1 s2 assms(1-3) by (simp add: run_case_def CheckTPMService_def check_available_def)
qed

theorem tpm_tests_pass_witness:
  "\<exists>s'. run_cases (ex_app ex_tpm_send) (filter (\<lambda>tc. snd tc = NeedsTpmService) test_cases)
        (ex_app_state ex_context ex_init) = Inr ([UNIT_TEST_PASSED, UNIT_TEST_PASSED], s') \<and> app_world s' = ex_init"
proof -
  have "tpm_link (ex_app ex_tpm_send) ex_cfg 1 (FfaTpm2ServicePartId ex_context) (\<lambda>w. w)"
    by (simp add: tpm_link_def ex_tpm_send_def)
  moreover have "opcodes_distinct ex_cfg" by code_simp
  ultimately show ?thesis
    using tpm_tests_pass[of "ex_app_state ex_context ex_init" ex_context "ex_app ex_tpm_send" ex_cfg 1 "\<lambda>w. w"]
    by (simp add: ex_context_def)
qed

section \<open>Discovery\<close>

text \<open>The outcomes of the queries for a list of GUIDs.\<close>

fun outcomes :: "'w app_env \<Rightarrow> EFI_GUID list \<Rightarrow> 'w ffa_state \<Rightarrow>
    ((EFI_GUID \<times> EFI_STATUS \<times> EFI_FFA_PART_INFO_DESC) list \<times> 'w ffa_state) result" where
  "outcomes env [] f = Inr ([], f)"
| "outcomes env (g # gs) f =
     bind_result (query_partition env g f) (\<lambda>(st, d, f1).
       bind_result (outcomes env gs f1) (\<lambda>(os, f2). Inr ((g, st, d) # os, f2)))"

text \<open>The partition a successful query has found.\<close>

definition found :: "(EFI_GUID \<times> EFI_STATUS \<times> EFI_FFA_PART_INFO_DESC) list \<Rightarrow> EFI_GUID \<Rightarrow> UINT16 option" where
  "found os g = (case map_of os g of
      Some (st, d) \<Rightarrow> if EFI_ERROR st then None else Some (PartitionId d)
    | None \<Rightarrow> None)"

definition context_zero :: FFA_TEST_CONTEXT where
  "context_zero = \<lparr> IsMmCommunicationServiceAvailable = False, IsTestServiceAvailable = False,
     IsTpm2ServiceAvailable = False, IsNotificationServiceAvailable = False, FfaMmCommunicationPartId = 0,
     FfaTestServicePartId = 0, FfaTpm2ServicePartId = 0, FfaNotificationServicePartId = 0, SriIndex = 0 \<rparr>"

fun note_all :: "'w app_env \<Rightarrow> (EFI_GUID \<times> EFI_STATUS \<times> EFI_FFA_PART_INFO_DESC) list \<Rightarrow>
    FFA_TEST_CONTEXT \<Rightarrow> FFA_TEST_CONTEXT" where
  "note_all env [] c = c"
| "note_all env ((g, st, d) # os) c =
     note_all env os (if EFI_ERROR st then c else note_partition env g (PartitionId d) c)"

lemma discover_outcomes:
  assumes "discover env gs c s = Inr (UNIT_TEST_PASSED, s')" and "Context s = Some c"
  shows "\<exists>os. outcomes env gs (ffa s) = Inr (os, ffa s') \<and> Context s' = Some (note_all env os c) \<and>
     IsMmCommunicationServiceAvailable (note_all env os c) \<and> map fst os = gs"
  using assms
proof (induction gs arbitrary: c s)
  case Nil
  then show ?case by (auto simp: UT_ASSERT_def split: if_splits)
next
  case (Cons g gs)
  from Cons.prems(1) obtain st d f where q: "query_partition env g (ffa s) = Inr (st, d, f)"
    by (auto simp: bind_result_Inr_iff)
  show ?case
  proof (cases "EFI_ERROR st")
    case True
    with Cons.prems(1) q have "discover env gs c (s\<lparr>ffa := f\<rparr>) = Inr (UNIT_TEST_PASSED, s')"
      by (auto split: if_splits)
    from Cons.IH[OF this] Cons.prems(2) q True show ?thesis by auto
  next
    case False
    let ?c = "note_partition env g (PartitionId d) c"
    from Cons.prems(1) q False have
      "discover env gs ?c (s\<lparr>Context := Some ?c, ffa := f\<rparr>) = Inr (UNIT_TEST_PASSED, s')"
      by (auto simp: UT_ASSERT_def Let_def split: if_splits)
    from Cons.IH[OF this] q False show ?thesis by auto
  qed
qed

text \<open>
  C28. Discovery finds exactly the services that answer: when the test passes, started with the
  zeroed context of the application and with four distinct GUIDs, the MM communication service is available, each
  of the other services is marked available exactly when the query for its GUID succeeded, and
  the partition noted for an available service is the one the query returned. The later cases of
  the test service and of the notification service run only then; those of the TPM service also need the
  build option of the TPM.
\<close>

theorem discovery_exact:
  assumes "FfaMiscGetPartitionInfoRegs env s = Inr (UNIT_TEST_PASSED, s')" and "Context s = Some context_zero"
    and "distinct (GuidsOfInterest env)"
  shows "\<exists>os c. outcomes env (GuidsOfInterest env) (ffa s) = Inr (os, ffa s') \<and> Context s' = Some c \<and>
     found os (gEfiMmCommunication2ProtocolGuid env) = Some (FfaMmCommunicationPartId c) \<and>
     (if IsTestServiceAvailable c then Some (FfaTestServicePartId c) else None) = found os gEfiTestServiceFfaGuid \<and>
     (if IsTpm2ServiceAvailable c then Some (FfaTpm2ServicePartId c) else None) =
       found os (gTpm2ServiceFfaGuid env) \<and>
     (if IsNotificationServiceAvailable c then Some (FfaNotificationServicePartId c) else None) =
       found os gEfiNotificationServiceFfaGuid \<and>
     (\<forall>p \<in> {NeedsTestService, NeedsNotificationService}.
        (check_of env p (Context s') = UNIT_TEST_PASSED) =
        (found os (if p = NeedsTestService then gEfiTestServiceFfaGuid else gEfiNotificationServiceFfaGuid) \<noteq> None))"
proof -
  from assms(1,2) have "discover env (GuidsOfInterest env) context_zero s = Inr (UNIT_TEST_PASSED, s')"
    by (simp add: FfaMiscGetPartitionInfoRegs_def with_context_def)
  from discover_outcomes[OF this assms(2)] obtain os where
    os: "outcomes env (GuidsOfInterest env) (ffa s) = Inr (os, ffa s')" "Context s' = Some (note_all env os context_zero)"
      "IsMmCommunicationServiceAvailable (note_all env os context_zero)" "map fst os = GuidsOfInterest env" by blast
  from os(4) obtain st0 d0 st1 d1 st2 d2 st3 d3 where
    "os = [(gEfiMmCommunication2ProtocolGuid env, st0, d0), (gEfiTestServiceFfaGuid, st1, d1),
           (gTpm2ServiceFfaGuid env, st2, d2), (gEfiNotificationServiceFfaGuid, st3, d3)]"
    by (auto simp: GuidsOfInterest_def map_eq_Cons_conv)
  with os assms(3) show ?thesis
    by (intro exI[of _ os] exI[of _ "note_all env os context_zero"])
      (auto simp: found_def note_partition_def context_zero_def GuidsOfInterest_def CheckTestService_def
        CheckNotificationService_def check_available_def split: if_splits)
qed

definition ex_unit_app :: "unit app_env" where
  "ex_unit_app = ex_app (\<lambda>_ _ a w. (EFI_SUCCESS, a, w))"

definition ex_discovered :: "unit app_state" where
  "ex_discovered = (case FfaMiscGetPartitionInfoRegs ex_unit_app (ex_app_state context_zero ()) of
     Inr (_, s) \<Rightarrow> s | Inl _ \<Rightarrow> ex_app_state context_zero ())"

theorem discovery_exact_witness:
  "\<exists>os c. outcomes ex_unit_app (GuidsOfInterest ex_unit_app) (ffa (ex_app_state context_zero ())) =
       Inr (os, ffa ex_discovered) \<and>
     Context ex_discovered = Some c \<and> found os (app_guid 1) = Some (FfaMmCommunicationPartId c) \<and>
     (if IsTestServiceAvailable c then Some (FfaTestServicePartId c) else None) = found os gEfiTestServiceFfaGuid"
proof -
  have r: "FfaMiscGetPartitionInfoRegs ex_unit_app (ex_app_state context_zero ()) = Inr (UNIT_TEST_PASSED, ex_discovered)"
    by code_simp
  have d: "distinct (GuidsOfInterest ex_unit_app)" by code_simp
  have g: "gEfiMmCommunication2ProtocolGuid ex_unit_app = app_guid 1" by (simp add: ex_unit_app_def ex_app_def)
  from discovery_exact[OF r _ d] show ?thesis unfolding g ex_app_sel by blast
qed

section \<open>Calls into the framework\<close>

definition suite_calls :: "(test_function \<times> prerequisite) list \<Rightarrow> fw_call list" where
  "suite_calls tcs = map (\<lambda>(t, p). AddTestCase t p) tcs @ [RunAllTestSuites]"

text \<open>The calls of a run: those of \<open>all\<close> up to the first that fails, which is the last one made.\<close>

definition calls_until_error :: "fw_env \<Rightarrow> fw_call list \<Rightarrow> fw_call list \<Rightarrow> fw_call list \<Rightarrow> EFI_STATUS \<Rightarrow> bool" where
  "calls_until_error fw done_before all made st \<longleftrightarrow>
     (\<exists>n < length all. made = done_before @ take (Suc n) all \<and>
        (\<forall>k < n. \<not> EFI_ERROR (fw_status fw (done_before @ take k all) (all ! k))) \<and>
        (if n = length all - 1 then st = fw_status fw (done_before @ take n all) (all ! n)
         else EFI_ERROR st \<and> EFI_ERROR (fw_status fw (done_before @ take n all) (all ! n))))"

lemma calls_until_error_Cons:
  assumes "\<not> EFI_ERROR (fw_status fw b x)" and "calls_until_error fw (b @ [x]) all made st" and "all \<noteq> []"
  shows "calls_until_error fw b (x # all) made st"
proof -
  from assms(2) obtain n where n: "n < length all" "made = (b @ [x]) @ take (Suc n) all"
    "\<forall>k < n. \<not> EFI_ERROR (fw_status fw ((b @ [x]) @ take k all) (all ! k))"
    "if n = length all - 1 then st = fw_status fw ((b @ [x]) @ take n all) (all ! n)
     else EFI_ERROR st \<and> EFI_ERROR (fw_status fw ((b @ [x]) @ take n all) (all ! n))"
    unfolding calls_until_error_def by blast
  have "\<not> EFI_ERROR (fw_status fw (b @ take k (x # all)) ((x # all) ! k))" if "k < Suc n" for k
    using n(3) assms(1) that by (cases k) auto
  moreover have "Suc n = length (x # all) - 1 \<longleftrightarrow> n = length all - 1" using n(1) by auto
  ultimately show ?thesis
    unfolding calls_until_error_def using n(1,2,4) by (intro exI[of _ "Suc n"]) auto
qed

lemma calls_until_error_stop:
  assumes "EFI_ERROR (fw_status fw b x)" and "EFI_ERROR st" and "all \<noteq> []"
  shows "calls_until_error fw b (x # all) (b @ [x]) st"
  unfolding calls_until_error_def using assms by (intro exI[of _ 0]) auto

lemma add_test_cases_calls:
  "add_test_cases fw tcs b = (st, made) \<Longrightarrow> calls_until_error fw b (suite_calls tcs) made st"
proof (induction fw tcs b rule: add_test_cases.induct)
  case (1 fw calls)
  then show ?case unfolding calls_until_error_def suite_calls_def by (intro exI[of _ 0]) simp
next
  case (2 fw t p ts calls)
  show ?case
  proof (cases "EFI_ERROR (fw_status fw calls (AddTestCase t p))")
    case True
    with 2(2) calls_until_error_stop[OF True, of EFI_OUT_OF_RESOURCES "suite_calls ts"] show ?thesis
      by (auto simp: suite_calls_def)
  next
    case False
    with 2 calls_until_error_Cons[OF False, of "suite_calls ts" made st] show ?thesis
      by (auto simp: suite_calls_def)
  qed
qed

text \<open>
  C35. The application uses the framework in order: it makes the calls initialise, create the
  suite, add the nineteen cases in the order of the source and run, up to the first that fails;
  the tests run only when every case has been added, a failure on the way is returned as an
  error, and the framework is freed exactly once, at the end, when there is a handle.
\<close>

theorem FfaPartitionTestAppEntry_calls:
  "\<exists>made st. FfaPartitionTestAppEntry fw =
       (st, made @ (if fw_handle fw then [FreeUnitTestFramework] else [])) \<and>
     calls_until_error fw [] (InitUnitTestFramework # CreateUnitTestSuite # suite_calls test_cases) made st \<and>
     FreeUnitTestFramework \<notin> set made"
proof -
  have free: "FreeUnitTestFramework \<notin> set made"
    if "calls_until_error fw [] (InitUnitTestFramework # CreateUnitTestSuite # suite_calls test_cases) made st" for made st
  proof -
    have "set made \<subseteq> set (InitUnitTestFramework # CreateUnitTestSuite # suite_calls test_cases)"
      using that set_take_subset unfolding calls_until_error_def by fastforce
    then show ?thesis by (auto simp: suite_calls_def)
  qed
  have ne: "suite_calls test_cases \<noteq> []" by (simp add: suite_calls_def)
  obtain st made where add: "add_test_cases fw test_cases [InitUnitTestFramework, CreateUnitTestSuite] = (st, made)" by fastforce
  from add_test_cases_calls[OF this] have
    run: "calls_until_error fw ([InitUnitTestFramework] @ [CreateUnitTestSuite]) (suite_calls test_cases) made st" by simp
  show ?thesis
  proof (cases "EFI_ERROR (fw_status fw [] InitUnitTestFramework)")
    case True
    from calls_until_error_stop[OF this this, of "CreateUnitTestSuite # suite_calls test_cases"] free True
    show ?thesis by (auto simp: FfaPartitionTestAppEntry_def)
  next
    case init: False
    show ?thesis
    proof (cases "EFI_ERROR (fw_status fw [InitUnitTestFramework] CreateUnitTestSuite)")
      case True
      have "calls_until_error fw ([] @ [InitUnitTestFramework]) (CreateUnitTestSuite # suite_calls test_cases)
          (([] @ [InitUnitTestFramework]) @ [CreateUnitTestSuite]) EFI_OUT_OF_RESOURCES"
        by (rule calls_until_error_stop) (use True ne in simp_all)
      from calls_until_error_Cons[OF init this] free init True show ?thesis
        by (auto simp: FfaPartitionTestAppEntry_def)
    next
      case False
      then have "calls_until_error fw ([] @ [InitUnitTestFramework]) (CreateUnitTestSuite # suite_calls test_cases) made st"
        using run ne by (intro calls_until_error_Cons) simp_all
      from calls_until_error_Cons[OF init this] free init False add show ?thesis
        by (auto simp: FfaPartitionTestAppEntry_def)
    qed
  qed
qed

end
