(* ===== verification/Spec2Isabelle.thy ===== *)
theory Spec2Isabelle
  imports Prelude FfaMessages FfaCalls FfaProperties NotificationService NotificationProperties
    NotificationContract
    TestService TpmStateTranslation TpmSstProperties TpmService TpmProperties TpmSession TpmDevice AllocatorContract PageAlloc
    PageProperties PageContract PoolAlloc PoolProperties PoolContract Fdt MemoryLib MemoryLibProperties
    PePermissions EntryPoint ArchTimer PartitionTest PartitionTestProperties
begin

text \<open>
  \<^bold>\<open>mu_feature_ffa: secure partition services over FF-A.\<close>

  The repository holds the C libraries from which an AArch64 secure partition is built: the
  entry point that starts the partition, the memory allocation library it runs on, the library
  of FF-A calls, three services that answer direct messages from the normal world, a timer
  library, and an application that tests the services from the normal world. All paths below are relative to \<^verbatim>\<open>src/FfaFeaturePkg\<close>.

  \<^bold>\<open>How the parts interact.\<close> The SPMC starts the partition at \<^verbatim>\<open>ModuleEntryPoint\<close>, which finds
  the manifest (a device tree), sets the permissions of the image's sections, publishes the
  manifest in \<^verbatim>\<open>gSpst\<close> and runs the library constructors. The constructor of the memory library
  reads the heap region from the manifest and gives it to the page allocator; the pool allocator
  takes its pages from there. The running partition waits in \<^verbatim>\<open>FfaMessageWait\<close>, dispatches each
  message to the notification, TPM or test service, and answers it. The test service uses the
  notification service, which sets notifications by an FF-A call. The TPM service drives the TPM
  through the state translation library.

  \<^bold>\<open>Theories and sources.\<close>

  \<^item> \<open>Prelude\<close>: C integers as words, \<open>EFI_STATUS\<close>, faults and the result type \<open>fault + 'a\<close>,
    byte images of words, the search loop shared by the services, reachable states and the locale
    that lifts a step-wise invariant to every run, sequences of messages and the locale of a
    handler that implements an abstract service.
  \<^item> \<open>FfaMessages\<close>, \<open>FfaCalls\<close>, \<open>FfaProperties\<close>: \<^verbatim>\<open>Library/ArmFfaLibEx/ArmFfaLibEx.c\<close>,
    \<^verbatim>\<open>Include/Library/ArmFfaLibEx.h\<close>, \<^verbatim>\<open>Library/PlatformFfaInterruptLibNull\<close>. Direct messages and
    GUIDs survive packing, and a direct request and its response make the round trip through the
    registers; the blocking calls serve every interrupt and end with the first other result; split handles and bitmaps are reassembled; what
    \<^verbatim>\<open>FfaPartitionInfoGetRegs\<close> leaves in the caller's array.
  \<^item> \<open>NotificationService\<close>, \<open>NotificationProperties\<close>, \<open>NotificationContract\<close>:
    \<^verbatim>\<open>Library/NotificationServiceLib\<close>. The table
    of services with their cookie mappings and the global bitmask. Identifiers are unique and the
    bitmask is exact in every reachable state, whose table keeps its declared shape; the replies to any
    messages are those of an abstract table of cookie registries (interpretation
    \<open>notif_service\<close>), and no endpoint can disturb what another one registered; registration and its inverse round trip; a notification goes to the registered
    endpoint.
  \<^item> \<open>TestService\<close>: \<^verbatim>\<open>Library/TestServiceLib/TestServiceLib.c\<close>, composed with the notification
    service.
  \<^item> \<open>TpmStateTranslation\<close>, \<open>TpmSstProperties\<close>:
    \<^verbatim>\<open>Library/TpmServiceStateTranslationLib\<close>. Polling loops, CRB and FIFO transfers. The loops
    return and are exact with respect to the timeout and to failing yields; the FIFO loops move a stream of bytes in
    order; the locale \<open>sst_operation\<close> is the contract the TPM service relies on.
  \<^item> \<open>TpmService\<close>, \<open>TpmProperties\<close>: \<^verbatim>\<open>Library/TpmServiceLib/TpmServiceLib.c\<close>. The service refines
    the abstract machine of localities and command states, a function: a message answered with
    success has exactly the machine's effect, any other has none; every message is answered; only
    the owner of the TPM can give it commands.
  \<^item> \<open>TpmSession\<close>: the service over sequences of messages with arbitrary writes to the shared
    CRBs in between; the machine replays the trace of replies, and the TPM is never shared.
  \<^item> \<open>TpmDevice\<close>: both libraries against a TPM behind a CRB or a FIFO, stated as properties of the
    device. The TPM executes exactly the command and the caller gets exactly its response, from the
    driver up to the message of the service.
  \<^item> \<open>AllocatorContract\<close>: the contract of an allocator over a set of free units as the locales
    \<open>allocator\<close> and \<open>checked_allocator\<close>, with what a client may conclude for every sequence of
    requests.
  \<^item> \<open>PageAlloc\<close>, \<open>PageProperties\<close>, \<open>PageContract\<close>:
    \<^verbatim>\<open>Library/SecurePartitionMemoryAllocationLib/Page.c\<close>. The free list as address and length pairs;
    the interpretation \<open>pages\<close> of the contract over page numbers.
  \<^item> \<open>PoolAlloc\<close>, \<open>PoolProperties\<close>, \<open>PoolContract\<close>: \<^verbatim>\<open>Pool.c\<close> of the same library. Size classes
    with headers in the managed memory; the interpretation \<open>mem\<close> over bytes for pages and pools
    together: no byte is lost or handed out twice under any interleaving.
  \<^item> \<open>Fdt\<close>, \<open>MemoryLib\<close>, \<open>MemoryLibProperties\<close>: the interface functions and the constructor of
    \<^verbatim>\<open>SecurePartitionMemoryAllocationLib.c\<close>. Aligned pages take exactly the aligned block;
    reallocation keeps the contents; the constructor frees exactly the heap of the manifest, or nothing when
    the region state it reads, a local variable the code never writes, has a bit of the skip mask.
  \<^item> \<open>PePermissions\<close>: \<^verbatim>\<open>Library/SecurePartitionEntryPoint/SetPermissions.c\<close>. The permission calls
    made for an image.
  \<^item> \<open>EntryPoint\<close>: \<^verbatim>\<open>StandaloneMmCoreEntryPoint.c\<close> of the same library. The boot sequence as a list of
    events, the order it keeps, and that it goes through exactly when all its checks pass.
  \<^item> \<open>ArchTimer\<close>: \<^verbatim>\<open>Library/ArmArchTimerLibEx/ArmArchTimerLibEx.c\<close>. Delays and time conversion.
  \<^item> \<open>PartitionTest\<close>, \<open>PartitionTestProperties\<close>:
    \<^verbatim>\<open>Applications/FfaPartitionTest/FfaPartitionTestApp.c\<close>. Its tests as clients of the services: the
    notification tests pass against a fresh notification service, the event test reaches the SPMC
    with the bound bit, the TPM tests pass for every normal endpoint, discovery notes exactly the
    services that answer, and the framework is used in order.
  \<^item> This theory: the pointer of \<^verbatim>\<open>Library/SecurePartitionServicesTableLib\<close>, and the composition of
    the entry point with the constructor of the memory library and
    the allocators: from boot on, free and used memory together are exactly the heap the constructor
    took from the manifest.

  \<^bold>\<open>State and effects.\<close> The state of each library is a record with the fields of its global
  variables; an operation takes it and returns it updated. An assertion, a null dereference, an
  access out of bounds and a corrupted list are values of type \<open>fault\<close>. Integers keep the width
  they have in C, and arithmetic wraps. A loop whose end depends on the environment is a
  \<open>partial_function (option)\<close> in which \<open>None\<close> stands for not returning.

  \<^bold>\<open>Parameters.\<close> Code that is not in the repository is an argument of the definitions, with the
  names the sources use: the conduit, the SPMC and the FF-A constants (\<open>ffa_env\<close>, \<open>fid\<close>), the TPM
  and its register layout (\<open>tpm_env\<close>, \<open>tpm_cfg\<close>), the device tree library (\<open>FDT\<close>), the PE/COFF loader
  and firmware volume library, and the timer counter. Theorems about them hold for every such
  environment unless a hypothesis says otherwise.

  \<^bold>\<open>Bounds.\<close> \<open>timeouts_ok\<close> asks that a timeout leave room for one more polling interval below
  \<open>2 ^ 32\<close>, without which the counter of the loop wraps; \<open>sizes_ok\<close> that the lengths the normal
  world puts into a CRB fit the data buffer, which the code does not check (a theorem shows the
  overflow is reachable). \<open>size_in_range\<close> and \<open>request_in_range\<close> keep the byte counts of memory
  requests away from the wrap of 64-bit arithmetic; lemmas show what happens outside. Notification
  identifiers are below 32 where the code shifts an \<^verbatim>\<open>int\<close> by them. \<open>notification_link\<close>, \<open>test_link\<close> and
  \<open>tpm_link\<close> say that the SPMC and the partition carry a direct request to the handler of the service
  and its answer back. \<open>crb_prompt\<close> asks that the TPM finish within the 90 s the driver polls for and no yield fail, and
  \<open>burst_flows\<close> that no read of the burst count of a FIFO fail: a lemma shows that the driver otherwise
  reports a command as sent that was not. No proof depends on fuel.

  \<^bold>\<open>Not modelled.\<close> The assembly stub \<^verbatim>\<open>AArch64/ModuleEntryPoint.S\<close>, which sets the permissions of the stack and jumps to the
  entry point; the Rust port of the test service and the sample Rust partition; build and CI files.
  The message loop of a partition written in C is not in the repository, nor is the library with
  which the test application sends its requests: the links above stand for them. Debug output has no effect in the models.
\<close>

section \<open>From the entry point to the library constructors\<close>

text \<open>
  \<^verbatim>\<open>Library/SecurePartitionServicesTableLib\<close> is this one pointer. It is null until the entry point
  publishes the manifest.
\<close>

definition gSpst :: "UINT64 option" where "gSpst = None"

text \<open>The manifest address in \<^verbatim>\<open>gSpst\<close> when the library constructors run, if they run.\<close>

fun spst_at_constructors :: "event list \<Rightarrow> UINT64 option \<Rightarrow> UINT64 option" where
  "spst_at_constructors [] g = None"
| "spst_at_constructors (Constructors # ev) g = g"
| "spst_at_constructors (SetSpst a # ev) g = spst_at_constructors ev (Some a)"
| "spst_at_constructors (_ # ev) g = spst_at_constructors ev g"

lemma spst_perms [simp]: "spst_at_constructors (map Perm calls @ ev) g = spst_at_constructors ev g"
  by (induction calls) simp_all

lemma spst_started: "started dtb ev \<Longrightarrow> spst_at_constructors ev g = Some dtb"
  by (auto simp: started_def)

lemma free_pages_not_null: "MmFreePages m n fl \<noteq> Inl NullDereference"
  by (auto simp: MmFreePages_def MmInternalFreePages_def InternalMergeNodes_def Let_def ASSERT_def
      bind_result_Inl_iff split: prod.splits if_splits)

lemma constructor_not_null: "MemoryAllocationLibConstructor skip (Some dtb) d s \<noteq> Inl NullDereference"
  by (auto simp: MemoryAllocationLibConstructor_def MmInitializeMemoryServices_def MmAddMemoryRegion_def
      ReadRegionInfo_def MemoryLib.ReadProperty32_def MemoryLib.ReadProperty64_def read_cell_def Let_def
      bind_result_Inl_iff free_pages_not_null split: option.splits prod.splits if_splits)

lemma entry_publishes:
  assumes "ModuleEntryPoint env b = Inr (st, ret, ev)" and "Constructors \<in> set ev"
  shows "spst_at_constructors ev gSpst = Some (snd (GetSpManifest env b))"
proof -
  have "\<not> early ev" using assms(2) by (auto simp: early_def)
  with proper_entry[OF assms(1)] have "started (snd (GetSpManifest env b)) ev" by blast
  then show ?thesis by (rule spst_started)
qed

text \<open>
  The entry point hands the manifest to the library constructors: in every run that gets
  to them, \<^verbatim>\<open>gSpst\<close> has been published before, with the manifest of the boot information, so the
  constructor of the memory allocation library never dereferences a null table and reads the
  heap region from that manifest.
\<close>

theorem boot_publishes_manifest:
  assumes "ModuleEntryPoint env b = Inr (st, ret, ev)" and "Constructors \<in> set ev"
  shows "spst_at_constructors ev gSpst = Some (snd (GetSpManifest env b)) \<and>
     MemoryAllocationLibConstructor skip (map_option (dtb_at env) (spst_at_constructors ev gSpst)) d s \<noteq>
       Inl NullDereference"
  using entry_publishes[OF assms] constructor_not_null by simp

theorem boot_publishes_manifest_witness:
  "spst_at_constructors ex_events gSpst = Some 0x8000 \<and>
   MemoryAllocationLibConstructor 0 (map_option (dtb_at ex_entry) (spst_at_constructors ex_events gSpst))
     (ex_ranges ! 0) ex_empty \<noteq> Inl NullDereference"
proof -
  have r: "ModuleEntryPoint ex_entry (Some ex_boot_info) = Inr (EFI_SUCCESS, 0, ex_events)" by code_simp
  have "Constructors \<in> set ex_events" by (simp add: ex_events_def)
  note boot = boot_publishes_manifest[OF r this, of 0 "ex_ranges ! 0" ex_empty]
  have "snd (GetSpManifest ex_entry (Some ex_boot_info)) = 0x8000" by code_simp
  then show ?thesis using boot by argo
qed

text \<open>
  C4. From boot on, the heap of the manifest is neither lost nor shared. In every run of the entry
  point that gets to the library constructors, the constructor of the memory allocation library
  succeeds on a manifest with a valid heap region. Its descriptor is a local variable whose region
  state the code never writes: when what the stack holds there has no bit of the mask \<open>skip\<close>, the
  region becomes the heap, otherwise there is no heap, although the constructor reports success. In
  both cases, whatever pages and pool buffers a client requests and releases (with sizes and
  addresses in range), every call returns without a failing assertion, the blocks in use are disjoint from each
  other and from free memory, and free and used bytes together are exactly the bytes of the heap.
\<close>

theorem heap_from_boot:
  assumes "ModuleEntryPoint env b = Inr (st, ret, ev)" and "Constructors \<in> set ev"
    and "heap_manifest (dtb_at env (snd (GetSpManifest env b))) base cnt"
    and "mMmMemoryMap s = []" and "requests_ok mem_request_ok ps"
  shows "\<exists>s' c'. MemoryAllocationLibConstructor skip (map_option (dtb_at env) (spst_at_constructors ev gSpst)) d s =
       Inr (EFI_SUCCESS, s') \<and>
     client_run mem_alloc mem_release mem_granted ps (s', []) = Inr c' \<and>
     client_ok pool_ok mem_held pool_bytes mem_extent c' \<and>
     all_units pool_bytes mem_extent c' =
       (if RegionState d AND skip = 0 then {unat base ..< unat base + unat cnt * 4096} else {})"
proof -
  from MemoryAllocationLibConstructor_correct[OF assms(3,4)] obtain s' where
    s': "MemoryAllocationLibConstructor skip (Some (dtb_at env (snd (GetSpManifest env b)))) d s = Inr (EFI_SUCCESS, s')"
      "pool_ok s'"
      "pool_bytes s' = (if RegionState d AND skip = 0 then {unat base ..< unat base + unat cnt * 4096} else {})" by blast
  have "client_ok pool_ok mem_held pool_bytes mem_extent (s', [])" using s'(2) by (simp add: client_ok_def)
  from mem.run_ok[OF this assms(5)] s' entry_publishes[OF assms(1,2)] show ?thesis by (auto simp: all_units_def)
qed

definition ex_boot_manifest :: FDT where
  "ex_boot_manifest = ex_manifest\<lparr>FdtGetProperty := (\<lambda>n k. if n = 40 then FdtGetProperty ex_fdt n k
       else FdtGetProperty ex_manifest n k),
     FdtSubnodeOffsetNameLen := (\<lambda>n k. if k = ''memory-regions'' then 20 else FdtSubnodeOffsetNameLen ex_manifest n k),
     FdtFirstSubnode := (\<lambda>n. if n = 20 then 40 else FdtFirstSubnode ex_manifest n)\<rparr>"

definition ex_boot_env :: entry_env where
  "ex_boot_env = ex_entry\<lparr>dtb_at := (\<lambda>_. ex_boot_manifest)\<rparr>"

theorem heap_from_boot_witness:
  "\<exists>s' c'. MemoryAllocationLibConstructor 0x10 (map_option (dtb_at ex_boot_env) (spst_at_constructors ex_events gSpst))
       (ex_ranges ! 0) ex_empty = Inr (EFI_SUCCESS, s') \<and>
     client_run mem_alloc mem_release mem_granted ex_mem_ops (s', []) = Inr c' \<and>
     client_ok pool_ok mem_held pool_bytes mem_extent c' \<and>
     all_units pool_bytes mem_extent c' = {unat (0x200000 :: UINT64) ..< unat (0x200000 :: UINT64) + unat (16 :: UINT32) * 4096}"
proof -
  have r: "ModuleEntryPoint ex_boot_env (Some ex_boot_info) = Inr (EFI_SUCCESS, 0, ex_events)" by code_simp
  have e: "Constructors \<in> set ex_events" by (simp add: ex_events_def)
  have b: "rev (bytes_of 8 (0x200000 :: UINT64)) = [0, 0, 0, 0, 0, 0x20, 0, 0]"
    and c: "rev (bytes_of 4 (16 :: UINT32)) = [0, 0, 0, 16]" by code_simp+
  have m: "heap_manifest (dtb_at ex_boot_env (snd (GetSpManifest ex_boot_env (Some ex_boot_info)))) 0x200000 16"
    unfolding heap_manifest_def b c
    by (simp add: CheckDescription_def ex_boot_env_def ex_boot_manifest_def ex_fdt_def BASE_1MB_def Let_def)
  have "requests_ok mem_request_ok ex_mem_ops" by (simp add: ex_mem_ops_def requests_ok_def size_in_range_def)
  from heap_from_boot[OF r e m _ this, of ex_empty "0x10" "ex_ranges ! 0"] show ?thesis
    by (simp add: ex_ranges_def ex_empty_def)
qed

end
